(* ===== verification/Prelude.thy ===== *)
theory Prelude
  imports Main
begin

text \<open>
  Shared ground of the development: the outcome of a Rust call (a value, an error value, or a
  panic), programs that thread contract storage through fallible calls, the folds and traversals
  the contracts write with iterators, the contract of a storage map as a locale, transition
  systems with their reachable states, and a few generic facts on strings and lists.
  Nothing here is specific to one contract.
\<close>

section \<open>Outcomes of Rust calls\<close>

text \<open>
  A Rust function that returns \<^verbatim>\<open>Result<T, E>\<close> yields \<open>Ok\<close>, yields \<open>Err\<close>, or panics
  (an \<^verbatim>\<open>unwrap\<close> of an error, an explicit \<^verbatim>\<open>panic!\<close>, a checked overflow).
\<close>

datatype ('e, 'a) outcome = Ok 'a | Err 'e | Panic string

named_theorems prog_simps \<open>evaluation rules of storage programs\<close>
named_theorems prog_iffs \<open>inversion of a successful run of a storage program\<close>

primrec map_err :: "('e \<Rightarrow> 'f) \<Rightarrow> ('e, 'a) outcome \<Rightarrow> ('f, 'a) outcome" where
  "map_err f (Ok x) = Ok x"
| "map_err f (Err e) = Err (f e)"
| "map_err f (Panic p) = Panic p"

primrec map_ok :: "('a \<Rightarrow> 'b) \<Rightarrow> ('e, 'a) outcome \<Rightarrow> ('e, 'b) outcome" where
  "map_ok f (Ok x) = Ok (f x)"
| "map_ok f (Err e) = Err e"
| "map_ok f (Panic p) = Panic p"

text \<open>\<^verbatim>\<open>Result::unwrap\<close>: an error becomes a panic.\<close>

primrec unwrap :: "('e, 'a) outcome \<Rightarrow> ('f, 'a) outcome" where
  "unwrap (Ok x) = Ok x"
| "unwrap (Err e) = Panic ''called `Result::unwrap()` on an `Err` value''"
| "unwrap (Panic p) = Panic p"

text \<open>\<^verbatim>\<open>Option<Result<T, E>>::transpose\<close>, applied to \<^verbatim>\<open>opt.map(f)\<close>.\<close>

primrec map_transpose :: "('a \<Rightarrow> ('e, 'b) outcome) \<Rightarrow> 'a option \<Rightarrow> ('e, 'b option) outcome" where
  "map_transpose f None = Ok None"
| "map_transpose f (Some x) = map_ok Some (f x)"

text \<open>\<^verbatim>\<open>Option::map_or(default, f)\<close>.\<close>

primrec map_or :: "'b \<Rightarrow> ('a \<Rightarrow> 'b) \<Rightarrow> 'a option \<Rightarrow> 'b" where
  "map_or d f None = d"
| "map_or d f (Some x) = f x"

definition is_ok :: "('e, 'a) outcome \<Rightarrow> bool" where
  "is_ok r \<longleftrightarrow> (case r of Ok _ \<Rightarrow> True | _ \<Rightarrow> False)"

lemma is_ok_simps [simp]: "is_ok (Ok x)" "\<not> is_ok (Err e)" "\<not> is_ok (Panic p)"
  by (simp_all add: is_ok_def)

lemma map_err_Ok_iff [simp]: "map_err f r = Ok x \<longleftrightarrow> r = Ok x"
  by (cases r) auto

lemma map_err_Err_iff: "map_err f r = Err e \<longleftrightarrow> (\<exists>e'. r = Err e' \<and> e = f e')"
  by (cases r) auto

lemma map_err_Panic_iff [simp]: "map_err f r = Panic p \<longleftrightarrow> r = Panic p"
  by (cases r) auto

lemma map_ok_Ok_iff: "map_ok f r = Ok y \<longleftrightarrow> (\<exists>x. r = Ok x \<and> y = f x)"
  by (cases r) auto

lemma map_or_option: "map_or d f v = (case v of None \<Rightarrow> d | Some x \<Rightarrow> f x)"
  by (cases v) auto

section \<open>Programs over storage\<close>

text \<open>
  A handler borrows the contract's storage mutably. Its model takes the storage and returns the
  outcome together with the storage as it stands when the call returns, also when it returns an
  error: what a Rust function wrote before an early return stays written for its caller, and only
  the chain rolls a failed entry point back.
\<close>

type_synonym ('s, 'e, 'a) prog = "'s \<Rightarrow> ('e, 'a) outcome \<times> 's"

definition ret :: "'a \<Rightarrow> ('s, 'e, 'a) prog" where
  "ret x s = (Ok x, s)"

definition throw :: "'e \<Rightarrow> ('s, 'e, 'a) prog" where
  "throw e s = (Err e, s)"

definition lift :: "('e, 'a) outcome \<Rightarrow> ('s, 'e, 'a) prog" where
  "lift r s = (r, s)"

definition reads :: "('s \<Rightarrow> 'a) \<Rightarrow> ('s, 'e, 'a) prog" where
  "reads f s = (Ok (f s), s)"

definition writes :: "('s \<Rightarrow> 's) \<Rightarrow> ('s, 'e, unit) prog" where
  "writes f s = (Ok (), f s)"

definition bnd :: "('s, 'e, 'a) prog \<Rightarrow> ('a \<Rightarrow> ('s, 'e, 'b) prog) \<Rightarrow> ('s, 'e, 'b) prog" where
  "bnd m f s =
     (case m s of
        (Ok x, s') \<Rightarrow> f x s'
      | (Err e, s') \<Rightarrow> (Err e, s')
      | (Panic p, s') \<Rightarrow> (Panic p, s'))"

text \<open>The conversion the \<^verbatim>\<open>?\<close> operator applies to an error (\<^verbatim>\<open>From\<close>).\<close>

definition err_into :: "('e \<Rightarrow> 'f) \<Rightarrow> ('s, 'e, 'a) prog \<Rightarrow> ('s, 'f, 'a) prog" where
  "err_into f m s = (case m s of (r, s') \<Rightarrow> (map_err f r, s'))"

text \<open>A program over a part of the storage, run on the whole.\<close>

definition zoom :: "('s \<Rightarrow> 't) \<Rightarrow> ('t \<Rightarrow> 's \<Rightarrow> 's) \<Rightarrow> ('t, 'e, 'a) prog \<Rightarrow> ('s, 'e, 'a) prog" where
  "zoom view put m s = (case m (view s) of (r, t) \<Rightarrow> (r, put t s))"

text \<open>\<^verbatim>\<open>iter.try_fold(acc, f)\<close> and \<^verbatim>\<open>iter.map(f).collect::<Result<Vec<_>, _>>()\<close>, with a closure
  that may write to storage and stops at the first error.\<close>

fun try_fold :: "('b \<Rightarrow> 'a \<Rightarrow> ('s, 'e, 'b) prog) \<Rightarrow> 'b \<Rightarrow> 'a list \<Rightarrow> ('s, 'e, 'b) prog" where
  "try_fold f acc [] = ret acc"
| "try_fold f acc (x # xs) = bnd (f acc x) (\<lambda>acc'. try_fold f acc' xs)"

fun traverse :: "('a \<Rightarrow> ('s, 'e, 'b) prog) \<Rightarrow> 'a list \<Rightarrow> ('s, 'e, 'b list) prog" where
  "traverse f [] = ret []"
| "traverse f (x # xs) = bnd (f x) (\<lambda>y. bnd (traverse f xs) (\<lambda>ys. ret (y # ys)))"

lemmas prog_defs = ret_def throw_def lift_def reads_def writes_def bnd_def err_into_def zoom_def

lemma bnd_simps [simp, prog_simps]:
  "bnd (ret x) f = f x"
  "bnd (throw e) f = throw e"
  "bnd (lift (Ok x)) f = f x"
  "bnd (lift (Err e)) f = lift (Err e)"
  "bnd (lift (Panic p)) f = lift (Panic p)"
  by (auto simp: prog_defs fun_eq_iff)

lemma bnd_Pair [simp, prog_simps]:
  "bnd (Pair (Ok x)) f = f x" "bnd (Pair (Err e)) f = Pair (Err e)" "bnd (Pair (Panic p)) f = Pair (Panic p)"
  by (auto simp: bnd_def fun_eq_iff)

lemma bnd_reads [prog_simps]: "bnd (reads g) f s = f (g s) s"
  by (simp add: prog_defs)

lemma bnd_writes [prog_simps]: "bnd (writes g) f s = f () (g s)"
  by (simp add: prog_defs)

lemma run_simps [prog_simps]:
  "ret x s = (Ok x, s)" "throw e s = (Err e, s)" "lift r s = (r, s)"
  "reads g s = (Ok (g s), s)" "writes g s = (Ok (), g s)"
  by (simp_all add: prog_defs)

lemma bnd_assoc: "bnd (bnd m f) g = bnd m (\<lambda>x. bnd (f x) g)"
  by (auto simp: bnd_def fun_eq_iff split: prod.splits outcome.splits)

lemma bnd_run:
  "m s = (Ok x, s') \<Longrightarrow> bnd m f s = f x s'"
  "m s = (Err e, s') \<Longrightarrow> bnd m f s = (Err e, s')"
  "m s = (Panic p, s') \<Longrightarrow> bnd m f s = (Panic p, s')"
  by (simp_all add: bnd_def)

lemma bnd_Ok_iff [prog_iffs]:
  "bnd m f s = (Ok y, s') \<longleftrightarrow> (\<exists>x s1. m s = (Ok x, s1) \<and> f x s1 = (Ok y, s'))"
  by (auto simp: bnd_def split: prod.splits outcome.splits)

lemma run_Ok_iffs [prog_iffs]:
  "ret x s = (Ok y, s') \<longleftrightarrow> y = x \<and> s' = s"
  "\<not> throw e s = (Ok y, s')"
  "lift r s = (Ok y, s') \<longleftrightarrow> r = Ok y \<and> s' = s"
  "reads g s = (Ok v, s') \<longleftrightarrow> v = g s \<and> s' = s"
  "writes w s = (Ok u, s') \<longleftrightarrow> s' = w s"
  "err_into f m s = (Ok y, s') \<longleftrightarrow> m s = (Ok y, s')"
  by (auto simp: prog_defs split: prod.splits)

lemma bnd_mono_state:
  assumes "\<And>r s1. m s = (r, s1) \<Longrightarrow> P s1"
    and "\<And>x s1 r s2. m s = (Ok x, s1) \<Longrightarrow> f x s1 = (r, s2) \<Longrightarrow> P s2"
    and "bnd m f s = (r, s')"
  shows "P s'"
  using assms by (auto simp: bnd_def split: prod.splits outcome.splits)

text \<open>
  Two shapes of loop recur: one that writes for each element and then encodes a message, and one
  that only encodes. When they succeed, every element was encoded and every write was made.
\<close>

lemma traverse_lift_Ok_iff:
  "traverse (\<lambda>x. lift (g x)) xs s = (Ok ys, t) \<longleftrightarrow> list_all2 (\<lambda>x y. g x = Ok y) xs ys \<and> t = s"
  by (induction xs arbitrary: ys) (auto simp: prog_iffs list_all2_Cons1)

lemma list_all2_map_eq: "list_all2 (\<lambda>x y. f x = y) xs ys \<longleftrightarrow> ys = map f xs"
  by (induction xs arbitrary: ys) (auto simp: list_all2_Cons1)

lemma traverse_writes_Ok_iff:
  "traverse (\<lambda>x. bnd (writes (w x)) (\<lambda>_. lift (g x))) xs s = (Ok ys, t) \<longleftrightarrow>
     list_all2 (\<lambda>x y. g x = Ok y) xs ys \<and> t = fold w xs s"
  by (induction xs arbitrary: ys s) (auto simp: prog_iffs list_all2_Cons1)

lemma traverse_writes_run:
  "(\<And>x. x \<in> set xs \<Longrightarrow> g x = Ok (k x)) \<Longrightarrow>
   traverse (\<lambda>x. bnd (writes (w x)) (\<lambda>_. lift (g x))) xs s = (Ok (map k xs), fold w xs s)"
  by (simp add: traverse_writes_Ok_iff list_all2_conv_all_nth)

text \<open>What every successful step of a loop guarantees holds for all its elements.\<close>

lemma traverse_all2:
  assumes "traverse f xs s = (Ok ys, t)" and "\<And>x y u v. f x u = (Ok y, v) \<Longrightarrow> P x y"
  shows "list_all2 P xs ys"
  using assms(1)
proof (induction xs arbitrary: ys s t)
  case Nil
  then show ?case by (simp add: prog_iffs)
next
  case (Cons x xs)
  then obtain y zs u v where "f x s = (Ok y, u)" "traverse f xs u = (Ok zs, v)" "ys = y # zs"
    by (auto simp: prog_iffs)
  with Cons.IH assms(2) show ?case by auto
qed

text \<open>The same with the states around each step, when the state only grows.\<close>

lemma traverse_between:
  assumes "traverse f xs s = (Ok ys, t)" and "\<And>x y u v. f x u = (Ok y, v) \<Longrightarrow> le u v"
    and refl: "\<And>u. le u u" and trans: "\<And>u v w. le u v \<Longrightarrow> le v w \<Longrightarrow> le u w"
  shows "list_all2 (\<lambda>x y. \<exists>u v. f x u = (Ok y, v) \<and> le s u \<and> le v t) xs ys \<and> le s t"
  using assms(1)
proof (induction xs arbitrary: ys s)
  case Nil
  then show ?case by (simp add: prog_iffs refl)
next
  case (Cons x xs)
  then obtain y zs u where one: "f x s = (Ok y, u)" and rest: "traverse f xs u = (Ok zs, t)" and ys: "ys = y # zs"
    by (auto simp: prog_iffs)
  note su = assms(2) [OF one] and ih = Cons.IH [OF rest]
  have "list_all2 (\<lambda>x y. \<exists>u v. f x u = (Ok y, v) \<and> le s u \<and> le v t) xs zs"
    using ih by (auto elim!: list_all2_mono intro: trans [OF su])
  then show ?case using one su ih by (auto simp: ys intro: refl trans)
qed

section \<open>Programs that only read\<close>

text \<open>A program is read-only when it leaves the storage as it found it, whatever it returns.\<close>

definition readonly :: "('s, 'e, 'a) prog \<Rightarrow> bool" where
  "readonly m \<longleftrightarrow> (\<forall>s. snd (m s) = s)"

lemma readonlyD: "readonly m \<Longrightarrow> m s = (r, s') \<Longrightarrow> s' = s"
  by (auto simp: readonly_def dest: spec [of _ s])

lemma readonly_basic [simp, intro]:
  "readonly (ret x)" "readonly (throw e)" "readonly (lift r)" "readonly (reads g)"
  by (auto simp: readonly_def prog_defs)

lemma readonly_bnd [intro]:
  assumes "readonly m" and "\<And>x. readonly (f x)"
  shows "readonly (bnd m f)"
  using assms by (simp add: readonly_def bnd_def split_beta split: outcome.splits)

lemma readonly_err_into [intro]: "readonly m \<Longrightarrow> readonly (err_into f m)"
  by (simp add: readonly_def err_into_def split_beta)

text \<open>A failing program whose steps only read up to the failure leaves the storage untouched.\<close>

lemma bnd_readonly_fail:
  assumes "readonly m" and "bnd m f s = (r, t)" and "\<not> is_ok r"
    and "\<And>x. f x s = (r, t) \<Longrightarrow> t = s"
  shows "t = s"
  using assms readonlyD [OF assms(1), of s]
  by (auto simp: bnd_def split: prod.splits outcome.splits)

lemma distinct_set_singleton:
  assumes "distinct xs" and "set xs = {x}"
  shows "xs = [x]"
proof (cases xs)
  case (Cons y ys)
  with assms show ?thesis by (cases ys) auto
qed (use assms in simp)

lemma in_Pair_image: "k \<in> Pair c ` A \<longleftrightarrow> fst k = c \<and> snd k \<in> A"
  by (cases k) auto

section \<open>Storage maps\<close>

text \<open>
  What the contracts rely on of a \<^verbatim>\<open>cw_storage_plus::Map\<close> (\<^verbatim>\<open>may_load\<close>, \<^verbatim>\<open>save\<close>, \<^verbatim>\<open>remove\<close>), and what
  follows for the loops that save or remove a list of keys.
\<close>

locale store_save =
  fixes look :: "'s \<Rightarrow> 'k \<Rightarrow> 'v option"
    and save :: "'k \<Rightarrow> 'v \<Rightarrow> 's \<Rightarrow> 's"
  assumes look_save: "look (save k v s) k' = (if k' = k then Some v else look s k')"
begin

lemma look_save_same: "look (save k v s) k = Some v"
  by (simp add: look_save)

lemma look_fold_save:
  "look (fold (\<lambda>(k, v). save k v) kvs s) k =
     (case map_of (rev kvs) k of None \<Rightarrow> look s k | Some v \<Rightarrow> Some v)"
  by (induction kvs arbitrary: s) (auto simp: look_save map_add_def split: option.splits)

lemma dom_save: "dom (look (save k v s)) = insert k (dom (look s))"
  by (auto simp: look_save dom_def)

end

locale store_map = store_save look save
  for look :: "'s \<Rightarrow> 'k \<Rightarrow> 'v option" and save :: "'k \<Rightarrow> 'v \<Rightarrow> 's \<Rightarrow> 's" +
  fixes remove :: "'k \<Rightarrow> 's \<Rightarrow> 's"
  assumes look_remove: "look (remove k s) k' = (if k' = k then None else look s k')"
begin

lemma look_remove_same: "look (remove k s) k = None"
  by (simp add: look_remove)

lemma look_fold_remove: "look (fold remove ks s) k = (if k \<in> set ks then None else look s k)"
  by (induction ks arbitrary: s) (auto simp: look_remove)

lemma look_remove_save: "look (remove k (save k v s)) = (look s)(k := None)"
  by (auto simp: look_remove look_save fun_eq_iff)

lemma dom_remove: "dom (look (remove k s)) = dom (look s) - {k}"
  by (auto simp: look_remove dom_def)

end

section \<open>Transition systems\<close>

inductive reach :: "('s \<Rightarrow> bool) \<Rightarrow> ('s \<Rightarrow> 's \<Rightarrow> bool) \<Rightarrow> 's \<Rightarrow> bool"
  for init :: "'s \<Rightarrow> bool" and step :: "'s \<Rightarrow> 's \<Rightarrow> bool" where
  reach_init: "init s \<Longrightarrow> reach init step s"
| reach_step: "reach init step s \<Longrightarrow> step s t \<Longrightarrow> reach init step t"

text \<open>An inductive invariant holds in every reachable state.\<close>

locale inductive_invariant =
  fixes init :: "'s \<Rightarrow> bool" and step :: "'s \<Rightarrow> 's \<Rightarrow> bool" and inv :: "'s \<Rightarrow> bool"
  assumes inv_init: "init s \<Longrightarrow> inv s"
    and inv_step: "inv s \<Longrightarrow> step s t \<Longrightarrow> inv t"
begin

lemma inv_reach: "reach init step s \<Longrightarrow> inv s"
  by (induction rule: reach.induct) (auto intro: inv_init inv_step)

lemma inv_steps: "step\<^sup>*\<^sup>* s t \<Longrightarrow> inv s \<Longrightarrow> inv t"
  by (induction rule: rtranclp_induct) (auto intro: inv_step)

end

text \<open>Labelled steps, and the runs they make.\<close>

inductive run :: "('s \<Rightarrow> 'e \<Rightarrow> 's \<Rightarrow> bool) \<Rightarrow> 's \<Rightarrow> 'e list \<Rightarrow> 's \<Rightarrow> bool"
  for tr :: "'s \<Rightarrow> 'e \<Rightarrow> 's \<Rightarrow> bool" where
  run_nil: "run tr s [] s"
| run_cons: "tr s e t \<Longrightarrow> run tr t es u \<Longrightarrow> run tr s (e # es) u"

inductive_simps run_nil_iff: "run tr s [] u"
inductive_simps run_cons_iff: "run tr s (e # es) u"

text \<open>
  A budget: events that spend need a credit, events that grant leave at most one credit, and no
  other event raises the credit. Then a run spends at most what it was granted.
\<close>

locale spending_budget =
  fixes tr :: "'s \<Rightarrow> 'e \<Rightarrow> 's \<Rightarrow> bool"
    and credit :: "'s \<Rightarrow> nat" and spends :: "'e \<Rightarrow> bool" and grants :: "'e \<Rightarrow> bool"
  assumes spend_step: "tr s e t \<Longrightarrow> spends e \<Longrightarrow> Suc (credit t) \<le> credit s"
    and grant_step: "tr s e t \<Longrightarrow> grants e \<Longrightarrow> credit t \<le> Suc 0"
    and other_step: "tr s e t \<Longrightarrow> \<not> spends e \<Longrightarrow> \<not> grants e \<Longrightarrow> credit t \<le> credit s"
    and grants_not_spends: "grants e \<Longrightarrow> \<not> spends e"
begin

lemma spent_within_budget:
  "run tr s es t \<Longrightarrow>
   length (filter spends es) + credit t \<le> length (filter grants es) + credit s"
proof (induction rule: run.induct)
  case (run_nil s)
  then show ?case by simp
next
  case (run_cons s e t es u)
  then show ?case
    using spend_step [of s e t] grant_step [of s e t] other_step [of s e t] grants_not_spends [of e]
    by (cases "spends e"; cases "grants e") auto
qed

end

section \<open>Strings\<close>

text \<open>
  Strings are the bytes of their UTF-8 encoding; \<^verbatim>\<open>str::strip_prefix\<close> compares bytes.
\<close>

fun strip_prefix :: "string \<Rightarrow> string \<Rightarrow> string option" where
  "strip_prefix [] s = Some s"
| "strip_prefix (p # ps) [] = None"
| "strip_prefix (p # ps) (c # cs) = (if p = c then strip_prefix ps cs else None)"

lemma strip_prefix_iff: "strip_prefix p s = Some r \<longleftrightarrow> s = p @ r"
  by (induction p s rule: strip_prefix.induct) auto

lemma strip_prefix_append [simp]: "strip_prefix p (p @ r) = Some r"
  by (simp add: strip_prefix_iff)

text \<open>Splitting at a separator that the left part does not hold is unambiguous.\<close>

lemma split_at_sep_unique:
  assumes "a @ c # r = a' @ c # r'" and "c \<notin> set a" and "c \<notin> set a'"
  shows "a = a' \<and> r = r'"
  using assms by (induction a arbitrary: a') (auto simp: Cons_eq_append_conv append_eq_Cons_conv)

lemma split_at_last_sep_unique:
  assumes "a @ c # r = a' @ c # r'" and "c \<notin> set r" and "c \<notin> set r'"
  shows "r = r'"
proof -
  have "rev (a @ c # r) = rev (a' @ c # r')" using assms(1) by simp
  then have "rev r @ c # rev a = rev r' @ c # rev a'" by simp
  then have "rev r = rev r' \<and> rev a = rev a'" by (rule split_at_sep_unique) (use assms in auto)
  then show ?thesis by simp
qed

section \<open>Decimal numbers\<close>

text \<open>\<^verbatim>\<open>u64::to_string\<close>: the decimal digits, most significant first.\<close>

definition digit_char :: "nat \<Rightarrow> char" where
  "digit_char d = char_of (48 + d)"

fun show_nat :: "nat \<Rightarrow> string" where
  "show_nat n = (if n < 10 then [digit_char n] else show_nat (n div 10) @ [digit_char (n mod 10)])"

declare show_nat.simps [simp del]

fun read_digits :: "nat \<Rightarrow> string \<Rightarrow> nat" where
  "read_digits acc [] = acc"
| "read_digits acc (c # cs) = read_digits (10 * acc + (of_char c - 48)) cs"

lemma read_digits_append: "read_digits acc (xs @ ys) = read_digits (read_digits acc xs) ys"
  by (induction acc xs rule: read_digits.induct) auto

lemma of_char_digit: "d < 10 \<Longrightarrow> of_char (digit_char d) = 48 + d"
  by (simp add: digit_char_def)

lemma read_show_nat: "read_digits 0 (show_nat n) = n"
proof (induction n rule: show_nat.induct)
  case (1 n)
  then show ?case
    by (subst show_nat.simps) (auto simp: read_digits_append of_char_digit)
qed

lemma show_nat_inj [simp]: "show_nat m = show_nat n \<longleftrightarrow> m = n"
  by (metis read_show_nat)

lemma show_nat_digits: "c \<in> set (show_nat n) \<Longrightarrow> 48 \<le> (of_char c :: nat) \<and> (of_char c :: nat) < 58"
proof (induction n rule: show_nat.induct)
  case (1 n)
  then show ?case
    by (subst (asm) (2) show_nat.simps) (auto simp: of_char_digit split: if_splits)
qed

end
