(* ===== verification/Cosmwasm.thy ===== *)
theory Cosmwasm
  imports Prelude "HOL-Library.Word"
begin

text \<open>
  The data the contracts exchange with the chain: the types of \<^verbatim>\<open>cosmwasm_std\<close>, \<^verbatim>\<open>cw721\<close>, \<^verbatim>\<open>cw721_base\<close>
  and \<^verbatim>\<open>cw_utils\<close> that the sources name, with the constructors and fields the sources use, and
  the constructors of messages and responses that the sources call. These crates are not part of
  the repository: their behaviour (address validation, queries, JSON encoding) is not defined here
  but is an argument of the models. The fields no source reads or writes are left out: the events
  of a response, the gas limit of a submessage (always absent), and the coins a caller attaches.
\<close>

type_synonym u64 = "64 word"
type_synonym u32 = "32 word"

text \<open>\<^verbatim>\<open>Binary\<close> and \<^verbatim>\<open>String\<close> are byte sequences.\<close>

type_synonym binary = string

datatype addr = Addr (addr_str: string)

section \<open>Errors of the standard library of contracts\<close>

text \<open>
  \<^verbatim>\<open>cosmwasm_std::StdError\<close>: the constructors the sources or storage accesses raise; the others are
  collected in \<open>OtherStdErr\<close>. \<open>NotFound\<close> carries a name of the type that was looked up.
\<close>

datatype StdError =
    GenericErr string
  | NotFound string
  | ParseErr string string
  | SerializeErr string string
  | OtherStdErr string

datatype ParseReplyError = SubMsgFailure string | ReplyParseFailure string | BrokenUtf8 string

section \<open>Messages\<close>

datatype WasmMsg =
    WasmExecute (wm_contract_addr: string) (wm_msg: binary)
  | WasmInstantiate (wm_admin: "string option") (wm_code_id: u64) (wm_init: binary)
      (wm_label: string)

record IbcTimeoutBlock =
  revision :: u64
  height :: u64

record IbcTimeout =
  timeout_block :: "IbcTimeoutBlock option"
  timeout_timestamp :: "u64 option"

text \<open>\<^verbatim>\<open>IbcTimeout::with_timestamp\<close>; a timestamp is a number of nanoseconds.\<close>

definition with_timestamp :: "u64 \<Rightarrow> IbcTimeout" where
  "with_timestamp t = \<lparr>timeout_block = None, timeout_timestamp = Some t\<rparr>"

datatype IbcMsg =
    SendPacket (sp_channel_id: string) (sp_data: binary) (sp_timeout: IbcTimeout)
  | CloseChannel string

datatype CosmosMsg = Wasm WasmMsg | Ibc IbcMsg

datatype ReplyOn = ReplyAlways | ReplyOnError | ReplyOnSuccess | ReplyNever

record SubMsg =
  sub_id :: u64
  sub_msg :: CosmosMsg
  sub_reply_on :: ReplyOn

text \<open>\<^verbatim>\<open>SubMsg::new\<close>, \<^verbatim>\<open>reply_on_success\<close> and \<^verbatim>\<open>reply_always\<close>.\<close>

definition submsg_new :: "CosmosMsg \<Rightarrow> SubMsg" where
  "submsg_new m = \<lparr>sub_id = 0, sub_msg = m, sub_reply_on = ReplyNever\<rparr>"

definition reply_on_success :: "WasmMsg \<Rightarrow> u64 \<Rightarrow> SubMsg" where
  "reply_on_success m i = \<lparr>sub_id = i, sub_msg = Wasm m, sub_reply_on = ReplyOnSuccess\<rparr>"

definition reply_always :: "WasmMsg \<Rightarrow> u64 \<Rightarrow> SubMsg" where
  "reply_always m i = \<lparr>sub_id = i, sub_msg = Wasm m, sub_reply_on = ReplyAlways\<rparr>"

lemmas submsg_defs = submsg_new_def reply_on_success_def reply_always_def

section \<open>Responses\<close>

type_synonym attributes = "(string \<times> string) list"

record Response =
  messages :: "SubMsg list"
  attributes :: attributes
  data :: "binary option"

record IbcBasicResponse =
  basic_messages :: "SubMsg list"
  basic_attributes :: attributes

record IbcReceiveResponse =
  acknowledgement :: binary
  recv_messages :: "SubMsg list"
  recv_attributes :: attributes

definition response :: "SubMsg list \<Rightarrow> attributes \<Rightarrow> Response" where
  "response ms as = \<lparr>messages = ms, attributes = as, data = None\<rparr>"

definition basic_response :: "SubMsg list \<Rightarrow> attributes \<Rightarrow> IbcBasicResponse" where
  "basic_response ms as = \<lparr>basic_messages = ms, basic_attributes = as\<rparr>"

text \<open>\<^verbatim>\<open>IbcReceiveResponse::default()\<close> carries an empty acknowledgement until one is set.\<close>

definition receive_response :: "SubMsg list \<Rightarrow> attributes \<Rightarrow> IbcReceiveResponse" where
  "receive_response ms as = \<lparr>acknowledgement = [], recv_messages = ms, recv_attributes = as\<rparr>"

definition set_ack :: "binary \<Rightarrow> IbcReceiveResponse \<Rightarrow> IbcReceiveResponse" where
  "set_ack a r = r\<lparr>acknowledgement := a\<rparr>"

definition set_data :: "binary \<Rightarrow> Response \<Rightarrow> Response" where
  "set_data b r = r\<lparr>data := Some b\<rparr>"

lemma response_simps [simp]:
  "messages (response ms as) = ms" "attributes (response ms as) = as" "data (response ms as) = None"
  "basic_messages (basic_response ms as) = ms" "basic_attributes (basic_response ms as) = as"
  "acknowledgement (receive_response ms as) = []" "recv_messages (receive_response ms as) = ms"
  "recv_attributes (receive_response ms as) = as"
  "acknowledgement (set_ack a r) = a" "recv_messages (set_ack a r) = recv_messages r"
  "recv_attributes (set_ack a r) = recv_attributes r"
  "data (set_data b p) = Some b" "messages (set_data b p) = messages p"
  "attributes (set_data b p) = attributes p"
  by (simp_all add: response_def basic_response_def receive_response_def set_ack_def set_data_def)

section \<open>Calls\<close>

record MessageInfo =
  info_sender :: addr

record Env =
  env_contract :: addr
  env_time :: u64
  env_height :: u64
  env_tx_index :: "u32 option"

datatype IbcOrder = Unordered | Ordered

record IbcEndpoint =
  port_id :: string
  channel_id :: string

record IbcChannel =
  endpoint :: IbcEndpoint
  counterparty_endpoint :: IbcEndpoint
  order :: IbcOrder
  version :: string
  connection_id :: string

datatype IbcChannelOpenMsg = OpenInit IbcChannel | OpenTry IbcChannel string

datatype IbcChannelConnectMsg = OpenAck IbcChannel string | OpenConfirm IbcChannel

datatype IbcChannelCloseMsg = CloseInit IbcChannel | CloseConfirm IbcChannel

primrec open_channel :: "IbcChannelOpenMsg \<Rightarrow> IbcChannel" where
  "open_channel (OpenInit c) = c"
| "open_channel (OpenTry c v) = c"

primrec open_counterparty_version :: "IbcChannelOpenMsg \<Rightarrow> string option" where
  "open_counterparty_version (OpenInit c) = None"
| "open_counterparty_version (OpenTry c v) = Some v"

primrec connect_channel :: "IbcChannelConnectMsg \<Rightarrow> IbcChannel" where
  "connect_channel (OpenAck c v) = c"
| "connect_channel (OpenConfirm c) = c"

primrec connect_counterparty_version :: "IbcChannelConnectMsg \<Rightarrow> string option" where
  "connect_counterparty_version (OpenAck c v) = Some v"
| "connect_counterparty_version (OpenConfirm c) = None"

record IbcPacket =
  pkt_data :: binary
  src :: IbcEndpoint
  dest :: IbcEndpoint
  sequence :: u64
  pkt_timeout :: IbcTimeout

record IbcPacketAckMsg =
  ack_data :: binary
  original_packet :: IbcPacket

datatype SubMsgResult = SubMsgOk "binary option" | SubMsgErr string

record Reply =
  reply_id :: u64
  reply_result :: SubMsgResult

section \<open>Storage cells\<close>

text \<open>
  \<^verbatim>\<open>Item::load\<close> and \<^verbatim>\<open>Map::load\<close>: the stored value, or \<^verbatim>\<open>NotFound\<close>. Values are stored as saved,
  so a load never meets bytes of another type.
\<close>

definition load :: "string \<Rightarrow> ('s \<Rightarrow> 'v option) \<Rightarrow> ('s, StdError, 'v) prog" where
  "load ty cell s = (case cell s of None \<Rightarrow> (Err (NotFound ty), s) | Some v \<Rightarrow> (Ok v, s))"

lemma load_simps [prog_simps]:
  "cell s = Some v \<Longrightarrow> load ty cell s = (Ok v, s)"
  "cell s = None \<Longrightarrow> load ty cell s = (Err (NotFound ty), s)"
  by (simp_all add: load_def)

lemma load_Ok_iff [prog_iffs]: "load ty cell s = (Ok v, s') \<longleftrightarrow> cell s = Some v \<and> s' = s"
  by (auto simp: load_def split: option.splits)

lemma readonly_load [simp, intro]: "readonly (load ty cell)"
  by (auto simp: readonly_def load_def split: option.splits)

section \<open>The cw721 messages\<close>

record Cw721ReceiveMsg =
  crm_sender :: string
  crm_token_id :: string
  crm_msg :: binary

text \<open>The \<^verbatim>\<open>cw721::Cw721ExecuteMsg\<close> and \<^verbatim>\<open>cw721_base::ExecuteMsg\<close> variants that the sources build or match.\<close>

datatype Cw721ExecuteMsg =
    TransferNft (tn_recipient: string) (tn_token_id: string)
  | SendNft string string binary
  | Burn string
  | Mint (mm_token_id: string) (mm_owner: string) (mm_token_uri: "string option")

record Cw721InstantiateMsg =
  ci_name :: string
  ci_symbol :: string
  ci_minter :: string

record OwnerOfResponse =
  oor_owner :: string
  oor_approvals :: "string list"

end
