(* ===== verification/Pause_Once.thy ===== *)
theory Pause_Once
  imports Cosmwasm
begin

text \<open>
  The package \<^verbatim>\<open>packages/cw-pause-once\<close>: a \<^verbatim>\<open>PauseOrchestrator\<close> keeps the address that may pause and
  whether the contract is paused. Pausing burns the right to pause; only naming a new pauser
  unpauses. Proved: each operation on every branch, that a paused module has no pauser, that
  nobody pauses twice, and that in any history the pauses are at most the appointments.
\<close>

section \<open>State and operations\<close>

datatype PauseError = PauseStd StdError | Paused | PauseUnauthorized addr

text \<open>The two storage items; an item that was never saved is \<open>None\<close>.\<close>

record PauseOrchestrator =
  pauser :: "addr option option"
  paused :: "bool option"

definition po_empty :: PauseOrchestrator where
  "po_empty = \<lparr>pauser = None, paused = None\<rparr>"

definition set_pauser ::
  "(string \<Rightarrow> (StdError, addr) outcome) \<Rightarrow> string option \<Rightarrow> (PauseOrchestrator, StdError, unit) prog" where
  "set_pauser av p =
     bnd (lift (map_transpose av p)) (\<lambda>v.
     bnd (writes (pauser_update (\<lambda>_. Some v))) (\<lambda>_.
     writes (paused_update (\<lambda>_. Some False))))"

definition error_if_paused :: "(PauseOrchestrator, PauseError, unit) prog" where
  "error_if_paused =
     bnd (err_into PauseStd (load ''bool'' paused)) (\<lambda>b.
     if b then throw Paused else ret ())"

definition pause :: "addr \<Rightarrow> (PauseOrchestrator, PauseError, unit) prog" where
  "pause sender =
     bnd error_if_paused (\<lambda>_.
     bnd (err_into PauseStd (load ''Option<Addr>'' pauser)) (\<lambda>p.
     if map_or True (\<lambda>q. sender \<noteq> q) p then throw (PauseUnauthorized sender)
     else
       bnd (writes (pauser_update (\<lambda>_. Some None))) (\<lambda>_.
       bnd (writes (paused_update (\<lambda>_. Some True))) (\<lambda>_.
       ret ()))))"

definition query_pauser :: "(PauseOrchestrator, StdError, addr option) prog" where
  "query_pauser = load ''Option<Addr>'' pauser"

definition query_paused :: "(PauseOrchestrator, StdError, bool) prog" where
  "query_paused = load ''bool'' paused"

text \<open>The \<^verbatim>\<open>#[error(...)]\<close> messages; the display of a \<^verbatim>\<open>StdError\<close> is an argument.\<close>

primrec pause_error_to_string :: "(StdError \<Rightarrow> string) \<Rightarrow> PauseError \<Rightarrow> string" where
  "pause_error_to_string std (PauseStd e) = std e"
| "pause_error_to_string std Paused = ''contract is paused pending governance intervention''"
| "pause_error_to_string std (PauseUnauthorized a) = ''unauthorized pauser ('' @ addr_str a @ '')''"

section \<open>Behaviour\<close>

text \<open>After \<^verbatim>\<open>set_pauser\<close> both items are present.\<close>

definition po_ready :: "PauseOrchestrator \<Rightarrow> bool" where
  "po_ready s \<longleftrightarrow> pauser s \<noteq> None \<and> paused s \<noteq> None"

lemma po_ready_written [simp]: "po_ready (s\<lparr>pauser := Some v, paused := Some b\<rparr>)"
  by (simp add: po_ready_def)

lemmas po_defs = set_pauser_def error_if_paused_def pause_def query_pauser_def query_paused_def

lemma set_pauser_Ok_iff:
  "set_pauser av p s = (Ok u, t) \<longleftrightarrow>
     (\<exists>v. map_transpose av p = Ok v \<and> t = s\<lparr>pauser := Some v, paused := Some False\<rparr>)"
  by (auto simp: set_pauser_def prog_iffs)

lemma set_pauser_Err: "map_transpose av p = Err e \<Longrightarrow> set_pauser av p s = (Err e, s)"
  by (simp add: set_pauser_def prog_simps)

lemma set_pauser_Ok: "map_transpose av p = Ok v \<Longrightarrow>
   set_pauser av p s = (Ok (), s\<lparr>pauser := Some v, paused := Some False\<rparr>)"
  by (simp add: set_pauser_def prog_simps)

lemma error_if_paused_run [prog_simps]:
  "paused s = Some True \<Longrightarrow> error_if_paused s = (Err Paused, s)"
  "paused s = Some False \<Longrightarrow> error_if_paused s = (Ok (), s)"
  "paused s = None \<Longrightarrow> error_if_paused s = (Err (PauseStd (NotFound ''bool'')), s)"
  by (simp_all add: error_if_paused_def prog_defs load_def)

lemma error_if_paused_Ok_iff [prog_iffs]:
  "error_if_paused s = (Ok u, t) \<longleftrightarrow> paused s = Some False \<and> t = s"
  by (auto simp: error_if_paused_def prog_iffs split: if_splits)

lemma readonly_error_if_paused [simp, intro]: "readonly error_if_paused"
  by (auto simp: error_if_paused_def intro!: readonly_bnd)

lemma pause_Ok_iff:
  "pause a s = (Ok u, t) \<longleftrightarrow>
     paused s = Some False \<and> pauser s = Some (Some a) \<and>
     t = s\<lparr>pauser := Some None, paused := Some True\<rparr>"
  by (auto simp: pause_def prog_iffs map_or_option split: if_splits option.splits)

lemma pause_run:
  assumes "po_ready s"
  shows "pause a s =
    (if paused s = Some True then (Err Paused, s)
     else if pauser s = Some (Some a) then (Ok (), s\<lparr>pauser := Some None, paused := Some True\<rparr>)
     else (Err (PauseUnauthorized a), s))"
  using assms
  by (cases "paused s"; cases "pauser s")
    (auto simp: po_ready_def pause_def prog_simps prog_defs load_def map_or_option error_if_paused_run
      split: option.splits if_splits)

section \<open>Histories\<close>

datatype po_event = EvPause addr | EvSetPauser "string option"

inductive po_step ::
  "(string \<Rightarrow> (StdError, addr) outcome) \<Rightarrow> PauseOrchestrator \<Rightarrow> po_event \<Rightarrow> PauseOrchestrator \<Rightarrow> bool"
  for av where
  po_step_pause: "pause a s = (Ok (), t) \<Longrightarrow> po_step av s (EvPause a) t"
| po_step_set: "set_pauser av p s = (Ok (), t) \<Longrightarrow> po_step av s (EvSetPauser p) t"

inductive_simps po_step_pause_iff: "po_step av s (EvPause a) t"
inductive_simps po_step_set_iff: "po_step av s (EvSetPauser p) t"

definition is_pause_event :: "po_event \<Rightarrow> bool" where
  "is_pause_event e \<longleftrightarrow> (case e of EvPause _ \<Rightarrow> True | _ \<Rightarrow> False)"

definition is_set_event :: "po_event \<Rightarrow> bool" where
  "is_set_event e \<longleftrightarrow> (case e of EvSetPauser _ \<Rightarrow> True | _ \<Rightarrow> False)"

text \<open>The right to pause that a state holds.\<close>

definition pause_rights :: "PauseOrchestrator \<Rightarrow> nat" where
  "pause_rights s =
     (if paused s = Some False \<and> pauser s \<noteq> None \<and> pauser s \<noteq> Some None then 1 else 0)"

interpretation po_budget: spending_budget "po_step av" pause_rights is_pause_event is_set_event
proof unfold_locales
  fix s e t
  show "Suc (pause_rights t) \<le> pause_rights s" if "po_step av s e t" "is_pause_event e"
    using that by (auto elim!: po_step.cases simp: is_pause_event_def pause_Ok_iff pause_rights_def)
  show "pause_rights t \<le> Suc 0" if "po_step av s e t" "is_set_event e"
    by (simp add: pause_rights_def)
  show "pause_rights t \<le> pause_rights s"
    if "po_step av s e t" "\<not> is_pause_event e" "\<not> is_set_event e"
    using that by (auto elim!: po_step.cases simp: is_pause_event_def is_set_event_def)
  show "\<not> is_pause_event e" if "is_set_event e"
    using that by (cases e) (auto simp: is_pause_event_def is_set_event_def)
qed

text \<open>A paused module has no pauser: an invariant of every history.\<close>

definition po_inv :: "PauseOrchestrator \<Rightarrow> bool" where
  "po_inv s \<longleftrightarrow> po_ready s \<and> (paused s = Some True \<longrightarrow> pauser s = Some None)"

definition po_init :: "(string \<Rightarrow> (StdError, addr) outcome) \<Rightarrow> PauseOrchestrator \<Rightarrow> bool" where
  "po_init av s \<longleftrightarrow> (\<exists>p. set_pauser av p po_empty = (Ok (), s))"

interpretation po_safe: inductive_invariant "po_init av" "\<lambda>s t. \<exists>e. po_step av s e t" po_inv
  by unfold_locales
    (auto simp: po_init_def po_inv_def set_pauser_Ok_iff pause_Ok_iff elim!: po_step.cases)

section \<open>Properties\<close>

text \<open>In every history of a pause orchestrator the successful pauses are at most the
  appointments made in it plus the one right the starting state may hold: a pauser pauses a
  single time, and only a new appointment gives the right back.\<close>

theorem pause_at_most_appointments:
  assumes "run (po_step av) s es t"
  shows "length (filter is_pause_event es) \<le> length (filter is_set_event es) + pause_rights s"
  using po_budget.spent_within_budget [OF assms] by simp

theorem pause_at_most_appointments_witness:
  "length (filter is_pause_event [EvPause (Addr ''ekez''), EvSetPauser (Some ''zeke''), EvPause (Addr ''zeke'')])
     \<le> length (filter is_set_event [EvPause (Addr ''ekez''), EvSetPauser (Some ''zeke''), EvPause (Addr ''zeke'')])
       + pause_rights \<lparr>pauser = Some (Some (Addr ''ekez'')), paused = Some False\<rparr>"
proof (rule pause_at_most_appointments)
  show "run (po_step (\<lambda>h. Ok (Addr h))) \<lparr>pauser = Some (Some (Addr ''ekez'')), paused = Some False\<rparr>
      [EvPause (Addr ''ekez''), EvSetPauser (Some ''zeke''), EvPause (Addr ''zeke'')]
      \<lparr>pauser = Some None, paused = Some True\<rparr>"
    by (simp add: run_nil_iff run_cons_iff po_step_pause_iff po_step_set_iff pause_Ok_iff set_pauser_Ok_iff)
qed

text \<open>C34: An initialised orchestrator is paused by its pauser and by nobody else; once paused, checks fail,
  every further pause fails whoever asks, the queries report the pause and no pauser, and none of
  the failing calls writes anything; naming a pauser unpauses.\<close>

theorem pause_lifecycle:
  assumes "po_ready s" and "map_transpose av p = Ok v"
  shows "(is_ok (fst (pause a s)) \<longleftrightarrow> paused s = Some False \<and> pauser s = Some (Some a)) \<and>
    (\<not> is_ok (fst (pause a s)) \<longrightarrow> snd (pause a s) = s) \<and>
    (is_ok (fst (pause a s)) \<longrightarrow>
       (let t = snd (pause a s) in
        error_if_paused t = (Err Paused, t) \<and> pause b t = (Err Paused, t) \<and>
        query_paused t = (Ok True, t) \<and> query_pauser t = (Ok None, t) \<and>
        set_pauser av p t = (Ok (), \<lparr>pauser = Some v, paused = Some False\<rparr>)))"
proof (intro conjI impI)
  show "is_ok (fst (pause a s)) \<longleftrightarrow> paused s = Some False \<and> pauser s = Some (Some a)"
    using assms(1) by (auto simp: pause_run [OF assms(1)] po_ready_def)
  show "snd (pause a s) = s" if "\<not> is_ok (fst (pause a s))"
    using that by (auto simp: pause_run [OF assms(1)] split: if_splits)
  assume "is_ok (fst (pause a s))"
  then have t: "snd (pause a s) = s\<lparr>pauser := Some None, paused := Some True\<rparr>" (is "_ = ?t")
    by (auto simp: pause_run [OF assms(1)] split: if_splits)
  have "po_ready ?t" by simp
  then show "let t = snd (pause a s) in
        error_if_paused t = (Err Paused, t) \<and> pause b t = (Err Paused, t) \<and>
        query_paused t = (Ok True, t) \<and> query_pauser t = (Ok None, t) \<and>
        set_pauser av p t = (Ok (), \<lparr>pauser = Some v, paused = Some False\<rparr>)"
    unfolding t Let_def
    by (simp add: error_if_paused_run pause_run query_paused_def query_pauser_def load_simps
        set_pauser_Ok [OF assms(2)])
qed

theorem pause_lifecycle_witness:
  "is_ok (fst (pause (Addr ''ekez'') \<lparr>pauser = Some (Some (Addr ''ekez'')), paused = Some False\<rparr>))"
  using pause_lifecycle
    [of "\<lparr>pauser = Some (Some (Addr ''ekez'')), paused = Some False\<rparr>" "\<lambda>s. Ok (Addr s)" None None "Addr ''ekez''"]
  by (simp add: po_ready_def)

end
