(* ===== verification/Contract_Info.thy ===== *)
theory Contract_Info
  imports Cosmwasm
begin

text \<open>
  The package \<^verbatim>\<open>packages/cw-cii\<close>: the information needed to instantiate a contract, and the message
  it becomes.
\<close>

datatype Admin = AdminAddress string | AdminInstantiator

record ContractInstantiateInfo =
  cii_code_id :: u64
  cii_msg :: binary
  cii_admin :: "Admin option"
  cii_label :: string

definition admin_addr :: "addr \<Rightarrow> Admin \<Rightarrow> string" where
  "admin_addr instantiator a =
     (case a of AdminAddress s \<Rightarrow> s | AdminInstantiator \<Rightarrow> addr_str instantiator)"

definition cii_into_wasm_msg :: "ContractInstantiateInfo \<Rightarrow> addr \<Rightarrow> WasmMsg" where
  "cii_into_wasm_msg i instantiator =
     WasmInstantiate (map_option (admin_addr instantiator) (cii_admin i)) (cii_code_id i)
       (cii_msg i) (cii_label i)"

end
