(* ===== verification/Bridge_Types.thy ===== *)
theory Bridge_Types
  imports Pause_Once Contract_Info
begin

text \<open>
  The data of the bridge contract \<^verbatim>\<open>contracts/cw-ics721-bridge\<close>: identifiers, classes, tokens and
  vouchers (\<^verbatim>\<open>token_types.rs\<close>), messages (\<^verbatim>\<open>msg.rs\<close>), the packet (\<^verbatim>\<open>ibc.rs\<close>), errors (\<^verbatim>\<open>error.rs\<close>) and
  storage (\<^verbatim>\<open>state.rs\<close>), and the record \<open>host\<close> that stands for everything the contract calls and
  the repository does not hold. The six storage maps implement the storage-map contracts.
\<close>

section \<open>Identifiers, tokens and vouchers\<close>

datatype TokenId = TokenId (token_id_str: string)

datatype ClassId = ClassId (class_id_str: string)

record Token =
  tok_id :: TokenId
  tok_uri :: "string option"
  tok_data :: "binary option"

record Class =
  cls_id :: ClassId
  cls_uri :: "string option"
  cls_data :: "binary option"

record VoucherRedemption =
  vr_class :: Class
  vr_token_ids :: "TokenId list"

record VoucherCreation =
  vc_class :: Class
  vc_tokens :: "Token list"

section \<open>Messages\<close>

record InstantiateMsg =
  cw721_base_code_id :: u64
  init_proxy :: "ContractInstantiateInfo option"
  init_pauser :: "string option"

datatype CallbackMsg =
    CreateVouchers (cv_receiver: string) (cv_create: VoucherCreation)
  | RedeemVouchers (rv_receiver: string) (rv_redeem: VoucherRedemption)
  | CallbackMint (mint_class_id: ClassId) (mint_receiver: string) (mint_tokens: "Token list")
  | Conjunction (operands: "WasmMsg list")

text \<open>The variant \<open>ReceiveProxyNft\<close> is the one the attribute \<^verbatim>\<open>#[cw721_proxy]\<close> adds to the enum.\<close>

datatype ExecuteMsg =
    ReceiveNft Cw721ReceiveMsg
  | ReceiveProxyNft string Cw721ReceiveMsg
  | ExecutePause
  | Callback CallbackMsg

record IbcOutgoingMsg =
  og_receiver :: string
  og_channel_id :: string
  og_timeout :: IbcTimeout
  og_memo :: "string option"

datatype QueryMsg =
    QueryClassId string
  | QueryNftContract string
  | QueryClassMetadata string
  | QueryTokenMetadata string string
  | QueryOwner string string
  | QueryPauser
  | QueryPaused
  | QueryProxy

text \<open>The \<^verbatim>\<open>#[returns(...)]\<close> types of the queries, which are encoded to JSON.\<close>

datatype QueryResponse =
    RespClassId "ClassId option"
  | RespAddr "addr option"
  | RespClass "Class option"
  | RespToken "Token option"
  | RespOwner OwnerOfResponse
  | RespBool bool

datatype MigrateMsg = WithUpdate (wu_pauser: "string option") (wu_proxy: "string option")

record NonFungibleTokenPacketData =
  class_id :: ClassId
  class_uri :: "string option"
  class_data :: "binary option"
  token_ids :: "TokenId list"
  token_uris :: "string list option"
  token_data :: "binary list option"
  sender :: string
  receiver :: string
  memo :: "string option"

datatype Ics721Ack = AckResult binary | AckError string

text \<open>
  What the bridge reads of a collection's answer about a token: the URI; whatever the collection
  sends as extension is skipped, and the field holds the default.
\<close>

datatype UniversalNftInfoResponse = UniversalNftInfoResponse (nft_token_uri: "string option") (nft_extension: unit)

lemma ex_nft_info [simp]: "(\<exists>i. P i) \<longleftrightarrow> (\<exists>u. P (UniversalNftInfoResponse u ()))"
  by (metis (full_types) UniversalNftInfoResponse.exhaust old.unit.exhaust)

section \<open>Errors\<close>

datatype ContractError =
    Std StdError
  | Pause PauseError
  | Unauthorized
  | OrderedChannel
  | InvalidVersion string string
  | CantCloseChannel
  | UnrecognisedClassId
  | ClassIdAlreadyExists
  | EmptyClassId
  | NoTokens
  | EmptyOptional
  | UnrecognisedReplyId
  | ParseReply ParseReplyError
  | ImbalancedTokenInfo
  | ClassUriClash string "string option" "string option"
  | TokenInfoLenMissmatch

section \<open>The code outside the repository\<close>

text \<open>
  One field per function the contract calls in a crate or on the chain: address validation, smart
  queries, the JSON encoding and decoding of each type, base64, the protobuf parser of instantiate
  replies, and the display of foreign errors. A theorem that relies on one of them says so in its
  hypotheses.
\<close>

record host =
  addr_validate :: "string \<Rightarrow> (StdError, addr) outcome"
  query_nft_info :: "addr \<Rightarrow> string \<Rightarrow> (StdError, UniversalNftInfoResponse) outcome"
  query_contract_info :: "addr \<Rightarrow> (StdError, string \<times> string) outcome"
  query_owner_of :: "addr \<Rightarrow> string \<Rightarrow> (StdError, OwnerOfResponse) outcome"
  to_binary_packet :: "NonFungibleTokenPacketData \<Rightarrow> (StdError, binary) outcome"
  from_binary_packet :: "binary \<Rightarrow> (StdError, NonFungibleTokenPacketData) outcome"
  from_binary_outgoing :: "binary \<Rightarrow> (StdError, IbcOutgoingMsg) outcome"
  to_binary_execute :: "ExecuteMsg \<Rightarrow> (StdError, binary) outcome"
  to_binary_cw721 :: "Cw721ExecuteMsg \<Rightarrow> (StdError, binary) outcome"
  to_binary_cw721_init :: "Cw721InstantiateMsg \<Rightarrow> (StdError, binary) outcome"
  to_binary_query :: "QueryResponse \<Rightarrow> (StdError, binary) outcome"
  to_binary_ack :: "Ics721Ack \<Rightarrow> (StdError, binary) outcome"
  from_binary_ack :: "binary \<Rightarrow> (StdError, Ics721Ack) outcome"
  to_base64 :: "binary \<Rightarrow> string"
  parse_reply_instantiate_data :: "Reply \<Rightarrow> (ParseReplyError, string) outcome"
  std_error_to_string :: "StdError \<Rightarrow> string"
  parse_reply_error_to_string :: "ParseReplyError \<Rightarrow> string"
  escape_debug :: "string \<Rightarrow> string"

text \<open>The derived \<^verbatim>\<open>Debug\<close> output of a string, an optional string and a list of token identifiers.\<close>

definition debug_string :: "host \<Rightarrow> string \<Rightarrow> string" where
  "debug_string h s = [CHR 0x22] @ escape_debug h s @ [CHR 0x22]"

definition debug_opt_string :: "host \<Rightarrow> string option \<Rightarrow> string" where
  "debug_opt_string h v =
     (case v of None \<Rightarrow> ''None'' | Some s \<Rightarrow> ''Some('' @ debug_string h s @ '')'')"

fun join :: "string \<Rightarrow> string list \<Rightarrow> string" where
  "join sep [] = []"
| "join sep [x] = x"
| "join sep (x # xs) = x @ sep @ join sep xs"

definition debug_token_ids :: "host \<Rightarrow> TokenId list \<Rightarrow> string" where
  "debug_token_ids h ids =
     ''['' @ join '', '' (map (\<lambda>t. ''TokenId('' @ debug_string h (token_id_str t) @ '')'') ids) @ '']''"

text \<open>The \<^verbatim>\<open>#[error(...)]\<close> messages of \<^verbatim>\<open>error.rs\<close>.\<close>

primrec contract_error_to_string :: "host \<Rightarrow> ContractError \<Rightarrow> string" where
  "contract_error_to_string h (Std e) = std_error_to_string h e"
| "contract_error_to_string h (Pause e) = pause_error_to_string (std_error_to_string h) e"
| "contract_error_to_string h Unauthorized = ''unauthorized''"
| "contract_error_to_string h OrderedChannel = ''only unordered channels are supported''"
| "contract_error_to_string h (InvalidVersion actual expected) =
     ''invalid IBC channel version - got ('' @ actual @ ''), expected ('' @ expected @ '')''"
| "contract_error_to_string h CantCloseChannel = ''ICS 721 channels may not be closed''"
| "contract_error_to_string h UnrecognisedClassId = ''unrecognised class ID''"
| "contract_error_to_string h ClassIdAlreadyExists = ''class ID already exists''"
| "contract_error_to_string h EmptyClassId = ''empty class ID''"
| "contract_error_to_string h NoTokens = ''must transfer at least one token''"
| "contract_error_to_string h EmptyOptional = ''optional fields may not be empty if provided''"
| "contract_error_to_string h UnrecognisedReplyId = ''unrecognised reply ID''"
| "contract_error_to_string h (ParseReply e) = parse_reply_error_to_string h e"
| "contract_error_to_string h ImbalancedTokenInfo = ''must provide same number of token IDs and URIs''"
| "contract_error_to_string h (ClassUriClash cid expected actual) =
     ''unexpected uri for classID '' @ cid @ '' - got ('' @ debug_opt_string h actual @
     ''), expected ('' @ debug_opt_string h expected @ '')''"
| "contract_error_to_string h TokenInfoLenMissmatch =
     ''tokenIds, tokenUris, and tokenData must have the same length''"

section \<open>Storage\<close>

type_synonym class_token = "ClassId \<times> TokenId"

record Bridge =
  contract_version :: "(string \<times> string) option"
  CW721_CODE_ID :: "u64 option"
  PROXY :: "addr option option"
  PO :: PauseOrchestrator
  CLASS_ID_TO_NFT_CONTRACT :: "ClassId \<rightharpoonup> addr"
  NFT_CONTRACT_TO_CLASS_ID :: "addr \<rightharpoonup> ClassId"
  CLASS_ID_TO_CLASS :: "ClassId \<rightharpoonup> Class"
  OUTGOING_CLASS_TOKEN_TO_CHANNEL :: "class_token \<rightharpoonup> string"
  INCOMING_CLASS_TOKEN_TO_CHANNEL :: "class_token \<rightharpoonup> string"
  TOKEN_METADATA :: "class_token \<rightharpoonup> binary option"

definition empty_bridge :: Bridge where
  "empty_bridge = \<lparr>contract_version = None, CW721_CODE_ID = None, PROXY = None, PO = po_empty,
     CLASS_ID_TO_NFT_CONTRACT = Map.empty, NFT_CONTRACT_TO_CLASS_ID = Map.empty,
     CLASS_ID_TO_CLASS = Map.empty, OUTGOING_CLASS_TOKEN_TO_CHANNEL = Map.empty,
     INCOMING_CLASS_TOKEN_TO_CHANNEL = Map.empty, TOKEN_METADATA = Map.empty\<rparr>"

definition with_po :: "(PauseOrchestrator, 'e, 'a) prog \<Rightarrow> (Bridge, 'e, 'a) prog" where
  "with_po = zoom PO (\<lambda>p. PO_update (\<lambda>_. p))"

definition class_contract_save :: "ClassId \<Rightarrow> addr \<Rightarrow> Bridge \<Rightarrow> Bridge" where
  "class_contract_save k v = CLASS_ID_TO_NFT_CONTRACT_update (\<lambda>m. m(k \<mapsto> v))"

definition contract_class_save :: "addr \<Rightarrow> ClassId \<Rightarrow> Bridge \<Rightarrow> Bridge" where
  "contract_class_save k v = NFT_CONTRACT_TO_CLASS_ID_update (\<lambda>m. m(k \<mapsto> v))"

definition class_save :: "ClassId \<Rightarrow> Class \<Rightarrow> Bridge \<Rightarrow> Bridge" where
  "class_save k v = CLASS_ID_TO_CLASS_update (\<lambda>m. m(k \<mapsto> v))"

definition outgoing_save :: "class_token \<Rightarrow> string \<Rightarrow> Bridge \<Rightarrow> Bridge" where
  "outgoing_save k v = OUTGOING_CLASS_TOKEN_TO_CHANNEL_update (\<lambda>m. m(k \<mapsto> v))"

definition outgoing_remove :: "class_token \<Rightarrow> Bridge \<Rightarrow> Bridge" where
  "outgoing_remove k = OUTGOING_CLASS_TOKEN_TO_CHANNEL_update (\<lambda>m. m(k := None))"

definition incoming_save :: "class_token \<Rightarrow> string \<Rightarrow> Bridge \<Rightarrow> Bridge" where
  "incoming_save k v = INCOMING_CLASS_TOKEN_TO_CHANNEL_update (\<lambda>m. m(k \<mapsto> v))"

definition incoming_remove :: "class_token \<Rightarrow> Bridge \<Rightarrow> Bridge" where
  "incoming_remove k = INCOMING_CLASS_TOKEN_TO_CHANNEL_update (\<lambda>m. m(k := None))"

definition metadata_save :: "class_token \<Rightarrow> binary option \<Rightarrow> Bridge \<Rightarrow> Bridge" where
  "metadata_save k v = TOKEN_METADATA_update (\<lambda>m. m(k \<mapsto> v))"

definition metadata_remove :: "class_token \<Rightarrow> Bridge \<Rightarrow> Bridge" where
  "metadata_remove k = TOKEN_METADATA_update (\<lambda>m. m(k := None))"

lemmas store_defs = class_contract_save_def contract_class_save_def class_save_def
  outgoing_save_def outgoing_remove_def incoming_save_def incoming_remove_def
  metadata_save_def metadata_remove_def

interpretation class_contract: store_save CLASS_ID_TO_NFT_CONTRACT class_contract_save
  by unfold_locales (simp add: store_defs)

interpretation contract_class: store_save NFT_CONTRACT_TO_CLASS_ID contract_class_save
  by unfold_locales (simp add: store_defs)

interpretation classes: store_save CLASS_ID_TO_CLASS class_save
  by unfold_locales (simp add: store_defs)

interpretation outgoing: store_map OUTGOING_CLASS_TOKEN_TO_CHANNEL outgoing_save outgoing_remove
  by unfold_locales (simp_all add: store_defs)

interpretation incoming: store_map INCOMING_CLASS_TOKEN_TO_CHANNEL incoming_save incoming_remove
  by unfold_locales (simp_all add: store_defs)

interpretation metadata: store_map TOKEN_METADATA metadata_save metadata_remove
  by unfold_locales (simp_all add: store_defs)

text \<open>Each write as an update of the record with the changed map.\<close>

lemma store_eqs:
  "class_contract_save c a s = s\<lparr>CLASS_ID_TO_NFT_CONTRACT := (CLASS_ID_TO_NFT_CONTRACT s)(c \<mapsto> a)\<rparr>"
  "contract_class_save a c s = s\<lparr>NFT_CONTRACT_TO_CLASS_ID := (NFT_CONTRACT_TO_CLASS_ID s)(a \<mapsto> c)\<rparr>"
  "class_save c cls s = s\<lparr>CLASS_ID_TO_CLASS := (CLASS_ID_TO_CLASS s)(c \<mapsto> cls)\<rparr>"
  "outgoing_save k ch s = s\<lparr>OUTGOING_CLASS_TOKEN_TO_CHANNEL := (OUTGOING_CLASS_TOKEN_TO_CHANNEL s)(k \<mapsto> ch)\<rparr>"
  "incoming_save k ch s = s\<lparr>INCOMING_CLASS_TOKEN_TO_CHANNEL := (INCOMING_CLASS_TOKEN_TO_CHANNEL s)(k \<mapsto> ch)\<rparr>"
  by (simp_all add: store_defs)

text \<open>
  Three maps are keyed by a class and a token. \<^verbatim>\<open>cw_storage_plus\<close> writes the first element of such a
  key behind its length in two bytes and panics when it has more than \<open>0xFFFF\<close> bytes, whatever the
  access (\<^verbatim>\<open>may_load\<close>, \<^verbatim>\<open>save\<close> or \<^verbatim>\<open>remove\<close>).
\<close>

definition class_key_fits :: "ClassId \<Rightarrow> bool" where
  "class_key_fits c \<longleftrightarrow> length (class_id_str c) \<le> 0xFFFF"

definition key_too_long :: string where
  "key_too_long = ''only supports namespaces up to length 0xFFFF''"

definition at_pair :: "class_token \<Rightarrow> (Bridge, 'e, 'a) prog \<Rightarrow> (Bridge, 'e, 'a) prog" where
  "at_pair k m = (if class_key_fits (fst k) then m else lift (Panic key_too_long))"

lemma at_pair_fits [simp]: "class_key_fits (fst k) \<Longrightarrow> at_pair k m = m"
  by (simp add: at_pair_def)

lemma at_pair_too_long: "\<not> class_key_fits (fst k) \<Longrightarrow> bnd (at_pair k m) f s = (Panic key_too_long, s)"
  by (simp add: at_pair_def lift_def)

lemma at_pair_Ok_iff [prog_iffs]:
  "at_pair k m s = (Ok x, t) \<longleftrightarrow> class_key_fits (fst k) \<and> m s = (Ok x, t)"
  by (simp add: at_pair_def lift_def)

lemma traverse_at_pair_Ok_iff:
  "traverse (\<lambda>x. bnd (at_pair (c, k x) (writes (w x))) (\<lambda>_. lift (g x))) xs s = (Ok ys, t) \<longleftrightarrow>
     (xs = [] \<or> class_key_fits c) \<and> list_all2 (\<lambda>x y. g x = Ok y) xs ys \<and> t = fold w xs s"
proof (cases "class_key_fits c")
  case True
  then show ?thesis by (simp add: traverse_writes_Ok_iff)
next
  case False
  then show ?thesis by (cases xs) (auto simp: prog_iffs)
qed

lemma fold_store_updates:
  "fold (\<lambda>x. outgoing_remove (k x)) xs s =
     s\<lparr>OUTGOING_CLASS_TOKEN_TO_CHANNEL := (\<lambda>i. if i \<in> k ` set xs then None else OUTGOING_CLASS_TOKEN_TO_CHANNEL s i)\<rparr>"
  "fold (\<lambda>x. metadata_save (k x) (v x)) xs s =
     s\<lparr>TOKEN_METADATA := fold (\<lambda>x m. m(k x \<mapsto> v x)) xs (TOKEN_METADATA s)\<rparr>"
  by (induction xs arbitrary: s) (auto simp: store_defs fun_eq_iff intro!: Bridge.equality)

text \<open>A run on the pause items touches no other item.\<close>

lemma with_po_run [prog_simps]:
  "m (PO s) = (r, p) \<Longrightarrow> with_po m s = (r, s\<lparr>PO := p\<rparr>)"
  by (simp add: with_po_def zoom_def)

lemma with_po_readonly: "readonly m \<Longrightarrow> readonly (with_po m)"
  by (simp add: readonly_def with_po_def zoom_def split_beta)

lemma with_po_Ok_iff [prog_iffs]:
  "with_po m s = (Ok x, t) \<longleftrightarrow> (\<exists>p. m (PO s) = (Ok x, p) \<and> t = s\<lparr>PO := p\<rparr>)"
  by (auto simp: with_po_def zoom_def split: prod.splits)

section \<open>Voucher messages\<close>

definition redemption_into_wasm_msg ::
  "host \<Rightarrow> VoucherRedemption \<Rightarrow> addr \<Rightarrow> string \<Rightarrow> (StdError, WasmMsg) outcome" where
  "redemption_into_wasm_msg h vr contract recv =
     map_ok (WasmExecute (addr_str contract)) (to_binary_execute h (Callback (RedeemVouchers recv vr)))"

definition creation_into_wasm_msg ::
  "host \<Rightarrow> VoucherCreation \<Rightarrow> addr \<Rightarrow> string \<Rightarrow> (StdError, WasmMsg) outcome" where
  "creation_into_wasm_msg h vc contract recv =
     map_ok (WasmExecute (addr_str contract)) (to_binary_execute h (Callback (CreateVouchers recv vc)))"

end
