(* ===== verification/Storage_Keys.thy ===== *)
theory Storage_Keys
  imports Bridge_Types
begin

text \<open>
  The byte-level layout of the bridge's storage: the conversions of class and token identifiers,
  their implementation of the storage-key traits (\<^verbatim>\<open>token_types.rs\<close>), and the namespaces of the
  items and maps (\<^verbatim>\<open>state.rs\<close>). The library that joins namespaces and keys is a parameter.
  Proved: distinct entries never share a cell, so the flat store implements the
  record of maps the handlers are modelled on, and every cell holds a value of its own type.
\<close>

section \<open>Identifiers\<close>

text \<open>
  Construction from and conversion to strings; \<^verbatim>\<open>Deref\<close> lends the same string, and \<^verbatim>\<open>Display\<close>
  appends it to the output of a formatter.
\<close>

definition TokenId_new :: "string \<Rightarrow> TokenId" where
  "TokenId_new s = TokenId s"

definition ClassId_new :: "string \<Rightarrow> ClassId" where
  "ClassId_new s = ClassId s"

definition String_from_ClassId :: "ClassId \<Rightarrow> string" where
  "String_from_ClassId c = (case c of ClassId s \<Rightarrow> s)"

definition String_from_TokenId :: "TokenId \<Rightarrow> string" where
  "String_from_TokenId t = (case t of TokenId s \<Rightarrow> s)"

definition ClassId_deref :: "ClassId \<Rightarrow> string" where
  "ClassId_deref c = class_id_str c"

definition ClassId_fmt :: "ClassId \<Rightarrow> string \<Rightarrow> string" where
  "ClassId_fmt c f = f @ class_id_str c"

section \<open>Keys\<close>

text \<open>
  What the contract uses of \<^verbatim>\<open>cw_storage_plus\<close>: the key elements of a string and of an address, the
  elements of a pair of keys, the deserialisation of a string key, and the raw storage key of an
  item and of a map entry.
\<close>

record key_lib =
  string_key :: "string \<Rightarrow> binary list"
  string_prefix :: "string \<Rightarrow> binary list"
  string_from_vec :: "binary \<Rightarrow> (StdError, string) outcome"
  addr_key :: "addr \<Rightarrow> binary list"
  pair_key :: "binary list \<Rightarrow> binary list \<Rightarrow> binary list"
  item_path :: "string \<Rightarrow> binary"
  map_path :: "string \<Rightarrow> binary list \<Rightarrow> binary"

definition ClassId_key :: "key_lib \<Rightarrow> ClassId \<Rightarrow> binary list" where
  "ClassId_key lib c = string_key lib (class_id_str c)"

definition TokenId_key :: "key_lib \<Rightarrow> TokenId \<Rightarrow> binary list" where
  "TokenId_key lib t = string_key lib (token_id_str t)"

definition ClassId_prefix :: "key_lib \<Rightarrow> ClassId \<Rightarrow> binary list" where
  "ClassId_prefix lib c = string_prefix lib (class_id_str c)"

definition TokenId_prefix :: "key_lib \<Rightarrow> TokenId \<Rightarrow> binary list" where
  "TokenId_prefix lib t = string_prefix lib (token_id_str t)"

text \<open>The output type of the deserialisation is \<^verbatim>\<open>String\<close>, for both identifiers.\<close>

definition ClassId_from_vec :: "key_lib \<Rightarrow> binary \<Rightarrow> (StdError, string) outcome" where
  "ClassId_from_vec lib v = string_from_vec lib v"

definition TokenId_from_vec :: "key_lib \<Rightarrow> binary \<Rightarrow> (StdError, string) outcome" where
  "TokenId_from_vec lib v = string_from_vec lib v"

definition class_token_key :: "key_lib \<Rightarrow> class_token \<Rightarrow> binary list" where
  "class_token_key lib k = pair_key lib (ClassId_key lib (fst k)) (TokenId_key lib (snd k))"

section \<open>Namespaces\<close>

definition ns_CW721_CODE_ID :: string where
  "ns_CW721_CODE_ID = ''a''"

definition ns_PROXY :: string where
  "ns_PROXY = ''b''"

text \<open>The keys of the pauser and of the paused flag.\<close>

definition ns_PO :: "string \<times> string" where
  "ns_PO = (''c'', ''d'')"

definition ns_CLASS_ID_TO_NFT_CONTRACT :: string where
  "ns_CLASS_ID_TO_NFT_CONTRACT = ''e''"

definition ns_NFT_CONTRACT_TO_CLASS_ID :: string where
  "ns_NFT_CONTRACT_TO_CLASS_ID = ''f''"

definition ns_CLASS_ID_TO_CLASS :: string where
  "ns_CLASS_ID_TO_CLASS = ''g''"

definition ns_OUTGOING_CLASS_TOKEN_TO_CHANNEL :: string where
  "ns_OUTGOING_CLASS_TOKEN_TO_CHANNEL = ''h''"

definition ns_INCOMING_CLASS_TOKEN_TO_CHANNEL :: string where
  "ns_INCOMING_CLASS_TOKEN_TO_CHANNEL = ''i''"

definition ns_TOKEN_METADATA :: string where
  "ns_TOKEN_METADATA = ''j''"

text \<open>The item in which \<^verbatim>\<open>cw2\<close> keeps the contract's name and version.\<close>

definition ns_cw2 :: string where
  "ns_cw2 = ''contract_info''"

lemmas ns_defs = ns_CW721_CODE_ID_def ns_PROXY_def ns_PO_def ns_CLASS_ID_TO_NFT_CONTRACT_def
  ns_NFT_CONTRACT_TO_CLASS_ID_def ns_CLASS_ID_TO_CLASS_def ns_OUTGOING_CLASS_TOKEN_TO_CHANNEL_def
  ns_INCOMING_CLASS_TOKEN_TO_CHANNEL_def ns_TOKEN_METADATA_def ns_cw2_def

section \<open>What the library promises\<close>

text \<open>
  A key element other than the last is stored with its length in two bytes, so it may hold at most
  \<open>0xFFFF\<close> bytes; the library panics on a longer one. The handlers meet this limit in the class
  identifier of a pair (\<open>class_key_fits\<close>).
\<close>

definition key_fits :: "binary list \<Rightarrow> bool" where
  "key_fits ks \<longleftrightarrow> ks \<noteq> [] \<and> (\<forall>b \<in> set (butlast ks). length b \<le> 65535)"

definition plain_name :: "string \<Rightarrow> bool" where
  "plain_name n \<longleftrightarrow> n \<noteq> [] \<and> length n \<le> 65535 \<and> hd n \<noteq> CHR 0x00"

text \<open>
  A string is one key element and deserialises to itself; an address is keyed by
  its string; a pair has the elements of both parts. A path determines its namespace, and among
  keys with the same number of elements also the key; items and maps never meet.
\<close>

definition key_lib_ok :: "key_lib \<Rightarrow> bool" where
  "key_lib_ok lib \<longleftrightarrow>
     (\<forall>s. \<exists>b. string_key lib s = [b] \<and> string_from_vec lib b = Ok s) \<and>
     (\<forall>a. addr_key lib a = string_key lib (addr_str a)) \<and>
     (\<forall>ks ls. pair_key lib ks ls = ks @ ls) \<and>
     (\<forall>n m. item_path lib n = item_path lib m \<longrightarrow> n = m) \<and>
     (\<forall>n m ks. plain_name n \<longrightarrow> plain_name m \<longrightarrow> length m \<le> 255 \<longrightarrow> item_path lib n \<noteq> map_path lib m ks) \<and>
     (\<forall>n m ks ls. plain_name n \<longrightarrow> plain_name m \<longrightarrow> key_fits ks \<longrightarrow> key_fits ls \<longrightarrow>
        map_path lib n ks = map_path lib m ls \<longrightarrow> n = m \<and> (length ks = length ls \<longrightarrow> ks = ls))"

lemma key_lib_laws:
  assumes "key_lib_ok lib"
  shows "\<exists>b. string_key lib s = [b] \<and> string_from_vec lib b = Ok s"
    and "addr_key lib a = string_key lib (addr_str a)"
    and "pair_key lib ks ls = ks @ ls" and "item_path lib n = item_path lib m \<longleftrightarrow> n = m"
    and "plain_name n \<Longrightarrow> plain_name m \<Longrightarrow> length m \<le> 255 \<Longrightarrow> item_path lib n \<noteq> map_path lib m ks"
    and "plain_name n \<Longrightarrow> plain_name m \<Longrightarrow> key_fits ks \<Longrightarrow> key_fits ls \<Longrightarrow> length ks = length ls \<or> n \<noteq> m \<Longrightarrow>
      map_path lib n ks = map_path lib m ls \<longleftrightarrow> n = m \<and> ks = ls"
  using assms unfolding key_lib_ok_def by blast+

lemma string_key_inj:
  assumes "key_lib_ok lib"
  shows "string_key lib s = string_key lib t \<longleftrightarrow> s = t"
  using key_lib_laws(1) [OF assms, of s] key_lib_laws(1) [OF assms, of t] by auto

lemma string_key_length:
  assumes "key_lib_ok lib"
  shows "length (string_key lib s) = 1"
  using key_lib_laws(1) [OF assms, of s] by auto

lemma single_key_fits: "length ks = 1 \<Longrightarrow> key_fits ks"
  by (cases ks) (auto simp: key_fits_def)

lemma ClassId_eqI: "class_id_str c = class_id_str d \<longleftrightarrow> c = d"
  by (cases c; cases d) simp

lemma TokenId_eqI: "token_id_str c = token_id_str d \<longleftrightarrow> c = d"
  by (cases c; cases d) simp

lemma addr_eqI: "addr_str c = addr_str d \<longleftrightarrow> c = d"
  by (cases c; cases d) simp

text \<open>The keys of the three kinds of map: equal only for equal entries, and of fixed length.\<close>

lemma key_facts:
  assumes "key_lib_ok lib"
  shows "ClassId_key lib c = ClassId_key lib c' \<longleftrightarrow> c = c'" "length (ClassId_key lib c) = 1"
    "TokenId_key lib t = TokenId_key lib t' \<longleftrightarrow> t = t'" "length (TokenId_key lib t) = 1"
    "addr_key lib a = addr_key lib a' \<longleftrightarrow> a = a'" "length (addr_key lib a) = 1"
    "class_token_key lib k = class_token_key lib k' \<longleftrightarrow> k = k'" "length (class_token_key lib k) = 2"
    "key_fits (ClassId_key lib c)" "key_fits (addr_key lib a)"
  by (auto simp: ClassId_key_def TokenId_key_def class_token_key_def key_lib_laws(2,3) [OF assms]
      string_key_inj [OF assms] string_key_length [OF assms] ClassId_eqI TokenId_eqI addr_eqI prod_eq_iff
      intro: single_key_fits)

section \<open>The flat store\<close>

text \<open>A cell holds an encoded value; the constructor names the type it was encoded from.\<close>

datatype stored =
    StVersion "string \<times> string"
  | StCodeId u64
  | StOptAddr "addr option"
  | StBool bool
  | StAddr addr
  | StClassId ClassId
  | StClass Class
  | StString string
  | StOptBinary "binary option"

type_synonym flat_store = "binary \<rightharpoonup> stored"

text \<open>The writes the contract makes, each to one cell.\<close>

datatype storage_write =
    WVersion "string \<times> string"
  | WCodeId u64
  | WProxy "addr option"
  | WPauser "addr option"
  | WPaused bool
  | WClassContract ClassId addr
  | WContractClass addr ClassId
  | WClass ClassId Class
  | WOutgoing class_token "string option"
  | WIncoming class_token "string option"
  | WMetadata class_token "binary option option"

fun write_cell :: "key_lib \<Rightarrow> storage_write \<Rightarrow> binary \<times> stored option" where
  "write_cell lib (WVersion v) = (item_path lib ns_cw2, Some (StVersion v))"
| "write_cell lib (WCodeId n) = (item_path lib ns_CW721_CODE_ID, Some (StCodeId n))"
| "write_cell lib (WProxy p) = (item_path lib ns_PROXY, Some (StOptAddr p))"
| "write_cell lib (WPauser p) = (item_path lib (fst ns_PO), Some (StOptAddr p))"
| "write_cell lib (WPaused b) = (item_path lib (snd ns_PO), Some (StBool b))"
| "write_cell lib (WClassContract c a) =
     (map_path lib ns_CLASS_ID_TO_NFT_CONTRACT (ClassId_key lib c), Some (StAddr a))"
| "write_cell lib (WContractClass a c) =
     (map_path lib ns_NFT_CONTRACT_TO_CLASS_ID (addr_key lib a), Some (StClassId c))"
| "write_cell lib (WClass c cls) = (map_path lib ns_CLASS_ID_TO_CLASS (ClassId_key lib c), Some (StClass cls))"
| "write_cell lib (WOutgoing k v) =
     (map_path lib ns_OUTGOING_CLASS_TOKEN_TO_CHANNEL (class_token_key lib k), map_option StString v)"
| "write_cell lib (WIncoming k v) =
     (map_path lib ns_INCOMING_CLASS_TOKEN_TO_CHANNEL (class_token_key lib k), map_option StString v)"
| "write_cell lib (WMetadata k v) =
     (map_path lib ns_TOKEN_METADATA (class_token_key lib k), map_option StOptBinary v)"

definition flat_write :: "key_lib \<Rightarrow> storage_write \<Rightarrow> flat_store \<Rightarrow> flat_store" where
  "flat_write lib w st = st(fst (write_cell lib w) := snd (write_cell lib w))"

text \<open>The same writes on the record of maps; a save with no value is a removal.\<close>

fun bridge_write :: "storage_write \<Rightarrow> Bridge \<Rightarrow> Bridge" where
  "bridge_write (WVersion v) s = s\<lparr>contract_version := Some v\<rparr>"
| "bridge_write (WCodeId n) s = s\<lparr>CW721_CODE_ID := Some n\<rparr>"
| "bridge_write (WProxy p) s = s\<lparr>PROXY := Some p\<rparr>"
| "bridge_write (WPauser p) s = s\<lparr>PO := (PO s)\<lparr>pauser := Some p\<rparr>\<rparr>"
| "bridge_write (WPaused b) s = s\<lparr>PO := (PO s)\<lparr>paused := Some b\<rparr>\<rparr>"
| "bridge_write (WClassContract c a) s = class_contract_save c a s"
| "bridge_write (WContractClass a c) s = contract_class_save a c s"
| "bridge_write (WClass c cls) s = class_save c cls s"
| "bridge_write (WOutgoing k v) s = (case v of Some ch \<Rightarrow> outgoing_save k ch s | None \<Rightarrow> outgoing_remove k s)"
| "bridge_write (WIncoming k v) s = (case v of Some ch \<Rightarrow> incoming_save k ch s | None \<Rightarrow> incoming_remove k s)"
| "bridge_write (WMetadata k v) s = (case v of Some md \<Rightarrow> metadata_save k md s | None \<Rightarrow> metadata_remove k s)"

fun write_fits :: "key_lib \<Rightarrow> storage_write \<Rightarrow> bool" where
  "write_fits lib (WOutgoing k v) \<longleftrightarrow> key_fits (class_token_key lib k)"
| "write_fits lib (WIncoming k v) \<longleftrightarrow> key_fits (class_token_key lib k)"
| "write_fits lib (WMetadata k v) \<longleftrightarrow> key_fits (class_token_key lib k)"
| "write_fits lib _ \<longleftrightarrow> True"

section \<open>Reading the flat store\<close>

definition as_version :: "stored option \<Rightarrow> (string \<times> string) option" where
  "as_version v = (case v of Some (StVersion x) \<Rightarrow> Some x | _ \<Rightarrow> None)"

definition as_code_id :: "stored option \<Rightarrow> u64 option" where
  "as_code_id v = (case v of Some (StCodeId x) \<Rightarrow> Some x | _ \<Rightarrow> None)"

definition as_opt_addr :: "stored option \<Rightarrow> addr option option" where
  "as_opt_addr v = (case v of Some (StOptAddr x) \<Rightarrow> Some x | _ \<Rightarrow> None)"

definition as_bool :: "stored option \<Rightarrow> bool option" where
  "as_bool v = (case v of Some (StBool x) \<Rightarrow> Some x | _ \<Rightarrow> None)"

definition as_addr :: "stored option \<Rightarrow> addr option" where
  "as_addr v = (case v of Some (StAddr x) \<Rightarrow> Some x | _ \<Rightarrow> None)"

definition as_class_id :: "stored option \<Rightarrow> ClassId option" where
  "as_class_id v = (case v of Some (StClassId x) \<Rightarrow> Some x | _ \<Rightarrow> None)"

definition as_class :: "stored option \<Rightarrow> Class option" where
  "as_class v = (case v of Some (StClass x) \<Rightarrow> Some x | _ \<Rightarrow> None)"

definition as_string :: "stored option \<Rightarrow> string option" where
  "as_string v = (case v of Some (StString x) \<Rightarrow> Some x | _ \<Rightarrow> None)"

definition as_opt_binary :: "stored option \<Rightarrow> binary option option" where
  "as_opt_binary v = (case v of Some (StOptBinary x) \<Rightarrow> Some x | _ \<Rightarrow> None)"

lemma as_simps [simp]:
  "as_version (Some (StVersion x1)) = Some x1" "as_code_id (Some (StCodeId x2)) = Some x2"
  "as_opt_addr (Some (StOptAddr x3)) = Some x3" "as_bool (Some (StBool x4)) = Some x4"
  "as_addr (Some (StAddr x5)) = Some x5" "as_class_id (Some (StClassId x6)) = Some x6"
  "as_class (Some (StClass x7)) = Some x7" "as_string (map_option StString x8) = x8"
  "as_opt_binary (map_option StOptBinary x9) = x9"
  by (simp_all add: as_version_def as_code_id_def as_opt_addr_def as_bool_def as_addr_def as_class_id_def
      as_class_def as_string_def as_opt_binary_def split: option.splits)

text \<open>The entry of a map; an entry whose key is too long cannot be stored.\<close>

definition flat_entry :: "key_lib \<Rightarrow> string \<Rightarrow> binary list \<Rightarrow> flat_store \<Rightarrow> stored option" where
  "flat_entry lib n ks st = (if key_fits ks then st (map_path lib n ks) else None)"

definition storage_view :: "key_lib \<Rightarrow> flat_store \<Rightarrow> Bridge" where
  "storage_view lib st =
     \<lparr>contract_version = as_version (st (item_path lib ns_cw2)),
      CW721_CODE_ID = as_code_id (st (item_path lib ns_CW721_CODE_ID)),
      PROXY = as_opt_addr (st (item_path lib ns_PROXY)),
      PO = \<lparr>pauser = as_opt_addr (st (item_path lib (fst ns_PO))), paused = as_bool (st (item_path lib (snd ns_PO)))\<rparr>,
      CLASS_ID_TO_NFT_CONTRACT = (\<lambda>c. as_addr (flat_entry lib ns_CLASS_ID_TO_NFT_CONTRACT (ClassId_key lib c) st)),
      NFT_CONTRACT_TO_CLASS_ID = (\<lambda>a. as_class_id (flat_entry lib ns_NFT_CONTRACT_TO_CLASS_ID (addr_key lib a) st)),
      CLASS_ID_TO_CLASS = (\<lambda>c. as_class (flat_entry lib ns_CLASS_ID_TO_CLASS (ClassId_key lib c) st)),
      OUTGOING_CLASS_TOKEN_TO_CHANNEL =
        (\<lambda>k. as_string (flat_entry lib ns_OUTGOING_CLASS_TOKEN_TO_CHANNEL (class_token_key lib k) st)),
      INCOMING_CLASS_TOKEN_TO_CHANNEL =
        (\<lambda>k. as_string (flat_entry lib ns_INCOMING_CLASS_TOKEN_TO_CHANNEL (class_token_key lib k) st)),
      TOKEN_METADATA = (\<lambda>k. as_opt_binary (flat_entry lib ns_TOKEN_METADATA (class_token_key lib k) st))\<rparr>"

text \<open>What a read finds after a write to another or to the same cell.\<close>

lemma flat_entry_map_upd:
  assumes "key_lib_ok lib" and "plain_name n" and "plain_name m" and "key_fits ls"
    and "length ks = length ls \<or> n \<noteq> m"
  shows "flat_entry lib n ks (st(map_path lib m ls := v)) =
    (if n = m \<and> ks = ls then v else flat_entry lib n ks st)"
  using assms key_lib_laws(6) [OF assms(1-3), of ks ls] by (auto simp: flat_entry_def)

lemma flat_entry_item_upd:
  assumes "key_lib_ok lib" and "plain_name n" and "plain_name m" and "length m \<le> 255"
  shows "flat_entry lib m ks (st(item_path lib n := v)) = flat_entry lib m ks st"
  using assms key_lib_laws(5) [OF assms, of ks] by (auto simp: flat_entry_def)

lemmas flat_reads = flat_entry_map_upd flat_entry_item_upd key_lib_laws(4,5)

lemma flat_write_view:
  assumes "key_lib_ok lib" and "write_fits lib w"
  shows "storage_view lib (flat_write lib w st) = bridge_write w (storage_view lib st)"
  using assms(2)
  by (cases w) (simp_all add: storage_view_def flat_write_def fun_eq_iff store_defs ns_defs plain_name_def
      flat_reads [OF assms(1)] key_facts [OF assms(1)] split: option.split)

section \<open>Every cell keeps its type\<close>

text \<open>What a cell of the contract may hold: the type of the item or map its path belongs to.\<close>

definition cell_typed :: "key_lib \<Rightarrow> binary \<Rightarrow> stored \<Rightarrow> bool" where
  "cell_typed lib b v \<longleftrightarrow>
     (b = item_path lib ns_cw2 \<longrightarrow> (\<exists>x. v = StVersion x)) \<and>
     (b = item_path lib ns_CW721_CODE_ID \<longrightarrow> (\<exists>x. v = StCodeId x)) \<and>
     (b \<in> item_path lib ` {ns_PROXY, fst ns_PO} \<longrightarrow> (\<exists>x. v = StOptAddr x)) \<and>
     (b = item_path lib (snd ns_PO) \<longrightarrow> (\<exists>x. v = StBool x)) \<and>
     (\<forall>c. b = map_path lib ns_CLASS_ID_TO_NFT_CONTRACT (ClassId_key lib c) \<longrightarrow> (\<exists>x. v = StAddr x)) \<and>
     (\<forall>a. b = map_path lib ns_NFT_CONTRACT_TO_CLASS_ID (addr_key lib a) \<longrightarrow> (\<exists>x. v = StClassId x)) \<and>
     (\<forall>c. b = map_path lib ns_CLASS_ID_TO_CLASS (ClassId_key lib c) \<longrightarrow> (\<exists>x. v = StClass x)) \<and>
     (\<forall>k. key_fits (class_token_key lib k) \<longrightarrow>
        b \<in> {map_path lib ns_OUTGOING_CLASS_TOKEN_TO_CHANNEL (class_token_key lib k),
             map_path lib ns_INCOMING_CLASS_TOKEN_TO_CHANNEL (class_token_key lib k)} \<longrightarrow>
        (\<exists>x. v = StString x)) \<and>
     (\<forall>k. key_fits (class_token_key lib k) \<longrightarrow>
        b = map_path lib ns_TOKEN_METADATA (class_token_key lib k) \<longrightarrow> (\<exists>x. v = StOptBinary x))"

definition storage_typed :: "key_lib \<Rightarrow> flat_store \<Rightarrow> bool" where
  "storage_typed lib st \<longleftrightarrow> (\<forall>b v. st b = Some v \<longrightarrow> cell_typed lib b v)"

lemma write_cell_typed:
  assumes "key_lib_ok lib" and "write_fits lib w" and "snd (write_cell lib w) = Some v"
  shows "cell_typed lib (fst (write_cell lib w)) v"
  using assms(2,3)
  by (cases w) (auto simp: cell_typed_def ns_defs plain_name_def flat_reads [OF assms(1)]
      key_lib_laws(5) [OF assms(1), symmetric] key_lib_laws(6) [OF assms(1)] key_facts [OF assms(1)])

lemma flat_write_typed:
  "key_lib_ok lib \<Longrightarrow> write_fits lib w \<Longrightarrow> storage_typed lib st \<Longrightarrow> storage_typed lib (flat_write lib w st)"
  using write_cell_typed [of lib w] by (auto simp: storage_typed_def flat_write_def)

lemma flat_writes:
  assumes "key_lib_ok lib" and "\<forall>w \<in> set ws. write_fits lib w" and "storage_typed lib st"
  shows "storage_view lib (fold (flat_write lib) ws st) = fold bridge_write ws (storage_view lib st) \<and>
    storage_typed lib (fold (flat_write lib) ws st)"
  using assms(2,3)
  by (induction ws arbitrary: st) (simp_all add: flat_write_view [OF assms(1)] flat_write_typed [OF assms(1)])

lemma storage_view_empty: "storage_view lib Map.empty = empty_bridge"
  by (simp add: storage_view_def empty_bridge_def po_empty_def flat_entry_def fun_eq_iff as_version_def
      as_code_id_def as_opt_addr_def as_bool_def as_addr_def as_class_id_def as_class_def as_string_def
      as_opt_binary_def)

section \<open>A library that keeps the promise\<close>

text \<open>
  Two length bytes, most significant first, before the namespace and before every key element but
  the last; an item is stored under its bare name.
\<close>

definition with_length :: "binary \<Rightarrow> binary" where
  "with_length b = [char_of (length b div 256), char_of (length b mod 256)] @ b"

definition prefixed_lib :: key_lib where
  "prefixed_lib =
     \<lparr>string_key = (\<lambda>s. [s]), string_prefix = (\<lambda>s. [s]), string_from_vec = Ok,
      addr_key = (\<lambda>a. [addr_str a]), pair_key = (@), item_path = (\<lambda>n. n),
      map_path = (\<lambda>n ks. with_length n @ concat (map with_length (butlast ks)) @ last ks)\<rparr>"

lemma char_of_eq_small: "x < 256 \<Longrightarrow> y < 256 \<Longrightarrow> char_of (x :: nat) = char_of y \<longleftrightarrow> x = y"
  by (metis mod_less of_char_of)

lemma with_length_cancel:
  assumes "length b \<le> 65535" and "length c \<le> 65535" and "with_length b @ r = with_length c @ r'"
  shows "b = c \<and> r = r'"
proof -
  from assms(3) have "char_of (length b div 256) = (char_of (length c div 256) :: char)"
    "char_of (length b mod 256) = (char_of (length c mod 256) :: char)" "b @ r = c @ r'"
    by (auto simp: with_length_def)
  then have "length b div 256 = length c div 256" "length b mod 256 = length c mod 256"
    using assms(1,2) by (simp_all add: char_of_eq_small)
  then have "length b = length c" by (metis div_mult_mod_eq)
  with \<open>b @ r = c @ r'\<close> show ?thesis by simp
qed

lemma with_length_cancel_list:
  assumes "length bs = length cs" and "\<forall>b \<in> set bs \<union> set cs. length b \<le> 65535"
    and "concat (map with_length bs) @ r = concat (map with_length cs) @ r'"
  shows "bs = cs \<and> r = r'"
  using assms
proof (induction bs cs rule: list_induct2)
  case (Cons b bs c cs)
  then have "b = c \<and> concat (map with_length bs) @ r = concat (map with_length cs) @ r'"
    by (intro with_length_cancel) auto
  with Cons show ?case by auto
qed simp

lemma prefixed_lib_ok: "key_lib_ok prefixed_lib"
proof -
  have item: "n \<noteq> with_length m @ r" if "plain_name n" "length m \<le> 255" for n m r
    using that by (cases n) (auto simp: plain_name_def with_length_def char_of_def)
  have path: "n = m \<and> (length ks = length ls \<longrightarrow> ks = ls)"
    if "plain_name n" "plain_name m" "key_fits ks" "key_fits ls"
      and eq: "with_length n @ concat (map with_length (butlast ks)) @ last ks =
        with_length m @ concat (map with_length (butlast ls)) @ last ls" for n m ks ls
  proof -
    from that have n: "n = m" and rest: "concat (map with_length (butlast ks)) @ last ks =
        concat (map with_length (butlast ls)) @ last ls"
      using with_length_cancel [OF _ _ eq] by (auto simp: plain_name_def)
    have "ks = ls" if "length ks = length ls"
    proof -
      from \<open>key_fits ks\<close> \<open>key_fits ls\<close> have "butlast ks = butlast ls \<and> last ks = last ls"
        using that rest by (intro with_length_cancel_list) (auto simp: key_fits_def)
      with \<open>key_fits ks\<close> \<open>key_fits ls\<close> show ?thesis by (metis append_butlast_last_id key_fits_def)
    qed
    with n show ?thesis by blast
  qed
  show ?thesis unfolding key_lib_ok_def using path item by (simp add: prefixed_lib_def)
qed

section \<open>Properties\<close>

text \<open>C23: The flat store implements the bridge's maps. Whatever sequence of writes the contract makes on
  an empty store, reading the store back gives exactly the record of items and maps on which the
  handlers are modelled, with the same writes made there: no entry shadows another, neither within a
  map nor across maps and items.\<close>

theorem storage_layout_refines_maps:
  assumes "key_lib_ok lib" and "\<forall>w \<in> set ws. write_fits lib w"
  shows "storage_view lib (fold (flat_write lib) ws Map.empty) = fold bridge_write ws empty_bridge"
  using flat_writes [OF assms, of Map.empty] by (simp add: storage_view_empty storage_typed_def)

theorem storage_layout_refines_maps_witness:
  "OUTGOING_CLASS_TOKEN_TO_CHANNEL
     (storage_view prefixed_lib
       (fold (flat_write prefixed_lib)
         [WOutgoing (ClassId ''ab'', TokenId ''c'') (Some ''channel-0''),
          WIncoming (ClassId ''ab'', TokenId ''c'') (Some ''channel-1'')] Map.empty))
     (ClassId ''ab'', TokenId ''c'') = Some ''channel-0''"
proof -
  have "\<forall>w \<in> set [WOutgoing (ClassId ''ab'', TokenId ''c'') (Some ''channel-0''),
          WIncoming (ClassId ''ab'', TokenId ''c'') (Some ''channel-1'')]. write_fits prefixed_lib w"
    by (simp add: key_fits_def class_token_key_def ClassId_key_def TokenId_key_def prefixed_lib_def)
  from storage_layout_refines_maps [OF prefixed_lib_ok this] show ?thesis
    by (simp add: outgoing.look_save store_defs)
qed

text \<open>C24: Storage is well typed: whatever sequence of writes the contract makes, every cell that an item
  or a map entry of the contract addresses holds a value of the type that item or map was declared
  with, so a load never meets a value of another type.\<close>

theorem storage_stays_typed:
  assumes "key_lib_ok lib" and "\<forall>w \<in> set ws. write_fits lib w"
  shows "storage_typed lib (fold (flat_write lib) ws Map.empty)"
  using flat_writes [OF assms, of Map.empty] by (simp add: storage_typed_def)

theorem storage_stays_typed_witness:
  "storage_typed prefixed_lib
     (fold (flat_write prefixed_lib) [WClass (ClassId ''e'') \<lparr>cls_id = ClassId ''e'', cls_uri = None, cls_data = None\<rparr>,
        WPaused False] Map.empty)"
  using storage_stays_typed [OF prefixed_lib_ok,
      of "[WClass (ClassId ''e'') \<lparr>cls_id = ClassId ''e'', cls_uri = None, cls_data = None\<rparr>, WPaused False]"]
  by simp

end
