(* ===== verification/Sample_Codec.thy ===== *)
theory Sample_Codec
  imports Bridge_Types
begin

text \<open>
  Concrete encodings of the messages the contracts send, used wherever a theorem is applied on a
  concrete host: a list is a row of marked elements with an end mark, an option and a constructor
  follow their tag. Proved: they can be read back, so that no two messages have the same encoding.
\<close>

section \<open>Encodings that can be read back\<close>

text \<open>No encoding is the beginning of another one.\<close>

definition prefix_code :: "('a \<Rightarrow> binary) \<Rightarrow> bool" where
  "prefix_code e \<longleftrightarrow> (\<forall>x y r r'. e x @ r = e y @ r' \<longrightarrow> x = y \<and> r = r')"

lemma prefix_code_iff: "prefix_code e \<Longrightarrow> e x @ r = e y @ r' \<longleftrightarrow> x = y \<and> r = r'"
  by (auto simp: prefix_code_def)

lemma prefix_code_inj: "prefix_code e \<Longrightarrow> inj e"
  by (rule injI) (metis prefix_code_iff append_Nil2)

primrec code_list :: "('a \<Rightarrow> binary) \<Rightarrow> 'a list \<Rightarrow> binary" where
  "code_list e [] = ''.''"
| "code_list e (x # xs) = '','' @ e x @ code_list e xs"

primrec code_opt :: "('a \<Rightarrow> binary) \<Rightarrow> 'a option \<Rightarrow> binary" where
  "code_opt e None = ''-''"
| "code_opt e (Some x) = ''+'' @ e x"

definition code_str :: "string \<Rightarrow> binary" where
  "code_str = code_list (\<lambda>c. [c])"

definition code_num :: "u64 \<Rightarrow> binary" where
  "code_num n = code_str (replicate (unat n) CHR ''1'')"

lemma code_list_iff:
  assumes "prefix_code e"
  shows "code_list e xs @ r = code_list e ys @ r' \<longleftrightarrow> xs = ys \<and> r = r'"
proof (induction xs arbitrary: ys)
  case Nil
  show ?case by (cases ys) auto
next
  case (Cons x xs)
  then show ?case by (cases ys) (auto simp: prefix_code_iff [OF assms])
qed

lemma prefix_codes [simp]:
  "prefix_code e \<Longrightarrow> prefix_code (code_list e)" "prefix_code e \<Longrightarrow> prefix_code (code_opt e)"
  "prefix_code code_str" "prefix_code code_num"
proof -
  show list: "prefix_code e \<Longrightarrow> prefix_code (code_list e)" for e :: "'b \<Rightarrow> binary"
    unfolding prefix_code_def [of "code_list e"] by (simp add: code_list_iff)
  show "prefix_code (code_opt e)" if "prefix_code e"
    unfolding prefix_code_def [of "code_opt e"]
  proof (intro allI)
    show "code_opt e x @ r = code_opt e y @ r' \<longrightarrow> x = y \<and> r = r'" for x y r r'
      by (cases x; cases y) (auto simp: prefix_code_iff [OF that])
  qed
  show str: "prefix_code code_str" unfolding code_str_def by (rule list) (simp add: prefix_code_def)
  show "prefix_code code_num"
    unfolding prefix_code_def [of code_num]
    by (auto simp: code_num_def prefix_code_iff [OF str] replicate_eq_replicate unsigned_word_eqI)
qed

text \<open>The messages of the bridge, the cw721 messages and the instantiation message of a collection.\<close>

definition code_token :: "Token \<Rightarrow> binary" where
  "code_token t = code_str (token_id_str (tok_id t)) @ code_opt code_str (tok_uri t) @ code_opt code_str (tok_data t)"

definition code_class :: "Class \<Rightarrow> binary" where
  "code_class c = code_str (class_id_str (cls_id c)) @ code_opt code_str (cls_uri c) @ code_opt code_str (cls_data c)"

primrec code_wasm :: "WasmMsg \<Rightarrow> binary" where
  "code_wasm (WasmExecute c m) = ''e'' @ code_str c @ code_str m"
| "code_wasm (WasmInstantiate a i m l) = ''i'' @ code_opt code_str a @ code_num i @ code_str m @ code_str l"

lemma prefix_code_parts [simp]: "prefix_code code_token" "prefix_code code_class" "prefix_code code_wasm"
proof -
  show "prefix_code code_token"
    unfolding prefix_code_def [of code_token]
    by (auto simp: code_token_def prefix_code_iff intro: Token.equality TokenId.expand)
  show "prefix_code code_class"
    unfolding prefix_code_def [of code_class]
    by (auto simp: code_class_def prefix_code_iff intro: Class.equality ClassId.expand)
  show "prefix_code code_wasm"
    unfolding prefix_code_def [of code_wasm]
  proof (intro allI)
    show "code_wasm x @ r = code_wasm y @ r' \<longrightarrow> x = y \<and> r = r'" for x y r r'
      by (cases x; cases y) (auto simp: prefix_code_iff)
  qed
qed

primrec code_callback :: "CallbackMsg \<Rightarrow> binary" where
  "code_callback (CreateVouchers r v) = ''c'' @ code_str r @ code_class (vc_class v) @ code_list code_token (vc_tokens v)"
| "code_callback (RedeemVouchers r v) =
     ''r'' @ code_str r @ code_class (vr_class v) @ code_list (\<lambda>t. code_str (token_id_str t)) (vr_token_ids v)"
| "code_callback (CallbackMint c r ts) = ''m'' @ code_str (class_id_str c) @ code_str r @ code_list code_token ts"
| "code_callback (Conjunction ms) = ''j'' @ code_list code_wasm ms"

definition code_receive :: "Cw721ReceiveMsg \<Rightarrow> binary" where
  "code_receive m = code_str (crm_sender m) @ code_str (crm_token_id m) @ code_str (crm_msg m)"

primrec code_execute :: "ExecuteMsg \<Rightarrow> binary" where
  "code_execute (ReceiveNft m) = ''xn'' @ code_receive m"
| "code_execute (ReceiveProxyNft e m) = ''xp'' @ code_str e @ code_receive m"
| "code_execute ExecutePause = ''xq''"
| "code_execute (Callback c) = ''xc'' @ code_callback c"

primrec code_cw721 :: "Cw721ExecuteMsg \<Rightarrow> binary" where
  "code_cw721 (TransferNft r t) = ''t'' @ code_str r @ code_str t"
| "code_cw721 (SendNft c t b) = ''s'' @ code_str c @ code_str t @ code_str b"
| "code_cw721 (Burn t) = ''b'' @ code_str t"
| "code_cw721 (Mint t r u) = ''m'' @ code_str t @ code_str r @ code_opt code_str u"

definition code_init :: "Cw721InstantiateMsg \<Rightarrow> binary" where
  "code_init i = code_str (ci_name i) @ code_str (ci_symbol i) @ code_str (ci_minter i)"

lemma code_messages:
  shows "inj code_execute" and "inj code_cw721" and "inj code_init" and "code_execute m \<noteq> code_cw721 m'"
proof -
  have ids: "prefix_code (\<lambda>t. code_str (token_id_str t))"
    unfolding prefix_code_def [of "\<lambda>t. code_str (token_id_str t)"] by (auto simp: prefix_code_iff intro: TokenId.expand)
  have rec: "prefix_code code_receive"
    unfolding prefix_code_def [of code_receive]
    by (auto simp: code_receive_def prefix_code_iff intro: Cw721ReceiveMsg.equality)
  have call: "inj code_callback"
  proof (rule injI)
    show "code_callback x = code_callback y \<Longrightarrow> x = y" for x y
      by (cases x; cases y)
        (auto simp: prefix_code_iff inj_eq [OF prefix_code_inj] ids
          intro: VoucherCreation.equality VoucherRedemption.equality ClassId.expand)
  qed
  show "inj code_execute"
  proof (rule injI)
    show "code_execute x = code_execute y \<Longrightarrow> x = y" for x y
      by (cases x; cases y) (auto simp: prefix_code_iff inj_eq [OF prefix_code_inj] inj_eq [OF call] rec)
  qed
  show "inj code_cw721"
  proof (rule injI)
    show "code_cw721 x = code_cw721 y \<Longrightarrow> x = y" for x y
      by (cases x; cases y) (auto simp: prefix_code_iff inj_eq [OF prefix_code_inj])
  qed
  show "inj code_init"
    by (rule injI) (auto simp: code_init_def prefix_code_iff inj_eq [OF prefix_code_inj] intro: Cw721InstantiateMsg.equality)
  show "code_execute m \<noteq> code_cw721 m'" by (cases m; cases m') simp_all
qed

end
