(* ===== verification/Sample_Host.thy ===== *)
theory Sample_Host
  imports Sample_Codec
begin

text \<open>
  A concrete host, on which the theorems that assume something of the code outside the repository
  are applied: every non-empty string without a slash is an address, contracts report themselves as their class,
  acknowledgements are tagged with a letter, and messages are written in the encodings that can be read back. Packets and
  outgoing messages are decoded by a table that each application extends.
\<close>

definition sample_enc_ack :: "Ics721Ack \<Rightarrow> (StdError, binary) outcome" where
  "sample_enc_ack a = (case a of AckResult b \<Rightarrow> Ok (CHR ''R'' # b) | AckError e \<Rightarrow> Ok (CHR ''E'' # e))"

definition sample_dec_ack :: "binary \<Rightarrow> (StdError, Ics721Ack) outcome" where
  "sample_dec_ack b =
     (case b of
        c # cs \<Rightarrow>
          if c = CHR ''R'' then Ok (AckResult cs)
          else if c = CHR ''E'' then Ok (AckError cs)
          else Err (ParseErr ''Ics721Ack'' ''unknown tag'')
      | [] \<Rightarrow> Err (ParseErr ''Ics721Ack'' ''empty''))"

definition sample_host :: host where
  "sample_host = \<lparr>
     addr_validate = (\<lambda>s. if s = [] \<or> CHR ''/'' \<in> set s then Err (GenericErr ''not an address'') else Ok (Addr s)),
     query_nft_info = (\<lambda>_ _. Ok (UniversalNftInfoResponse None ())),
     query_contract_info = (\<lambda>a. Ok (addr_str a, addr_str a)),
     query_owner_of = (\<lambda>_ _. Err (NotFound ''owner'')),
     to_binary_packet = (\<lambda>p. Ok ''packet''),
     from_binary_packet = (\<lambda>_. Err (ParseErr ''NonFungibleTokenPacketData'' ''not a packet'')),
     from_binary_outgoing = (\<lambda>_. Err (ParseErr ''IbcOutgoingMsg'' ''not a message'')),
     to_binary_execute = (\<lambda>m. Ok (code_execute m)),
     to_binary_cw721 = (\<lambda>m. Ok (code_cw721 m)),
     to_binary_cw721_init = (\<lambda>i. Ok (ci_name i)),
     to_binary_query = (\<lambda>_. Ok ''response''),
     to_binary_ack = sample_enc_ack,
     from_binary_ack = sample_dec_ack,
     to_base64 = (\<lambda>b. b),
     parse_reply_instantiate_data =
       (\<lambda>r. case reply_result r of
              SubMsgOk (Some b) \<Rightarrow> Ok b
            | SubMsgOk None \<Rightarrow> Err (ReplyParseFailure ''no data'')
            | SubMsgErr e \<Rightarrow> Err (SubMsgFailure e)),
     std_error_to_string = (\<lambda>_. ''std error''),
     parse_reply_error_to_string = (\<lambda>_. ''reply error''),
     escape_debug = (\<lambda>s. s)\<rparr>"

lemma sample_host_simps [simp]:
  "addr_validate sample_host a =
     (if a = [] \<or> CHR ''/'' \<in> set a then Err (GenericErr ''not an address'') else Ok (Addr a))"
  "query_nft_info sample_host c t = Ok (UniversalNftInfoResponse None ())"
  "query_contract_info sample_host c = Ok (addr_str c, addr_str c)"
  "to_binary_packet sample_host d = Ok ''packet''"
  "from_binary_packet sample_host b = Err (ParseErr ''NonFungibleTokenPacketData'' ''not a packet'')"
  "from_binary_outgoing sample_host b = Err (ParseErr ''IbcOutgoingMsg'' ''not a message'')"
  "to_binary_execute sample_host x = Ok (code_execute x)"
  "to_binary_cw721 sample_host y = Ok (code_cw721 y)"
  "to_binary_cw721_init sample_host i = Ok (ci_name i)"
  "to_binary_ack sample_host k = sample_enc_ack k"
  "from_binary_ack sample_host b = sample_dec_ack b"
  by (simp_all add: sample_host_def)

lemma sample_ack_codec:
  "sample_dec_ack (CHR ''R'' # b) = Ok (AckResult b)" "sample_dec_ack (CHR ''E'' # b) = Ok (AckError b)"
  by (simp_all add: sample_dec_ack_def)

section \<open>Outgoing messages, written and read\<close>

text \<open>
  An encoding of \<^verbatim>\<open>IbcOutgoingMsg\<close> with its decoder: a number is a row of ones closed by a zero,
  a string follows its length, an option its tag.
\<close>

definition put_num :: "nat \<Rightarrow> binary" where
  "put_num n = replicate n CHR ''1'' @ ''0''"

definition get_num :: "binary \<Rightarrow> nat \<times> binary" where
  "get_num b = (let n = length (takeWhile (\<lambda>c. c = CHR ''1'') b) in (n, drop (Suc n) b))"

definition put_str :: "string \<Rightarrow> binary" where
  "put_str s = put_num (length s) @ s"

definition get_str :: "binary \<Rightarrow> string \<times> binary" where
  "get_str b = (case get_num b of (n, r) \<Rightarrow> (take n r, drop n r))"

definition put_u64 :: "u64 \<Rightarrow> binary" where
  "put_u64 n = put_num (unat n)"

definition get_u64 :: "binary \<Rightarrow> u64 \<times> binary" where
  "get_u64 b = (case get_num b of (n, r) \<Rightarrow> (of_nat n, r))"

definition put_block :: "IbcTimeoutBlock \<Rightarrow> binary" where
  "put_block t = put_u64 (revision t) @ put_u64 (height t)"

definition get_block :: "binary \<Rightarrow> IbcTimeoutBlock \<times> binary" where
  "get_block b = (case get_u64 b of (x, r) \<Rightarrow> case get_u64 r of (y, r') \<Rightarrow> (\<lparr>revision = x, height = y\<rparr>, r'))"

primrec put_opt :: "('a \<Rightarrow> binary) \<Rightarrow> 'a option \<Rightarrow> binary" where
  "put_opt put None = ''-''"
| "put_opt put (Some x) = ''+'' @ put x"

definition get_opt :: "(binary \<Rightarrow> 'a \<times> binary) \<Rightarrow> binary \<Rightarrow> 'a option \<times> binary" where
  "get_opt get b = (if take 1 b = ''+'' then map_prod Some id (get (drop 1 b)) else (None, drop 1 b))"

definition put_outgoing :: "IbcOutgoingMsg \<Rightarrow> binary" where
  "put_outgoing m = put_str (og_receiver m) @ put_str (og_channel_id m) @
     put_opt put_block (timeout_block (og_timeout m)) @ put_opt put_u64 (timeout_timestamp (og_timeout m)) @
     put_opt put_str (og_memo m)"

definition get_outgoing :: "binary \<Rightarrow> IbcOutgoingMsg" where
  "get_outgoing b =
     (case get_str b of (r, b1) \<Rightarrow> case get_str b1 of (c, b2) \<Rightarrow> case get_opt get_block b2 of (k, b3) \<Rightarrow>
      case get_opt get_u64 b3 of (t, b4) \<Rightarrow> case get_opt get_str b4 of (m, b5) \<Rightarrow>
      \<lparr>og_receiver = r, og_channel_id = c, og_timeout = \<lparr>timeout_block = k, timeout_timestamp = t\<rparr>, og_memo = m\<rparr>)"

lemma get_put [simp]:
  "get_num (put_num n @ r) = (n, r)" "get_str (put_str s @ r) = (s, r)" "get_u64 (put_u64 w @ r) = (w, r)"
  "get_block (put_block t @ r) = (t, r)"
proof -
  show num: "get_num (put_num n @ r) = (n, r)" for n r
    by (simp add: get_num_def put_num_def takeWhile_append)
  show "get_str (put_str s @ r) = (s, r)" by (simp add: get_str_def put_str_def num)
  show u64: "get_u64 (put_u64 w @ r) = (w, r)" for w r by (simp add: get_u64_def put_u64_def num)
  show "get_block (put_block t @ r) = (t, r)" by (simp add: get_block_def put_block_def u64)
qed

lemma get_opt_put: "(\<And>x r. get (put x @ r) = (x, r)) \<Longrightarrow> get_opt get (put_opt put v @ r) = (v, r)"
  by (cases v) (simp_all add: get_opt_def)

lemma get_outgoing_put: "get_outgoing (put_outgoing m) = m"
proof -
  have memo: "get_opt get_str (put_opt put_str v) = (v, [])" for v
    using get_opt_put [of get_str put_str v "[]"] by simp
  show ?thesis by (simp add: get_outgoing_def put_outgoing_def get_opt_put memo)
qed

section \<open>Sample data\<close>

text \<open>
  A bridge on which token 1 of the collection \<^verbatim>\<open>nft\<close> is away on \<^verbatim>\<open>channel-0\<close>, and a packet on that
  channel that brings tokens 1 and 2 of it back.
\<close>

definition sample_src :: IbcEndpoint where
  "sample_src = \<lparr>port_id = ''wasm.a'', channel_id = ''channel-7''\<rparr>"

definition sample_dest :: IbcEndpoint where
  "sample_dest = \<lparr>port_id = ''wasm.b'', channel_id = ''channel-0''\<rparr>"

definition sample_timeout :: IbcTimeout where
  "sample_timeout = \<lparr>timeout_block = None, timeout_timestamp = Some 1\<rparr>"

definition sample_packet :: IbcPacket where
  "sample_packet = \<lparr>pkt_data = ''packet'', src = sample_src, dest = sample_dest, sequence = 1,
     pkt_timeout = sample_timeout\<rparr>"

definition sample_data :: "string \<Rightarrow> string list \<Rightarrow> NonFungibleTokenPacketData" where
  "sample_data c ts = \<lparr>class_id = ClassId c, class_uri = None, class_data = None,
     token_ids = map TokenId ts, token_uris = None, token_data = None,
     sender = ''alice'', receiver = ''bob'', memo = None\<rparr>"

definition sample_bridge :: Bridge where
  "sample_bridge = empty_bridge\<lparr>
     contract_version := Some (''name'', ''version''), CW721_CODE_ID := Some 5, PROXY := Some None,
     PO := \<lparr>pauser = Some (Some (Addr ''ekez'')), paused = Some False\<rparr>,
     CLASS_ID_TO_NFT_CONTRACT := [ClassId ''nft'' \<mapsto> Addr ''nft''],
     NFT_CONTRACT_TO_CLASS_ID := [Addr ''nft'' \<mapsto> ClassId ''nft''],
     CLASS_ID_TO_CLASS := [ClassId ''nft'' \<mapsto> \<lparr>cls_id = ClassId ''nft'', cls_uri = None, cls_data = None\<rparr>],
     OUTGOING_CLASS_TOKEN_TO_CHANNEL := [(ClassId ''nft'', TokenId ''1'') \<mapsto> ''channel-0'']\<rparr>"

definition sample_env :: Env where
  "sample_env = \<lparr>env_contract = Addr ''bridge'', env_time = 0, env_height = 1, env_tx_index = None\<rparr>"

text \<open>The host on which every packet decodes to given data.\<close>

definition packet_host :: "NonFungibleTokenPacketData \<Rightarrow> host" where
  "packet_host d = sample_host\<lparr>from_binary_packet := (\<lambda>_. Ok d)\<rparr>"

lemmas sample_defs = sample_src_def sample_dest_def sample_packet_def sample_data_def
  sample_bridge_def sample_env_def empty_bridge_def packet_host_def

lemma sample_state_simps [simp]:
  "paused (PO sample_bridge) = Some False" "PROXY sample_bridge = Some None"
  "CW721_CODE_ID sample_bridge = Some 5" "env_contract sample_env = Addr ''bridge''"
  "CLASS_ID_TO_NFT_CONTRACT sample_bridge = [ClassId ''nft'' \<mapsto> Addr ''nft'']"
  by (simp_all add: sample_bridge_def sample_env_def)

end
