(* ===== verification/Zip_Optional.thy ===== *)
theory Zip_Optional
  imports Prelude
begin

text \<open>
  The package \<^verbatim>\<open>packages/zip-optional\<close>: an iterator that pairs the items of one iterator with the
  items of an optional second one. The interface is the locale \<open>iterator\<close> (one \<^verbatim>\<open>next\<close> call and
  the items still to come); lists implement it as \<^verbatim>\<open>vec::IntoIter\<close> does, and the zipped iterator
  implements it over any two iterators that do.
\<close>

section \<open>Iterators\<close>

locale iterator =
  fixes nxt :: "'i \<Rightarrow> ('a \<times> 'i) option"
    and items :: "'i \<Rightarrow> 'a list"
  assumes items_nxt: "items i = (case nxt i of None \<Rightarrow> [] | Some (x, i') \<Rightarrow> x # items i')"
begin

lemma nxt_None_iff: "nxt i = None \<longleftrightarrow> items i = []"
  by (subst items_nxt) (auto split: option.splits)

lemma nxt_Some: "nxt i = Some (x, i') \<Longrightarrow> items i = x # items i'"
  by (subst items_nxt) auto

end

fun vec_next :: "'a list \<Rightarrow> ('a \<times> 'a list) option" where
  "vec_next [] = None"
| "vec_next (x # xs) = Some (x, xs)"

interpretation vec: iterator vec_next "\<lambda>xs. xs"
proof unfold_locales
  fix xs :: "'a list"
  show "xs = (case vec_next xs of None \<Rightarrow> [] | Some (x, ys) \<Rightarrow> x # ys)"
    by (cases xs) simp_all
qed

section \<open>The zipped iterator\<close>

datatype ('a, 'b) ZipOptional = ZipSome 'a 'b | ZipNone 'a

text \<open>
  \<^verbatim>\<open>Iterator::next\<close> for \<^verbatim>\<open>ZipOptional\<close>, over the \<^verbatim>\<open>next\<close> of its two parts. In the \<^verbatim>\<open>Some\<close> case
  the first iterator advances even when the second one turns out to be empty.
\<close>

fun zip_next ::
  "('i \<Rightarrow> ('a \<times> 'i) option) \<Rightarrow> ('j \<Rightarrow> ('b \<times> 'j) option) \<Rightarrow> ('i, 'j) ZipOptional \<Rightarrow>
     (('a \<times> 'b option) \<times> ('i, 'j) ZipOptional) option" where
  "zip_next na nb (ZipNone a) =
     (case na a of None \<Rightarrow> None | Some (x, a') \<Rightarrow> Some ((x, None), ZipNone a'))"
| "zip_next na nb (ZipSome a b) =
     (case na a of
        None \<Rightarrow> None
      | Some (x, a') \<Rightarrow>
          (case nb b of None \<Rightarrow> None | Some (y, b') \<Rightarrow> Some ((x, Some y), ZipSome a' b')))"

fun zip_optional :: "'i \<Rightarrow> 'j option \<Rightarrow> ('i, 'j) ZipOptional" where
  "zip_optional a (Some b) = ZipSome a b"
| "zip_optional a None = ZipNone a"

text \<open>What the README of the package promises: the items of the two iterators side by side, or
  the items of the first one with \<open>None\<close>.\<close>

definition zip_spec :: "'a list \<Rightarrow> 'b list option \<Rightarrow> ('a \<times> 'b option) list" where
  "zip_spec xs oys =
     (case oys of None \<Rightarrow> map (\<lambda>x. (x, None)) xs | Some ys \<Rightarrow> zip xs (map Some ys))"

fun zip_items ::
  "('i \<Rightarrow> 'a list) \<Rightarrow> ('j \<Rightarrow> 'b list) \<Rightarrow> ('i, 'j) ZipOptional \<Rightarrow> ('a \<times> 'b option) list" where
  "zip_items ia ib (ZipNone a) = zip_spec (ia a) None"
| "zip_items ia ib (ZipSome a b) = zip_spec (ia a) (Some (ib b))"

locale iterator_pair = fst_it: iterator nxta itemsa + snd_it: iterator nxtb itemsb
  for nxta :: "'i \<Rightarrow> ('a \<times> 'i) option" and itemsa :: "'i \<Rightarrow> 'a list"
    and nxtb :: "'j \<Rightarrow> ('b \<times> 'j) option" and itemsb :: "'j \<Rightarrow> 'b list"
begin

lemma zip_items_step:
  "zip_items itemsa itemsb z =
     (case zip_next nxta nxtb z of None \<Rightarrow> [] | Some (x, z') \<Rightarrow> x # zip_items itemsa itemsb z')"
proof (cases z)
  case (ZipNone a)
  then show ?thesis
    by (subst (2) ZipNone, simp add: zip_spec_def, subst fst_it.items_nxt)
      (auto simp: zip_spec_def split: option.splits)
next
  case (ZipSome a b)
  show ?thesis
  proof (cases "nxta a")
    case None
    then show ?thesis
      using ZipSome fst_it.nxt_None_iff [of a] by (simp add: zip_spec_def)
  next
    case (Some p)
    obtain x a' where p: "p = (x, a')" by (cases p)
    show ?thesis
    proof (cases "nxtb b")
      case None
      then show ?thesis
        using ZipSome Some snd_it.nxt_None_iff [of b] by (simp add: zip_spec_def p)
    next
      case (Some q)
      obtain y b' where q: "q = (y, b')" by (cases q)
      then show ?thesis
        using ZipSome \<open>nxta a = Some p\<close> Some fst_it.nxt_Some [of a x a'] snd_it.nxt_Some [of b y b']
        by (simp add: zip_spec_def p)
    qed
  qed
qed

end

sublocale iterator_pair \<subseteq> zipped: iterator "zip_next nxta nxtb" "zip_items itemsa itemsb"
  by unfold_locales (rule zip_items_step)

interpretation zip_vec: iterator_pair vec_next "\<lambda>xs. xs" vec_next "\<lambda>xs. xs"
  by unfold_locales

text \<open>The iterator the bridge builds: identifiers with optional URIs, then with optional data.\<close>

interpretation zip_zip_vec:
  iterator_pair "zip_next vec_next vec_next" "zip_items (\<lambda>xs. xs) (\<lambda>xs. xs)" vec_next "\<lambda>xs. xs"
  by unfold_locales

section \<open>Draining an iterator\<close>

text \<open>A \<^verbatim>\<open>for\<close> loop or a fold calls \<^verbatim>\<open>next\<close> until it returns \<open>None\<close>.\<close>

fun drain :: "nat \<Rightarrow> ('i \<Rightarrow> ('a \<times> 'i) option) \<Rightarrow> 'i \<Rightarrow> 'a list option" where
  "drain 0 nxt i = None"
| "drain (Suc n) nxt i =
     (case nxt i of None \<Rightarrow> Some [] | Some (x, i') \<Rightarrow> map_option ((#) x) (drain n nxt i'))"

context iterator
begin

lemma drain_items: "length (items i) < n \<Longrightarrow> drain n nxt i = Some (items i)"
proof (induction n arbitrary: i)
  case 0
  then show ?case by simp
next
  case (Suc n)
  show ?case
  proof (cases "nxt i")
    case None
    then show ?thesis using nxt_None_iff [of i] by simp
  next
    case (Some p)
    obtain x i' where p: "p = (x, i')" by (cases p)
    with Some have "items i = x # items i'" by (simp add: nxt_Some)
    with Suc Some p show ?thesis by simp
  qed
qed

end

text \<open>
  The pairs the bridge folds over: the zipped iterator drained. Every call of \<^verbatim>\<open>next\<close> takes an
  identifier, so one call more than there are identifiers reaches the end.
\<close>

definition zip_tokens ::
  "'a list \<Rightarrow> 'b list option \<Rightarrow> 'c list option \<Rightarrow> (('a \<times> 'b option) \<times> 'c option) list" where
  "zip_tokens ids uris datas =
     (case drain (Suc (length ids)) (zip_next (zip_next vec_next vec_next) vec_next)
             (zip_optional (zip_optional ids uris) datas) of
        Some xs \<Rightarrow> xs
      | None \<Rightarrow> [])"

lemma zip_items_optional:
  "zip_items (zip_items (\<lambda>xs. xs) (\<lambda>xs. xs)) (\<lambda>xs. xs) (zip_optional (zip_optional ids uris) datas) =
     zip_spec (zip_spec ids uris) datas"
  by (cases uris; cases datas) simp_all

lemma length_zip_spec_le: "length (zip_spec xs ys) \<le> length xs"
  by (auto simp: zip_spec_def split: option.splits)

lemma zip_zip_drain:
  assumes "length ids < n"
  shows "drain n (zip_next (zip_next vec_next vec_next) vec_next)
     (zip_optional (zip_optional ids uris) datas) = Some (zip_spec (zip_spec ids uris) datas)"
proof -
  have "length (zip_spec (zip_spec ids uris) datas) < n"
    using assms length_zip_spec_le [of ids uris] length_zip_spec_le [of "zip_spec ids uris" datas] by linarith
  with zip_zip_vec.zipped.drain_items [of "zip_optional (zip_optional ids uris) datas" n] show ?thesis
    by (simp add: zip_items_optional)
qed

lemma zip_tokens_spec: "zip_tokens ids uris datas = zip_spec (zip_spec ids uris) datas"
  by (simp only: zip_tokens_def zip_zip_drain [OF lessI] option.case)

text \<open>An optional list is complete for the identifiers when it is absent or has their length.\<close>

definition opt_len_ok :: "'b list option \<Rightarrow> 'a list \<Rightarrow> bool" where
  "opt_len_ok ys xs \<longleftrightarrow> (case ys of None \<Rightarrow> True | Some l \<Rightarrow> length l = length xs)"

lemma length_zip_spec: "opt_len_ok ys xs \<Longrightarrow> length (zip_spec xs ys) = length xs"
  by (auto simp: zip_spec_def opt_len_ok_def split: option.splits)

lemma map_fst_zip_spec: "opt_len_ok ys xs \<Longrightarrow> map fst (zip_spec xs ys) = xs"
  by (auto simp: zip_spec_def opt_len_ok_def comp_def split: option.splits)

lemma opt_len_ok_zip_spec: "opt_len_ok ys xs \<Longrightarrow> opt_len_ok zs (zip_spec xs ys) = opt_len_ok zs xs"
  by (auto simp: opt_len_ok_def length_zip_spec split: option.splits)

lemma map_fst_zip_tokens:
  "opt_len_ok uris ids \<Longrightarrow> opt_len_ok datas ids \<Longrightarrow>
   map (\<lambda>x. fst (fst x)) (zip_tokens ids uris datas) = ids"
proof -
  assume u: "opt_len_ok uris ids" and d: "opt_len_ok datas ids"
  have "map (\<lambda>x. fst (fst x)) (zip_tokens ids uris datas) =
      map fst (map fst (zip_spec (zip_spec ids uris) datas))"
    by (simp add: zip_tokens_spec comp_def)
  also have "\<dots> = ids"
    using u d by (simp add: map_fst_zip_spec opt_len_ok_zip_spec)
  finally show ?thesis .
qed

lemma nth_zip_tokens:
  assumes "opt_len_ok uris ids" and "opt_len_ok datas ids" and "i < length ids"
  shows "zip_tokens ids uris datas ! i =
    ((ids ! i, map_option (\<lambda>l. l ! i) uris), map_option (\<lambda>l. l ! i) datas)"
  using assms
  by (auto simp: zip_tokens_spec zip_spec_def opt_len_ok_def split: option.splits)

lemma length_zip_tokens:
  "opt_len_ok uris ids \<Longrightarrow> opt_len_ok datas ids \<Longrightarrow> length (zip_tokens ids uris datas) = length ids"
  by (simp add: zip_tokens_spec length_zip_spec opt_len_ok_zip_spec)

section \<open>Properties\<close>

text \<open>C33: The zipped iterator ends after at most one call per item of the first iterator and yields what
  zipping the lists yields; when the optional lists are absent or as long as the first one, the
  result has one entry per item, in order, each with the entry of every optional list at its
  position.\<close>

theorem zip_optional_pairs:
  assumes "length ids < n" and "opt_len_ok uris ids" and "opt_len_ok datas ids"
  shows "\<exists>xs. drain n (zip_next (zip_next vec_next vec_next) vec_next)
      (zip_optional (zip_optional ids uris) datas) = Some xs \<and>
    length xs = length ids \<and>
    (\<forall>i < length ids. xs ! i = ((ids ! i, map_option (\<lambda>l. l ! i) uris), map_option (\<lambda>l. l ! i) datas))"
  using zip_zip_drain [OF assms(1), of uris datas] nth_zip_tokens [OF assms(2,3)] length_zip_tokens [OF assms(2,3)]
  by (simp add: zip_tokens_spec)

theorem zip_optional_pairs_witness:
  "\<exists>xs. drain 3 (zip_next (zip_next vec_next vec_next) vec_next)
      (zip_optional (zip_optional [''a'', ''b''] (Some [1 :: nat, 2])) (None :: nat list option)) = Some xs \<and>
    length xs = 2"
  using zip_optional_pairs [of "[''a'', ''b'']" 3 "Some [1 :: nat, 2]" "None :: nat list option"]
  by (auto simp: opt_len_ok_def)

end
