(* ===== verification/Bridge_Helpers.thy ===== *)
theory Bridge_Helpers
  imports Sample_Host Zip_Optional
begin

text \<open>
  \<^verbatim>\<open>ibc_helpers.rs\<close>: class identifier prefixes, acknowledgements, the channel handshake check and the
  validation of packet data. Proved: prefixes are unambiguous between endpoints, acknowledgements
  are read back as they were written, the handshake accepts exactly the ics721-1 unordered
  channels, and validation accepts exactly the well-formed packets.
\<close>

section \<open>Class identifier prefixes\<close>

definition get_endpoint_prefix :: "IbcEndpoint \<Rightarrow> string" where
  "get_endpoint_prefix source = port_id source @ ''/'' @ channel_id source @ ''/''"

definition try_pop_source_prefix :: "IbcEndpoint \<Rightarrow> string \<Rightarrow> string option" where
  "try_pop_source_prefix source cid = strip_prefix (get_endpoint_prefix source) cid"

text \<open>IBC identifiers hold no slash.\<close>

definition slash_free :: "string \<Rightarrow> bool" where
  "slash_free s \<longleftrightarrow> CHR ''/'' \<notin> set s"

definition endpoint_ok :: "IbcEndpoint \<Rightarrow> bool" where
  "endpoint_ok e \<longleftrightarrow> slash_free (port_id e) \<and> slash_free (channel_id e)"

lemma prefix_unique:
  assumes "endpoint_ok e" and "endpoint_ok e'"
    and "get_endpoint_prefix e @ c = get_endpoint_prefix e' @ c'"
  shows "e = e' \<and> c = c'"
proof -
  have eq: "port_id e @ CHR ''/'' # channel_id e @ CHR ''/'' # c =
      port_id e' @ CHR ''/'' # channel_id e' @ CHR ''/'' # c'"
    using assms(3) by (simp add: get_endpoint_prefix_def)
  have port: "port_id e = port_id e' \<and>
      channel_id e @ CHR ''/'' # c = channel_id e' @ CHR ''/'' # c'"
    by (rule split_at_sep_unique [OF eq]) (use assms in \<open>auto simp: endpoint_ok_def slash_free_def\<close>)
  then have "channel_id e = channel_id e' \<and> c = c'"
    by (intro split_at_sep_unique) (use assms in \<open>auto simp: endpoint_ok_def slash_free_def\<close>)
  with port show ?thesis by simp
qed

lemma try_pop_own_prefix [simp]: "try_pop_source_prefix e (get_endpoint_prefix e @ c) = Some c"
  by (simp add: try_pop_source_prefix_def)

lemma try_pop_Some_iff: "try_pop_source_prefix e c = Some r \<longleftrightarrow> c = get_endpoint_prefix e @ r"
  by (simp add: try_pop_source_prefix_def strip_prefix_iff)

lemma try_pop_prefixed:
  assumes "endpoint_ok e" and "endpoint_ok e'"
  shows "try_pop_source_prefix e' (get_endpoint_prefix e @ c) = (if e' = e then Some c else None)"
proof (cases "try_pop_source_prefix e' (get_endpoint_prefix e @ c)")
  case None
  then show ?thesis by auto
next
  case (Some r)
  then have "get_endpoint_prefix e @ c = get_endpoint_prefix e' @ r" by (simp add: try_pop_Some_iff)
  with assms have "e = e' \<and> c = r" by (rule prefix_unique)
  with Some show ?thesis by simp
qed

lemma prefixed_not_slash_free: "\<not> slash_free (get_endpoint_prefix e @ c)"
  by (simp add: slash_free_def get_endpoint_prefix_def)

section \<open>Acknowledgements\<close>

definition ack_success :: "host \<Rightarrow> ('e, binary) outcome" where
  "ack_success h = unwrap (to_binary_ack h (AckResult ''1''))"

definition ack_fail :: "host \<Rightarrow> string \<Rightarrow> ('e, binary) outcome" where
  "ack_fail h err = unwrap (to_binary_ack h (AckError err))"

text \<open>What cannot be parsed is an error whose text is the base64 form of the bytes.\<close>

definition try_get_ack_error :: "host \<Rightarrow> binary \<Rightarrow> ('e, string option) outcome" where
  "try_get_ack_error h ack =
     (case from_binary_ack h ack of
        Ok (AckError e) \<Rightarrow> Ok (Some e)
      | Ok (AckResult _) \<Rightarrow> Ok None
      | Err _ \<Rightarrow> Ok (Some (to_base64 h ack))
      | Panic p \<Rightarrow> Panic p)"

text \<open>The JSON encoding of acknowledgements succeeds and is decoded to what was encoded.\<close>

definition ack_codec_ok :: "host \<Rightarrow> bool" where
  "ack_codec_ok h \<longleftrightarrow> (\<forall>a. \<exists>b. to_binary_ack h a = Ok b \<and> from_binary_ack h b = Ok a)"

lemma ack_codec_okE:
  assumes "ack_codec_ok h"
  obtains b where "to_binary_ack h a = Ok b" and "from_binary_ack h b = Ok a"
  using assms unfolding ack_codec_ok_def by blast

lemma ack_success_readback:
  assumes "ack_codec_ok h"
  shows "\<exists>b. ack_success h = Ok b \<and> try_get_ack_error h b = Ok None"
proof -
  obtain b where "to_binary_ack h (AckResult ''1'') = Ok b" "from_binary_ack h b = Ok (AckResult ''1'')"
    by (rule ack_codec_okE [OF assms])
  then show ?thesis by (simp add: ack_success_def try_get_ack_error_def)
qed

lemma ack_fail_readback:
  assumes "ack_codec_ok h"
  shows "\<exists>b. ack_fail h e = Ok b \<and> try_get_ack_error h b = Ok (Some e)"
proof -
  obtain b where "to_binary_ack h (AckError e) = Ok b" "from_binary_ack h b = Ok (AckError e)"
    by (rule ack_codec_okE [OF assms])
  then show ?thesis by (simp add: ack_fail_def try_get_ack_error_def)
qed

lemma sample_host_ack_codec: "ack_codec_ok sample_host"
  unfolding ack_codec_ok_def
proof
  fix a
  show "\<exists>b. to_binary_ack sample_host a = Ok b \<and> from_binary_ack sample_host b = Ok a"
    by (cases a) (simp_all add: sample_enc_ack_def sample_ack_codec)
qed

lemma ack_codec_ok_update [simp]:
  "ack_codec_ok (h\<lparr>from_binary_packet := f\<rparr>) = ack_codec_ok h"
  "ack_codec_ok (h\<lparr>from_binary_outgoing := g\<rparr>) = ack_codec_ok h"
  by (simp_all add: ack_codec_ok_def)

section \<open>Channel handshake\<close>

definition IBC_VERSION :: string where
  "IBC_VERSION = ''ics721-1''"

definition validate_order_and_version ::
  "IbcChannel \<Rightarrow> string option \<Rightarrow> (ContractError, unit) outcome" where
  "validate_order_and_version channel cv =
     (if order channel \<noteq> Unordered then Err OrderedChannel
      else if version channel \<noteq> IBC_VERSION then Err (InvalidVersion (version channel) IBC_VERSION)
      else
        case cv of
          Some v \<Rightarrow> if v \<noteq> IBC_VERSION then Err (InvalidVersion v IBC_VERSION) else Ok ()
        | None \<Rightarrow> Ok ())"

text \<open>
  The contract of a handshake check, shared by the bridge and by the testing contract that plays
  its counterparty: exactly the unordered channels of the right version pass, when the
  counterparty's version is known it must be the same, and a rejection names what is wrong.
\<close>

locale ics721_handshake =
  fixes validate :: "IbcChannel \<Rightarrow> string option \<Rightarrow> ('e, unit) outcome"
    and vsn :: string
    and ordered_error :: 'e
    and version_error :: "string \<Rightarrow> string \<Rightarrow> 'e"
  assumes validate_ok_iff:
      "validate c cv = Ok () \<longleftrightarrow> order c = Unordered \<and> version c = vsn \<and> cv \<in> {None, Some vsn}"
    and validate_ordered: "order c = Ordered \<Longrightarrow> validate c cv = Err ordered_error"
    and validate_version:
      "order c = Unordered \<Longrightarrow> version c \<noteq> vsn \<Longrightarrow> validate c cv = Err (version_error (version c) vsn)"
    and validate_counterparty:
      "order c = Unordered \<Longrightarrow> version c = vsn \<Longrightarrow> v \<noteq> vsn \<Longrightarrow>
       validate c (Some v) = Err (version_error v vsn)"
begin

lemma validate_total: "validate c cv = Ok () \<or> (\<exists>e. validate c cv = Err e)"
proof (cases "order c")
  case Ordered
  then show ?thesis using validate_ordered by blast
next
  case Unordered
  then show ?thesis
    using validate_ok_iff [of c cv] validate_version [of c cv] validate_counterparty [of c]
    by (cases "version c = vsn"; cases cv) auto
qed

end

interpretation bridge_handshake:
  ics721_handshake validate_order_and_version IBC_VERSION OrderedChannel InvalidVersion
proof unfold_locales
  fix c cv
  show "validate_order_and_version c cv = Ok () \<longleftrightarrow>
      order c = Unordered \<and> version c = IBC_VERSION \<and> cv \<in> {None, Some IBC_VERSION}"
    by (auto simp: validate_order_and_version_def split: option.splits)
qed (auto simp: validate_order_and_version_def)

section \<open>Packet validation\<close>

text \<open>The macro \<^verbatim>\<open>non_empty_optional!\<close>: true when the value is present and empty.\<close>

definition empty_optional :: "string option \<Rightarrow> bool" where
  "empty_optional e = map_or False (\<lambda>d. d = []) e"

definition validate :: "NonFungibleTokenPacketData \<Rightarrow> (ContractError, unit) outcome" where
  "validate d =
     (if class_id_str (class_id d) = [] then Err EmptyClassId
      else if empty_optional (class_uri d) then Err EmptyOptional
      else if empty_optional (class_data d) then Err EmptyOptional
      else
        let token_count = length (token_ids d)
        in if token_count = 0 then Err NoTokens
           else if map_or False (\<lambda>l. length l \<noteq> token_count) (token_data d)
             \<or> map_or False (\<lambda>l. length l \<noteq> token_count) (token_uris d)
           then Err TokenInfoLenMissmatch
           else Ok ())"

definition packet_wf :: "NonFungibleTokenPacketData \<Rightarrow> bool" where
  "packet_wf d \<longleftrightarrow>
     class_id d \<noteq> ClassId [] \<and> class_uri d \<noteq> Some [] \<and> class_data d \<noteq> Some [] \<and>
     token_ids d \<noteq> [] \<and> opt_len_ok (token_uris d) (token_ids d) \<and>
     opt_len_ok (token_data d) (token_ids d)"

lemma ClassId_eq_iff: "c = ClassId s \<longleftrightarrow> class_id_str c = s"
  by (cases c) auto

lemma empty_optional_iff [simp]: "empty_optional v \<longleftrightarrow> v = Some []"
  by (cases v) (auto simp: empty_optional_def)

lemma validate_Ok_iff: "validate d = Ok () \<longleftrightarrow> packet_wf d"
  by (cases "token_data d"; cases "token_uris d")
    (auto simp: validate_def packet_wf_def ClassId_eq_iff opt_len_ok_def Let_def)

lemma validate_Err: "\<not> packet_wf d \<Longrightarrow> \<exists>e. validate d = Err e"
  using validate_Ok_iff [of d] by (auto simp: validate_def Let_def split: if_splits)

section \<open>Properties\<close>

text \<open>C28: For endpoints with slash-free identifiers, the prefix of one endpoint is stripped from a
  class identifier only where that very endpoint put it: a class identifier cannot be mistaken
  for one that came through another channel or port, and stripping recovers the original.\<close>

theorem source_prefix_roundtrip:
  assumes "endpoint_ok e" and "endpoint_ok e'"
  shows "try_pop_source_prefix e' (get_endpoint_prefix e @ c) = (if e' = e then Some c else None)"
  using assms by (rule try_pop_prefixed)

theorem source_prefix_roundtrip_witness:
  "try_pop_source_prefix \<lparr>port_id = ''wasm.a'', channel_id = ''channel-1''\<rparr>
     (get_endpoint_prefix \<lparr>port_id = ''wasm.a'', channel_id = ''channel-10''\<rparr> @ ''addr'') = None"
  using source_prefix_roundtrip
    [of "\<lparr>port_id = ''wasm.a'', channel_id = ''channel-10''\<rparr>" "\<lparr>port_id = ''wasm.a'', channel_id = ''channel-1''\<rparr>" "''addr''"]
  by (simp add: endpoint_ok_def slash_free_def)


text \<open>C30: Acknowledgements are read back as written: a success acknowledgement carries no error,
  a failure acknowledgement carries exactly the error text, and bytes that do not parse count as
  a failure.\<close>

theorem ack_roundtrip:
  assumes "ack_codec_ok h"
  shows "(\<exists>b. ack_success h = Ok b \<and> try_get_ack_error h b = Ok None) \<and>
    (\<exists>b. ack_fail h e = Ok b \<and> try_get_ack_error h b = Ok (Some e)) \<and>
    (from_binary_ack h junk = Err pe \<longrightarrow> try_get_ack_error h junk = Ok (Some (to_base64 h junk)))"
proof (intro conjI impI)
  show "\<exists>b. ack_success h = Ok b \<and> try_get_ack_error h b = Ok None"
    by (rule ack_success_readback [OF assms])
  show "\<exists>b. ack_fail h e = Ok b \<and> try_get_ack_error h b = Ok (Some e)"
    by (rule ack_fail_readback [OF assms])
  show "try_get_ack_error h junk = Ok (Some (to_base64 h junk))" if "from_binary_ack h junk = Err pe"
    using that by (simp add: try_get_ack_error_def)
qed

theorem ack_roundtrip_witness:
  "ack_codec_ok sample_host \<and>
   (\<exists>b. ack_fail sample_host ''unauthorized'' = (Ok b :: (ContractError, binary) outcome) \<and>
      try_get_ack_error sample_host b = (Ok (Some ''unauthorized'') :: (ContractError, string option) outcome))"
  using sample_host_ack_codec ack_roundtrip [OF sample_host_ack_codec, where e = "''unauthorized''"] by blast

end
