(* ===== verification/Bridge_Contract.thy ===== *)
theory Bridge_Contract
  imports Bridge_Helpers
begin

text \<open>
  \<^verbatim>\<open>contract.rs\<close>: instantiation, the execute handlers (receiving an NFT directly or through the
  proxy, pausing, and the callbacks the contract sends to itself), queries and migration, each
  a program over the bridge's storage with its early returns in the order of the source.
\<close>

section \<open>Constants\<close>

definition CONTRACT_NAME :: string where
  "CONTRACT_NAME = ''crates.io:cw-ics721-bridge''"

definition CONTRACT_VERSION :: string where
  "CONTRACT_VERSION = ''0.0.1''"

definition INSTANTIATE_CW721_REPLY_ID :: u64 where
  "INSTANTIATE_CW721_REPLY_ID = 0"

definition INSTANTIATE_PROXY_REPLY_ID :: u64 where
  "INSTANTIATE_PROXY_REPLY_ID = 1"

definition ACK_AND_DO_NOTHING :: u64 where
  "ACK_AND_DO_NOTHING = 2"

text \<open>A call into the host, its \<^verbatim>\<open>StdError\<close> converted by \<^verbatim>\<open>?\<close>.\<close>

definition std :: "(StdError, 'a) outcome \<Rightarrow> ('s, ContractError, 'a) prog" where
  "std r = lift (map_err Std r)"

lemma std_run [prog_simps]: "std r s = (map_err Std r, s)"
  by (simp add: std_def lift_def)

lemma std_Ok_iff [prog_iffs]: "std r s = (Ok x, t) \<longleftrightarrow> r = Ok x \<and> t = s"
  by (auto simp: std_def lift_def)

lemma bnd_std [simp, prog_simps]:
  "bnd (std (Ok x)) f = f x" "bnd (std (Err e)) f = throw (Std e)"
  by (auto simp: std_def prog_defs fun_eq_iff)

lemma readonly_std [simp, intro]: "readonly (std r)"
  by (simp add: std_def)

section \<open>Instantiation\<close>

definition instantiate :: "host \<Rightarrow> Env \<Rightarrow> InstantiateMsg \<Rightarrow> (Bridge, ContractError, Response) prog" where
  "instantiate h env msg =
     bnd (writes (contract_version_update (\<lambda>_. Some (CONTRACT_NAME, CONTRACT_VERSION)))) (\<lambda>_.
     bnd (writes (CW721_CODE_ID_update (\<lambda>_. Some (cw721_base_code_id msg)))) (\<lambda>_.
     bnd (writes (PROXY_update (\<lambda>_. Some None))) (\<lambda>_.
     bnd (err_into Std (with_po (set_pauser (addr_validate h) (init_pauser msg)))) (\<lambda>_.
     ret (response
       (map_or [] (\<lambda>s. [s])
         (map_option (\<lambda>wasm. reply_on_success wasm INSTANTIATE_PROXY_REPLY_ID)
           (map_option (\<lambda>m. cii_into_wasm_msg m (env_contract env)) (init_proxy msg))))
       [(''method'', ''instantiate''),
        (''cw721_code_id'', show_nat (unat (cw721_base_code_id msg)))])))))"

section \<open>Receiving an NFT to send away\<close>

text \<open>The class of the collection that delivered the NFT, registered on first sight.\<close>

definition class_of_contract :: "addr \<Rightarrow> (Bridge, ContractError, Class) prog" where
  "class_of_contract contract =
     bnd (reads (\<lambda>s. NFT_CONTRACT_TO_CLASS_ID s contract)) (\<lambda>known.
     case known of
       Some cid \<Rightarrow> err_into Std (load ''Class'' (\<lambda>s. CLASS_ID_TO_CLASS s cid))
     | None \<Rightarrow>
         let cls = \<lparr>cls_id = ClassId (addr_str contract), cls_uri = None, cls_data = None\<rparr>
         in bnd (writes (contract_class_save contract (cls_id cls))) (\<lambda>_.
            bnd (writes (class_contract_save (cls_id cls) contract)) (\<lambda>_.
            bnd (writes (class_save (cls_id cls) cls)) (\<lambda>_.
            ret cls))))"

definition outgoing_packet ::
  "Class \<Rightarrow> TokenId \<Rightarrow> string option \<Rightarrow> binary option \<Rightarrow> addr \<Rightarrow> IbcOutgoingMsg \<Rightarrow>
     NonFungibleTokenPacketData" where
  "outgoing_packet cls token_id token_uri token_metadata sender_addr msg =
     \<lparr>class_id = cls_id cls, class_uri = cls_uri cls, class_data = cls_data cls,
      token_ids = [token_id],
      token_uris = map_option (\<lambda>uri. [uri]) token_uri,
      token_data = map_option (\<lambda>metadata. [metadata]) token_metadata,
      sender = addr_str sender_addr, receiver = og_receiver msg, memo = og_memo msg\<rparr>"

definition receive_nft ::
  "host \<Rightarrow> MessageInfo \<Rightarrow> TokenId \<Rightarrow> string \<Rightarrow> binary \<Rightarrow> (Bridge, ContractError, Response) prog" where
  "receive_nft h info token_id sndr bin =
     bnd (std (addr_validate h sndr)) (\<lambda>sender_addr.
     bnd (std (from_binary_outgoing h bin)) (\<lambda>msg.
     bnd (class_of_contract (info_sender info)) (\<lambda>cls.
     bnd (std (query_nft_info h (info_sender info) (token_id_str token_id))) (\<lambda>nft_info.
     bnd (at_pair (cls_id cls, token_id) (reads (\<lambda>s. Option.bind (TOKEN_METADATA s (cls_id cls, token_id)) (\<lambda>v. v)))) (\<lambda>token_metadata.
     bnd (std (to_binary_packet h (outgoing_packet cls token_id (nft_token_uri nft_info) token_metadata sender_addr msg))) (\<lambda>bytes.
     bnd (at_pair (cls_id cls, token_id) (writes (outgoing_save (cls_id cls, token_id) (og_channel_id msg)))) (\<lambda>_.
     ret (response
       [submsg_new (Ibc (SendPacket (og_channel_id msg) bytes (og_timeout msg)))]
       [(''method'', ''execute_receive_nft''), (''token_id'', token_id_str token_id),
        (''class_id'', class_id_str (cls_id cls)), (''channel_id'', og_channel_id msg)]))))))))"

definition execute_receive_nft ::
  "host \<Rightarrow> MessageInfo \<Rightarrow> string \<Rightarrow> string \<Rightarrow> binary \<Rightarrow> (Bridge, ContractError, Response) prog" where
  "execute_receive_nft h info token_id sndr msg =
     bnd (err_into Std (load ''Option<Addr>'' PROXY)) (\<lambda>proxy.
     if proxy \<noteq> None then throw Unauthorized
     else receive_nft h info (TokenId token_id) sndr msg)"

definition execute_receive_proxy_nft ::
  "host \<Rightarrow> MessageInfo \<Rightarrow> string \<Rightarrow> Cw721ReceiveMsg \<Rightarrow> (Bridge, ContractError, Response) prog" where
  "execute_receive_proxy_nft h info eyeball msg =
     bnd (err_into Std (load ''Option<Addr>'' PROXY)) (\<lambda>proxy.
     if map_or True (\<lambda>p. info_sender info \<noteq> p) proxy then throw Unauthorized
     else
       bnd (std (addr_validate h eyeball)) (\<lambda>collection.
       receive_nft h (info\<lparr>info_sender := collection\<rparr>) (TokenId (crm_token_id msg))
         (crm_sender msg) (crm_msg msg)))"

definition execute_pause :: "MessageInfo \<Rightarrow> (Bridge, ContractError, Response) prog" where
  "execute_pause info =
     bnd (err_into Pause (with_po (pause (info_sender info)))) (\<lambda>_.
     ret (response [] [(''method'', ''pause'')]))"

section \<open>Callbacks\<close>

definition mint_msg :: "host \<Rightarrow> addr \<Rightarrow> addr \<Rightarrow> Token \<Rightarrow> (StdError, WasmMsg) outcome" where
  "mint_msg h cw721_addr recv tok =
     map_ok (WasmExecute (addr_str cw721_addr))
       (to_binary_cw721 h (Mint (token_id_str (tok_id tok)) (addr_str recv) (tok_uri tok)))"

definition callback_mint ::
  "host \<Rightarrow> ClassId \<Rightarrow> Token list \<Rightarrow> string \<Rightarrow> (Bridge, ContractError, Response) prog" where
  "callback_mint h cid tokens recv =
     bnd (std (addr_validate h recv)) (\<lambda>recv_addr.
     bnd (err_into Std (load ''Addr'' (\<lambda>s. CLASS_ID_TO_NFT_CONTRACT s cid))) (\<lambda>cw721_addr.
     bnd (err_into Std (traverse
       (\<lambda>tok.
          bnd (at_pair (cid, tok_id tok) (writes (metadata_save (cid, tok_id tok) (tok_data tok)))) (\<lambda>_.
          lift (mint_msg h cw721_addr recv_addr tok)))
       tokens)) (\<lambda>mint.
     ret (response (map (\<lambda>m. submsg_new (Wasm m)) mint) [(''method'', ''callback_mint'')]))))"

definition callback_create_vouchers ::
  "host \<Rightarrow> Env \<Rightarrow> string \<Rightarrow> VoucherCreation \<Rightarrow> (Bridge, ContractError, Response) prog" where
  "callback_create_vouchers h env recv create =
     (let cls = vc_class create; tokens = vc_tokens create; cid = cls_id cls in
      bnd (reads (\<lambda>s. CLASS_ID_TO_NFT_CONTRACT s cid \<noteq> None)) (\<lambda>has.
      bnd (if has then ret []
           else
             bnd (err_into Std (load ''u64'' CW721_CODE_ID)) (\<lambda>code_id.
             bnd (std (to_binary_cw721_init h
               \<lparr>ci_name = class_id_str cid, ci_symbol = class_id_str cid,
                ci_minter = addr_str (env_contract env)\<rparr>)) (\<lambda>init.
             ret [reply_on_success
               (WasmInstantiate None code_id init ''ics-721 debt-voucher cw-721'')
               INSTANTIATE_CW721_REPLY_ID]))) (\<lambda>instantiate_msgs.
      bnd (writes (class_save cid cls)) (\<lambda>_.
      bnd (std (to_binary_execute h (Callback (CallbackMint cid recv tokens)))) (\<lambda>bytes.
      ret (response
        (instantiate_msgs @ [submsg_new (Wasm (WasmExecute (addr_str (env_contract env)) bytes))])
        [(''method'', ''callback_create_vouchers'')]))))))"

definition transfer_msg :: "host \<Rightarrow> addr \<Rightarrow> addr \<Rightarrow> TokenId \<Rightarrow> (StdError, WasmMsg) outcome" where
  "transfer_msg h nft_contract recv token_id =
     map_ok (WasmExecute (addr_str nft_contract))
       (to_binary_cw721 h (TransferNft (addr_str recv) (token_id_str token_id)))"

definition callback_redeem_vouchers ::
  "host \<Rightarrow> string \<Rightarrow> VoucherRedemption \<Rightarrow> (Bridge, ContractError, Response) prog" where
  "callback_redeem_vouchers h recv redeem =
     bnd (err_into Std (load ''Addr'' (\<lambda>s. CLASS_ID_TO_NFT_CONTRACT s (cls_id (vr_class redeem))))) (\<lambda>nft_contract.
     bnd (std (addr_validate h recv)) (\<lambda>recv_addr.
     bnd (err_into Std (traverse (\<lambda>t. lift (transfer_msg h nft_contract recv_addr t)) (vr_token_ids redeem))) (\<lambda>msgs.
     ret (response (map (\<lambda>m. submsg_new (Wasm m)) msgs) [(''method'', ''callback_redeem_vouchers'')]))))"

definition execute_callback ::
  "host \<Rightarrow> Env \<Rightarrow> MessageInfo \<Rightarrow> CallbackMsg \<Rightarrow> (Bridge, ContractError, Response) prog" where
  "execute_callback h env info msg =
     (if info_sender info \<noteq> env_contract env then throw Unauthorized
      else
        case msg of
          CreateVouchers recv create \<Rightarrow> callback_create_vouchers h env recv create
        | RedeemVouchers recv redeem \<Rightarrow> callback_redeem_vouchers h recv redeem
        | CallbackMint cid recv tokens \<Rightarrow> callback_mint h cid tokens recv
        | Conjunction ops \<Rightarrow> ret (response (map (\<lambda>m. submsg_new (Wasm m)) ops) []))"

definition execute ::
  "host \<Rightarrow> Env \<Rightarrow> MessageInfo \<Rightarrow> ExecuteMsg \<Rightarrow> (Bridge, ContractError, Response) prog" where
  "execute h env info msg =
     bnd (err_into Pause (with_po error_if_paused)) (\<lambda>_.
     case msg of
       ReceiveNft m \<Rightarrow> execute_receive_nft h info (crm_token_id m) (crm_sender m) (crm_msg m)
     | ReceiveProxyNft eyeball m \<Rightarrow> execute_receive_proxy_nft h info eyeball m
     | ExecutePause \<Rightarrow> execute_pause info
     | Callback m \<Rightarrow> execute_callback h env info m)"

section \<open>Queries\<close>

definition query_class_id_for_nft_contract ::
  "host \<Rightarrow> string \<Rightarrow> (Bridge, StdError, ClassId option) prog" where
  "query_class_id_for_nft_contract h contract =
     bnd (lift (addr_validate h contract)) (\<lambda>a. reads (\<lambda>s. NFT_CONTRACT_TO_CLASS_ID s a))"

definition query_nft_contract_for_class_id :: "string \<Rightarrow> (Bridge, StdError, addr option) prog" where
  "query_nft_contract_for_class_id cid = reads (\<lambda>s. CLASS_ID_TO_NFT_CONTRACT s (ClassId cid))"

definition query_class_metadata :: "string \<Rightarrow> (Bridge, StdError, Class option) prog" where
  "query_class_metadata cid = reads (\<lambda>s. CLASS_ID_TO_CLASS s (ClassId cid))"

text \<open>The \<^verbatim>\<open>debug_assert!\<close> of the second early return is compiled out of the release profile.\<close>

definition query_token_metadata ::
  "host \<Rightarrow> string \<Rightarrow> string \<Rightarrow> (Bridge, StdError, Token option) prog" where
  "query_token_metadata h cid tid =
     bnd (at_pair (ClassId cid, TokenId tid) (reads (\<lambda>s. TOKEN_METADATA s (ClassId cid, TokenId tid)))) (\<lambda>md.
     case md of
       None \<Rightarrow> ret None
     | Some token_metadata \<Rightarrow>
         bnd (reads (\<lambda>s. CLASS_ID_TO_NFT_CONTRACT s (ClassId cid))) (\<lambda>nc.
         case nc of
           None \<Rightarrow> ret None
         | Some token_contract \<Rightarrow>
             bnd (lift (query_nft_info h token_contract tid)) (\<lambda>nft_info.
             ret (Some \<lparr>tok_id = TokenId tid, tok_uri = nft_token_uri nft_info, tok_data = token_metadata\<rparr>))))"

definition query_owner :: "host \<Rightarrow> string \<Rightarrow> string \<Rightarrow> (Bridge, StdError, OwnerOfResponse) prog" where
  "query_owner h cid tid =
     bnd (load ''Addr'' (\<lambda>s. CLASS_ID_TO_NFT_CONTRACT s (ClassId cid))) (\<lambda>c.
     lift (query_owner_of h c tid))"

definition query :: "host \<Rightarrow> QueryMsg \<Rightarrow> (Bridge, StdError, binary) prog" where
  "query h msg =
     (let enc = (\<lambda>r. lift (to_binary_query h r)) in
      case msg of
        QueryClassId contract \<Rightarrow>
          bnd (query_class_id_for_nft_contract h contract) (\<lambda>v. enc (RespClassId v))
      | QueryNftContract cid \<Rightarrow> bnd (query_nft_contract_for_class_id cid) (\<lambda>v. enc (RespAddr v))
      | QueryClassMetadata cid \<Rightarrow> bnd (query_class_metadata cid) (\<lambda>v. enc (RespClass v))
      | QueryTokenMetadata cid tid \<Rightarrow> bnd (query_token_metadata h cid tid) (\<lambda>v. enc (RespToken v))
      | QueryOwner cid tid \<Rightarrow> bnd (query_owner h cid tid) (\<lambda>v. enc (RespOwner v))
      | QueryPauser \<Rightarrow> bnd (with_po query_pauser) (\<lambda>v. enc (RespAddr v))
      | QueryPaused \<Rightarrow> bnd (with_po query_paused) (\<lambda>v. enc (RespBool v))
      | QueryProxy \<Rightarrow> bnd (load ''Option<Addr>'' PROXY) (\<lambda>v. enc (RespAddr v)))"

section \<open>Migration\<close>

definition migrate :: "host \<Rightarrow> MigrateMsg \<Rightarrow> (Bridge, ContractError, Response) prog" where
  "migrate h msg =
     (case msg of
        WithUpdate new_pauser new_proxy \<Rightarrow>
          bnd (std (map_transpose (addr_validate h) new_proxy)) (\<lambda>proxy.
          bnd (writes (PROXY_update (\<lambda>_. Some proxy))) (\<lambda>_.
          bnd (err_into Std (with_po (set_pauser (addr_validate h) new_pauser))) (\<lambda>_.
          ret (response [] [(''method'', ''migrate'')])))))"

section \<open>Messages to collections and to itself\<close>

text \<open>The JSON encoding of cw721 messages succeeds; \<open>enc\<close> names its result.\<close>

definition cw721_encoder :: "host \<Rightarrow> (Cw721ExecuteMsg \<Rightarrow> binary) \<Rightarrow> bool" where
  "cw721_encoder h enc \<longleftrightarrow> (\<forall>m. to_binary_cw721 h m = Ok (enc m))"

text \<open>A message to a cw721 collection.\<close>

definition cw721_call :: "(Cw721ExecuteMsg \<Rightarrow> binary) \<Rightarrow> addr \<Rightarrow> Cw721ExecuteMsg \<Rightarrow> SubMsg" where
  "cw721_call enc collection m = submsg_new (Wasm (WasmExecute (addr_str collection) (enc m)))"

definition transfer_call :: "(Cw721ExecuteMsg \<Rightarrow> binary) \<Rightarrow> addr \<Rightarrow> addr \<Rightarrow> TokenId \<Rightarrow> SubMsg" where
  "transfer_call enc collection recv t =
     cw721_call enc collection (TransferNft (addr_str recv) (token_id_str t))"

lemma transfer_msg_Ok:
  "cw721_encoder h enc \<Longrightarrow>
   transfer_msg h a recv t = Ok (WasmExecute (addr_str a) (enc (TransferNft (addr_str recv) (token_id_str t))))"
  by (simp add: transfer_msg_def cw721_encoder_def)

text \<open>
  The JSON encoding of the contract's own messages succeeds; \<open>enc\<close> names its result. A call of
  the contract to itself carries a callback.
\<close>

definition execute_encoder :: "host \<Rightarrow> (ExecuteMsg \<Rightarrow> binary) \<Rightarrow> bool" where
  "execute_encoder h enc \<longleftrightarrow> (\<forall>m. to_binary_execute h m = Ok (enc m))"

definition self_call :: "(ExecuteMsg \<Rightarrow> binary) \<Rightarrow> addr \<Rightarrow> CallbackMsg \<Rightarrow> WasmMsg" where
  "self_call enc self m = WasmExecute (addr_str self) (enc (Callback m))"

lemma sample_encoders [simp]:
  "execute_encoder sample_host code_execute" "cw721_encoder sample_host code_cw721"
  "execute_encoder (h\<lparr>from_binary_packet := f\<rparr>) enc = execute_encoder h enc"
  "cw721_encoder (h\<lparr>from_binary_packet := f\<rparr>) enc' = cw721_encoder h enc'"
  by (simp_all add: execute_encoder_def cw721_encoder_def)

section \<open>Behaviour of the handlers\<close>

text \<open>The class of a collection seen for the first time, and the storage once it is registered.\<close>

definition fresh_class :: "addr \<Rightarrow> Class" where
  "fresh_class a = \<lparr>cls_id = ClassId (addr_str a), cls_uri = None, cls_data = None\<rparr>"

definition with_class :: "addr \<Rightarrow> Bridge \<Rightarrow> Bridge" where
  "with_class a s =
     s\<lparr>NFT_CONTRACT_TO_CLASS_ID := (NFT_CONTRACT_TO_CLASS_ID s)(a \<mapsto> ClassId (addr_str a)),
       CLASS_ID_TO_NFT_CONTRACT := (CLASS_ID_TO_NFT_CONTRACT s)(ClassId (addr_str a) \<mapsto> a),
       CLASS_ID_TO_CLASS := (CLASS_ID_TO_CLASS s)(ClassId (addr_str a) \<mapsto> fresh_class a)\<rparr>"

lemma class_of_contract_run:
  "class_of_contract a s =
     (case NFT_CONTRACT_TO_CLASS_ID s a of
        None \<Rightarrow> (Ok (fresh_class a), with_class a s)
      | Some cid \<Rightarrow>
          (case CLASS_ID_TO_CLASS s cid of
             None \<Rightarrow> (Err (Std (NotFound ''Class'')), s)
           | Some cls \<Rightarrow> (Ok cls, s)))"
  by (auto simp: class_of_contract_def prog_defs load_def fresh_class_def with_class_def store_defs
      Let_def split: option.splits)

lemma class_of_contract_cases:
  assumes "class_of_contract a s = (Ok cls, s1)"
  obtains (first_seen) "NFT_CONTRACT_TO_CLASS_ID s a = None" "cls = fresh_class a" "s1 = with_class a s"
  | (known) cid where "NFT_CONTRACT_TO_CLASS_ID s a = Some cid" "CLASS_ID_TO_CLASS s cid = Some cls" "s1 = s"
  using assms by (auto simp: class_of_contract_run split: option.splits)

definition sent_response ::
  "Class \<Rightarrow> TokenId \<Rightarrow> IbcOutgoingMsg \<Rightarrow> binary \<Rightarrow> Response" where
  "sent_response cls tid msg bytes =
     response
       [submsg_new (Ibc (SendPacket (og_channel_id msg) bytes (og_timeout msg)))]
       [(''method'', ''execute_receive_nft''), (''token_id'', token_id_str tid),
        (''class_id'', class_id_str (cls_id cls)), (''channel_id'', og_channel_id msg)]"

definition stored_data :: "Bridge \<Rightarrow> Class \<Rightarrow> TokenId \<Rightarrow> binary option" where
  "stored_data s cls tid = Option.bind (TOKEN_METADATA s (cls_id cls, tid)) (\<lambda>v. v)"

lemma with_class_metadata [simp]: "TOKEN_METADATA (with_class a s) = TOKEN_METADATA s"
  by (simp add: with_class_def)

lemma class_of_contract_metadata:
  "class_of_contract a s = (Ok cls, s1) \<Longrightarrow> TOKEN_METADATA s1 = TOKEN_METADATA s"
  by (erule class_of_contract_cases) auto

lemma receive_nft_Ok_iff:
  "receive_nft h info tid sndr bin s = (Ok resp, t) \<longleftrightarrow>
     (\<exists>sender_addr msg cls s1 uri bytes.
        addr_validate h sndr = Ok sender_addr \<and> from_binary_outgoing h bin = Ok msg \<and>
        class_of_contract (info_sender info) s = (Ok cls, s1) \<and> class_key_fits (cls_id cls) \<and>
        query_nft_info h (info_sender info) (token_id_str tid) = Ok (UniversalNftInfoResponse uri ()) \<and>
        to_binary_packet h (outgoing_packet cls tid uri (stored_data s cls tid) sender_addr msg) = Ok bytes \<and>
        resp = sent_response cls tid msg bytes \<and>
        t = outgoing_save (cls_id cls, tid) (og_channel_id msg) s1)"
  by (fastforce simp: receive_nft_def prog_iffs sent_response_def stored_data_def
      dest: class_of_contract_metadata)

lemma execute_Ok_iff:
  "execute h env info msg s = (Ok resp, t) \<longleftrightarrow>
     paused (PO s) = Some False \<and>
     (case msg of
        ReceiveNft m \<Rightarrow> execute_receive_nft h info (crm_token_id m) (crm_sender m) (crm_msg m) s
      | ReceiveProxyNft eyeball m \<Rightarrow> execute_receive_proxy_nft h info eyeball m s
      | ExecutePause \<Rightarrow> execute_pause info s
      | Callback m \<Rightarrow> execute_callback h env info m s) = (Ok resp, t)"
  by (auto simp: execute_def prog_iffs split: ExecuteMsg.splits)

lemma execute_paused:
  "paused (PO s) = Some True \<Longrightarrow> execute h env info msg s = (Err (Pause Paused), s)"
  by (simp add: execute_def bnd_def err_into_def with_po_def zoom_def error_if_paused_run)

lemma execute_receive_nft_Ok_iff:
  "execute_receive_nft h info tid sndr bin s = (Ok resp, t) \<longleftrightarrow>
     PROXY s = Some None \<and> receive_nft h info (TokenId tid) sndr bin s = (Ok resp, t)"
  by (auto simp: execute_receive_nft_def prog_iffs)

lemma execute_receive_proxy_nft_Ok_iff:
  "execute_receive_proxy_nft h info eyeball m s = (Ok resp, t) \<longleftrightarrow>
     (\<exists>c. PROXY s = Some (Some (info_sender info)) \<and> addr_validate h eyeball = Ok c \<and>
        receive_nft h \<lparr>info_sender = c\<rparr> (TokenId (crm_token_id m)) (crm_sender m) (crm_msg m) s = (Ok resp, t))"
  by (cases info) (auto simp: execute_receive_proxy_nft_def prog_iffs map_or_option split: option.splits)

lemma execute_pause_Ok_iff:
  "execute_pause info s = (Ok resp, t) \<longleftrightarrow>
     paused (PO s) = Some False \<and> pauser (PO s) = Some (Some (info_sender info)) \<and>
     t = s\<lparr>PO := (PO s)\<lparr>pauser := Some None, paused := Some True\<rparr>\<rparr> \<and>
     resp = response [] [(''method'', ''pause'')]"
  by (auto simp: execute_pause_def prog_iffs pause_Ok_iff)

lemma execute_callback_Ok_iff:
  "execute_callback h env info m s = (Ok resp, t) \<longleftrightarrow>
     info_sender info = env_contract env \<and>
     (case m of
        CreateVouchers recv create \<Rightarrow> callback_create_vouchers h env recv create s
      | RedeemVouchers recv redeem \<Rightarrow> callback_redeem_vouchers h recv redeem s
      | CallbackMint cid recv tokens \<Rightarrow> callback_mint h cid tokens recv s
      | Conjunction ops \<Rightarrow> ret (response (map (\<lambda>m. submsg_new (Wasm m)) ops) []) s) = (Ok resp, t)"
  by (auto simp: execute_callback_def prog_iffs split: CallbackMsg.splits)

lemma callback_redeem_vouchers_Ok_iff:
  "callback_redeem_vouchers h recv redeem s = (Ok resp, t) \<longleftrightarrow>
     (\<exists>collection a msgs.
        CLASS_ID_TO_NFT_CONTRACT s (cls_id (vr_class redeem)) = Some collection \<and>
        addr_validate h recv = Ok a \<and>
        list_all2 (\<lambda>x y. transfer_msg h collection a x = Ok y) (vr_token_ids redeem) msgs \<and>
        resp = response (map (\<lambda>m. submsg_new (Wasm m)) msgs) [(''method'', ''callback_redeem_vouchers'')] \<and>
        t = s)"
  by (auto simp: callback_redeem_vouchers_def prog_iffs traverse_lift_Ok_iff)

text \<open>The metadata after minting: the last token with a given identifier decides.\<close>

definition minted :: "ClassId \<Rightarrow> Token list \<Rightarrow> Bridge \<Rightarrow> Bridge" where
  "minted cid tokens = fold (\<lambda>tok. metadata_save (cid, tok_id tok) (tok_data tok)) tokens"

lemma callback_mint_Ok_iff:
  "callback_mint h cid tokens recv s = (Ok resp, t) \<longleftrightarrow>
     (\<exists>a collection msgs.
        addr_validate h recv = Ok a \<and> CLASS_ID_TO_NFT_CONTRACT s cid = Some collection \<and>
        (tokens = [] \<or> class_key_fits cid) \<and> list_all2 (\<lambda>x y. mint_msg h collection a x = Ok y) tokens msgs \<and>
        resp = response (map (\<lambda>m. submsg_new (Wasm m)) msgs) [(''method'', ''callback_mint'')] \<and>
        t = minted cid tokens s)"
  by (auto simp: callback_mint_def prog_iffs traverse_at_pair_Ok_iff minted_def)

lemma minted_frame:
  "minted cid tokens s = s\<lparr>TOKEN_METADATA := TOKEN_METADATA (minted cid tokens s)\<rparr>"
  by (simp add: minted_def fold_store_updates)

lemma minted_look:
  "TOKEN_METADATA (minted cid tokens s) k =
     (case map_of (rev (map (\<lambda>tok. ((cid, tok_id tok), tok_data tok)) tokens)) k of
        None \<Rightarrow> TOKEN_METADATA s k | Some v \<Rightarrow> Some v)"
proof -
  have "minted cid tokens s =
      fold (\<lambda>(k, v). metadata_save k v) (map (\<lambda>tok. ((cid, tok_id tok), tok_data tok)) tokens) s"
    by (simp add: minted_def fold_map comp_def)
  then show ?thesis by (simp only: metadata.look_fold_save)
qed

lemma minted_look_distinct:
  assumes "distinct (map tok_id tokens)" and "tok \<in> set tokens"
  shows "TOKEN_METADATA (minted cid tokens s) (cid, tok_id tok) = Some (tok_data tok)"
proof -
  let ?kvs = "rev (map (\<lambda>tok. ((cid, tok_id tok), tok_data tok)) tokens)"
  have "distinct (map fst ?kvs)"
    using assms(1) by (auto simp: rev_map comp_def distinct_map inj_on_def)
  moreover have "((cid, tok_id tok), tok_data tok) \<in> set ?kvs" using assms(2) by force
  ultimately have "map_of ?kvs (cid, tok_id tok) = Some (tok_data tok)"
    by (simp only: map_of_eq_Some_iff)
  then show ?thesis by (simp only: minted_look option.case)
qed

definition mint_call :: "host \<Rightarrow> Env \<Rightarrow> string \<Rightarrow> VoucherCreation \<Rightarrow> (StdError, SubMsg) outcome" where
  "mint_call h env recv create =
     map_ok (\<lambda>b. submsg_new (Wasm (WasmExecute (addr_str (env_contract env)) b)))
       (to_binary_execute h (Callback (CallbackMint (cls_id (vc_class create)) recv (vc_tokens create))))"

definition voucher_collection :: "host \<Rightarrow> Env \<Rightarrow> u64 \<Rightarrow> ClassId \<Rightarrow> (StdError, SubMsg) outcome" where
  "voucher_collection h env code cid =
     map_ok (\<lambda>b. reply_on_success (WasmInstantiate None code b ''ics-721 debt-voucher cw-721'') INSTANTIATE_CW721_REPLY_ID)
       (to_binary_cw721_init h
          \<lparr>ci_name = class_id_str cid, ci_symbol = class_id_str cid, ci_minter = addr_str (env_contract env)\<rparr>)"

lemma callback_create_vouchers_Ok_iff:
  "callback_create_vouchers h env recv create s = (Ok resp, t) \<longleftrightarrow>
     (\<exists>mint inst.
        mint_call h env recv create = Ok mint \<and>
        (if CLASS_ID_TO_NFT_CONTRACT s (cls_id (vc_class create)) = None
         then \<exists>code m. CW721_CODE_ID s = Some code \<and>
                voucher_collection h env code (cls_id (vc_class create)) = Ok m \<and> inst = [m]
         else inst = []) \<and>
        resp = response (inst @ [mint]) [(''method'', ''callback_create_vouchers'')] \<and>
        t = class_save (cls_id (vc_class create)) (vc_class create) s)"
  by (cases "CLASS_ID_TO_NFT_CONTRACT s (cls_id (vc_class create))")
    (auto simp: callback_create_vouchers_def Let_def prog_iffs prog_simps bnd_reads mint_call_def
      voucher_collection_def map_ok_Ok_iff)

lemma instantiate_Ok_iff:
  "instantiate h env msg s = (Ok resp, t) \<longleftrightarrow>
     (\<exists>v. map_transpose (addr_validate h) (init_pauser msg) = Ok v \<and>
        t = s\<lparr>contract_version := Some (CONTRACT_NAME, CONTRACT_VERSION),
              CW721_CODE_ID := Some (cw721_base_code_id msg), PROXY := Some None,
              PO := (PO s)\<lparr>pauser := Some v, paused := Some False\<rparr>\<rparr> \<and>
        resp = response
          (map_or [] (\<lambda>s. [s])
            (map_option (\<lambda>w. reply_on_success w INSTANTIATE_PROXY_REPLY_ID)
              (map_option (\<lambda>m. cii_into_wasm_msg m (env_contract env)) (init_proxy msg))))
          [(''method'', ''instantiate''),
           (''cw721_code_id'', show_nat (unat (cw721_base_code_id msg)))])"
  by (auto simp: instantiate_def prog_iffs set_pauser_Ok_iff)

lemma migrate_Ok_iff:
  "migrate h (WithUpdate np nx) s = (Ok resp, t) \<longleftrightarrow>
     (\<exists>v x. map_transpose (addr_validate h) nx = Ok x \<and> map_transpose (addr_validate h) np = Ok v \<and>
        t = s\<lparr>PROXY := Some x, PO := (PO s)\<lparr>pauser := Some v, paused := Some False\<rparr>\<rparr> \<and>
        resp = response [] [(''method'', ''migrate'')])"
  by (auto simp: migrate_def prog_iffs set_pauser_Ok_iff)

section \<open>Properties\<close>

text \<open>C8: An NFT delivered to an unpaused bridge without proxy is locked and sent away in one step: the
  single message is an IBC packet on the requested channel with the requested timeout, it carries
  exactly the class, the token with the URI its collection reports and the data the bridge
  remembers, the sender and the requested receiver and memo; the token is recorded as away on that
  channel, and a collection seen for the first time is registered under its own address in all
  three class maps. Nothing else is written. (The class identifier is short enough for a storage key.)\<close>

theorem delivered_nft_is_sent:
  assumes "paused (PO s) = Some False" and "PROXY s = Some None"
    and "addr_validate h (crm_sender m) = Ok owner" and "from_binary_outgoing h (crm_msg m) = Ok og"
    and "class_of_contract (info_sender info) s = (Ok cls, s1)" and "class_key_fits (cls_id cls)"
    and "query_nft_info h (info_sender info) (crm_token_id m) = Ok (UniversalNftInfoResponse uri ())"
    and "to_binary_packet h
      \<lparr>class_id = cls_id cls, class_uri = cls_uri cls, class_data = cls_data cls,
       token_ids = [TokenId (crm_token_id m)], token_uris = map_option (\<lambda>u. [u]) uri,
       token_data = map_option (\<lambda>b. [b])
         (Option.bind (TOKEN_METADATA s (cls_id cls, TokenId (crm_token_id m))) (\<lambda>v. v)),
       sender = addr_str owner, receiver = og_receiver og, memo = og_memo og\<rparr> = Ok bytes"
  shows "\<exists>resp. execute h env info (ReceiveNft m) s =
      (Ok resp, s1\<lparr>OUTGOING_CLASS_TOKEN_TO_CHANNEL :=
         (OUTGOING_CLASS_TOKEN_TO_CHANNEL s)((cls_id cls, TokenId (crm_token_id m)) \<mapsto> og_channel_id og)\<rparr>) \<and>
    messages resp = [submsg_new (Ibc (SendPacket (og_channel_id og) bytes (og_timeout og)))] \<and>
    (case NFT_CONTRACT_TO_CLASS_ID s (info_sender info) of
       Some cid \<Rightarrow> s1 = s \<and> CLASS_ID_TO_CLASS s cid = Some cls
     | None \<Rightarrow>
         cls = \<lparr>cls_id = ClassId (addr_str (info_sender info)), cls_uri = None, cls_data = None\<rparr> \<and>
         s1 = s\<lparr>NFT_CONTRACT_TO_CLASS_ID := (NFT_CONTRACT_TO_CLASS_ID s)(info_sender info \<mapsto> cls_id cls),
                CLASS_ID_TO_NFT_CONTRACT := (CLASS_ID_TO_NFT_CONTRACT s)(cls_id cls \<mapsto> info_sender info),
                CLASS_ID_TO_CLASS := (CLASS_ID_TO_CLASS s)(cls_id cls \<mapsto> cls)\<rparr>)"
proof -
  have "execute h env info (ReceiveNft m) s =
      (Ok (sent_response cls (TokenId (crm_token_id m)) og bytes),
       outgoing_save (cls_id cls, TokenId (crm_token_id m)) (og_channel_id og) s1)"
    unfolding execute_Ok_iff ExecuteMsg.case execute_receive_nft_Ok_iff receive_nft_Ok_iff
    using assms by (auto simp: outgoing_packet_def stored_data_def)
  moreover have "OUTGOING_CLASS_TOKEN_TO_CHANNEL s1 = OUTGOING_CLASS_TOKEN_TO_CHANNEL s"
    using assms(5) by (auto elim!: class_of_contract_cases simp: with_class_def)
  moreover have "case NFT_CONTRACT_TO_CLASS_ID s (info_sender info) of
       Some cid \<Rightarrow> s1 = s \<and> CLASS_ID_TO_CLASS s cid = Some cls
     | None \<Rightarrow> cls = fresh_class (info_sender info) \<and> s1 = with_class (info_sender info) s"
    using assms(5) by (auto elim!: class_of_contract_cases)
  ultimately show ?thesis
    by (auto simp: sent_response_def store_defs fresh_class_def with_class_def split: option.splits)
qed

theorem delivered_nft_is_sent_witness:
  "\<exists>resp t. execute
      (sample_host\<lparr>from_binary_outgoing := (\<lambda>_. Ok \<lparr>og_receiver = ''bob'', og_channel_id = ''channel-0'',
         og_timeout = sample_timeout, og_memo = None\<rparr>)\<rparr>)
      sample_env \<lparr>info_sender = Addr ''kids''\<rparr>
      (ReceiveNft \<lparr>crm_sender = ''alice'', crm_token_id = ''7'', crm_msg = []\<rparr>) sample_bridge = (Ok resp, t) \<and>
    messages resp = [submsg_new (Ibc (SendPacket ''channel-0'' ''packet'' sample_timeout))] \<and>
    OUTGOING_CLASS_TOKEN_TO_CHANNEL t (ClassId ''kids'', TokenId ''7'') = Some ''channel-0''"
proof -
  let ?og = "\<lparr>og_receiver = ''bob'', og_channel_id = ''channel-0'', og_timeout = sample_timeout, og_memo = None\<rparr>"
  let ?h = "sample_host\<lparr>from_binary_outgoing := (\<lambda>_. Ok ?og)\<rparr>"
  let ?m = "\<lparr>crm_sender = ''alice'', crm_token_id = ''7'', crm_msg = []\<rparr>"
  let ?info = "\<lparr>info_sender = Addr ''kids''\<rparr>"
  have "paused (PO sample_bridge) = Some False" "PROXY sample_bridge = Some None"
    "addr_validate ?h (crm_sender ?m) = Ok (Addr ''alice'')" "from_binary_outgoing ?h (crm_msg ?m) = Ok ?og"
    "class_of_contract (info_sender ?info) sample_bridge =
       (Ok (fresh_class (Addr ''kids'')), with_class (Addr ''kids'') sample_bridge)"
    "class_key_fits (cls_id (fresh_class (Addr ''kids'')))"
    "query_nft_info ?h (info_sender ?info) (crm_token_id ?m) = Ok (UniversalNftInfoResponse None ())"
    by (simp_all add: class_of_contract_run) (simp_all add: sample_defs fresh_class_def class_key_fits_def)
  from delivered_nft_is_sent [OF this, of "''packet''" sample_env] show ?thesis
    by (auto simp: fresh_class_def)
qed

text \<open>C20: Who may call what: a paused bridge refuses every execute message; a callback is refused unless
  the bridge itself is the caller; with a proxy configured, NFTs delivered directly are refused, and
  an NFT delivered through a proxy is refused unless the configured proxy is the caller. A refused
  call writes nothing.\<close>

theorem execute_access_control:
  assumes "paused (PO s) = Some b" and "PROXY s = Some proxy"
  shows "(b \<longrightarrow> execute h env info msg s = (Err (Pause Paused), s)) \<and>
    (\<not> b \<and> info_sender info \<noteq> env_contract env \<longrightarrow>
       execute h env info (Callback cb) s = (Err Unauthorized, s)) \<and>
    (\<not> b \<and> proxy \<noteq> None \<longrightarrow> execute h env info (ReceiveNft m) s = (Err Unauthorized, s)) \<and>
    (\<not> b \<and> proxy \<noteq> Some (info_sender info) \<longrightarrow>
       execute h env info (ReceiveProxyNft eyeball m) s = (Err Unauthorized, s))"
proof (intro conjI impI)
  have run: "\<not> b \<Longrightarrow> execute h env info x s =
     (case x of
        ReceiveNft m \<Rightarrow> execute_receive_nft h info (crm_token_id m) (crm_sender m) (crm_msg m) s
      | ReceiveProxyNft eyeball m \<Rightarrow> execute_receive_proxy_nft h info eyeball m s
      | ExecutePause \<Rightarrow> execute_pause info s
      | Callback m \<Rightarrow> execute_callback h env info m s)" for x
    using assms(1)
    by (simp add: execute_def bnd_def err_into_def with_po_def zoom_def error_if_paused_run split: ExecuteMsg.splits)
  have px: "err_into Std (load ''Option<Addr>'' PROXY) s = (Ok proxy, s)"
    using assms(2) by (simp add: err_into_def load_simps)
  show "execute h env info msg s = (Err (Pause Paused), s)" if b
    using that assms(1) by (intro execute_paused) simp
  show "execute h env info (Callback cb) s = (Err Unauthorized, s)"
    if "\<not> b \<and> info_sender info \<noteq> env_contract env"
    using that by (simp add: run execute_callback_def throw_def)
  show "execute h env info (ReceiveNft m) s = (Err Unauthorized, s)" if "\<not> b \<and> proxy \<noteq> None"
    using that by (auto simp: run execute_receive_nft_def bnd_def px throw_def)
  show "execute h env info (ReceiveProxyNft eyeball m) s = (Err Unauthorized, s)"
    if "\<not> b \<and> proxy \<noteq> Some (info_sender info)"
    using that by (cases proxy) (auto simp: run execute_receive_proxy_nft_def bnd_def px throw_def)
qed

theorem execute_access_control_witness:
  "execute sample_host sample_env \<lparr>info_sender = Addr ''mallory''\<rparr>
     (Callback (CallbackMint (ClassId ''nft'') ''mallory'' [])) sample_bridge = (Err Unauthorized, sample_bridge)"
  using execute_access_control
    [of sample_bridge False None _ sample_env "\<lparr>info_sender = Addr ''mallory''\<rparr>" _
      "CallbackMint (ClassId ''nft'') ''mallory'' []"]
  by (simp add: sample_defs)

text \<open>C25: Minting vouchers records their data and can be read back: for tokens with distinct
  identifiers, the callback sends one mint message per token to the collection of the class, to the
  receiver and with the token's URI, and a later metadata query returns each token as it was minted,
  given that the collection reports the URI it was minted with. Only the metadata of these tokens
  is written. (The class identifier is short enough for a storage key.)\<close>

theorem minted_tokens_read_back:
  assumes "paused (PO s) = Some False" and "info_sender info = env_contract env"
    and "addr_validate h recv = Ok a" and "CLASS_ID_TO_NFT_CONTRACT s cid = Some collection"
    and "cw721_encoder h enc" and "distinct (map tok_id tokens)" and "tok \<in> set tokens" and "class_key_fits cid"
    and "query_nft_info h collection (token_id_str (tok_id tok)) = Ok (UniversalNftInfoResponse (tok_uri tok) ())"
  shows "\<exists>resp md. execute h env info (Callback (CallbackMint cid recv tokens)) s =
      (Ok resp, s\<lparr>TOKEN_METADATA := md\<rparr>) \<and>
    messages resp =
      map (\<lambda>tok. submsg_new (Wasm (WasmExecute (addr_str collection)
             (enc (Mint (token_id_str (tok_id tok)) (addr_str a) (tok_uri tok)))))) tokens \<and>
    query_token_metadata h (class_id_str cid) (token_id_str (tok_id tok)) (s\<lparr>TOKEN_METADATA := md\<rparr>) =
      (Ok (Some tok), s\<lparr>TOKEN_METADATA := md\<rparr>) \<and>
    (\<forall>k. k \<notin> Pair cid ` tok_id ` set tokens \<longrightarrow> md k = TOKEN_METADATA s k)"
proof -
  let ?t = "minted cid tokens s" and ?md = "TOKEN_METADATA (minted cid tokens s)"
  let ?msg = "\<lambda>tok. WasmExecute (addr_str collection) (enc (Mint (token_id_str (tok_id tok)) (addr_str a) (tok_uri tok)))"
  have "list_all2 (\<lambda>x y. mint_msg h collection a x = Ok y) tokens (map ?msg tokens)"
    using assms(5) by (simp add: list_all2_conv_all_nth mint_msg_def cw721_encoder_def)
  then have "execute h env info (Callback (CallbackMint cid recv tokens)) s =
      (Ok (response (map (\<lambda>m. submsg_new (Wasm m)) (map ?msg tokens)) [(''method'', ''callback_mint'')]), ?t)"
    unfolding execute_Ok_iff ExecuteMsg.case execute_callback_Ok_iff CallbackMsg.case callback_mint_Ok_iff
    using assms(1-4,8) by blast
  moreover have frame: "?t = s\<lparr>TOKEN_METADATA := ?md\<rparr>" by (rule minted_frame)
  moreover have "query_token_metadata h (class_id_str cid) (token_id_str (tok_id tok)) (s\<lparr>TOKEN_METADATA := ?md\<rparr>) =
      (Ok (Some tok), s\<lparr>TOKEN_METADATA := ?md\<rparr>)"
    using minted_look_distinct [OF assms(6,7), of cid s] assms(4,8,9)
    by (simp add: query_token_metadata_def prog_simps)
  moreover have "?md k = TOKEN_METADATA s k" if "k \<notin> Pair cid ` tok_id ` set tokens" for k
  proof -
    have "map_of (rev (map (\<lambda>tok. ((cid, tok_id tok), tok_data tok)) tokens)) k = None"
      using that by (auto simp: map_of_eq_None_iff)
    then show ?thesis by (simp only: minted_look option.case)
  qed
  ultimately show ?thesis by (intro exI [of _ ?md] exI conjI) auto
qed

theorem minted_tokens_read_back_witness:
  "\<exists>resp t. execute sample_host sample_env \<lparr>info_sender = Addr ''bridge''\<rparr>
      (Callback (CallbackMint (ClassId ''nft'') ''bob''
        [\<lparr>tok_id = TokenId ''1'', tok_uri = None, tok_data = Some ''d''\<rparr>])) sample_bridge = (Ok resp, t) \<and>
    query_token_metadata sample_host ''nft'' ''1'' t =
      (Ok (Some \<lparr>tok_id = TokenId ''1'', tok_uri = None, tok_data = Some ''d''\<rparr>), t)"
  using minted_tokens_read_back
    [of sample_bridge "\<lparr>info_sender = Addr ''bridge''\<rparr>" sample_env sample_host "''bob''" "Addr ''bob''"
      "ClassId ''nft''" "Addr ''nft''" code_cw721
      "[\<lparr>tok_id = TokenId ''1'', tok_uri = None, tok_data = Some ''d''\<rparr>]"
      "\<lparr>tok_id = TokenId ''1'', tok_uri = None, tok_data = Some ''d''\<rparr>"]
  by (auto simp: class_key_fits_def)

text \<open>C26: Creating vouchers instantiates a collection for the class if and only if the class has none:
  then the first message instantiates the configured code with the class identifier as name and
  symbol and the bridge as minter, to be replied to on success; the last message is always the
  bridge's own mint callback with the same class, receiver and tokens. The class metadata is saved
  (also for a known class), and nothing else is written.\<close>

theorem create_vouchers_instantiates_iff_unknown:
  assumes "execute_encoder h enc" and "CW721_CODE_ID s = Some code"
    and "to_binary_cw721_init h
      \<lparr>ci_name = class_id_str (cls_id (vc_class create)), ci_symbol = class_id_str (cls_id (vc_class create)),
       ci_minter = addr_str (env_contract env)\<rparr> = Ok init"
  shows "\<exists>resp. callback_create_vouchers h env recv create s =
      (Ok resp, s\<lparr>CLASS_ID_TO_CLASS := (CLASS_ID_TO_CLASS s)(cls_id (vc_class create) \<mapsto> vc_class create)\<rparr>) \<and>
    messages resp =
      (if CLASS_ID_TO_NFT_CONTRACT s (cls_id (vc_class create)) = None
       then [reply_on_success (WasmInstantiate None code init ''ics-721 debt-voucher cw-721'')
               INSTANTIATE_CW721_REPLY_ID]
       else []) @
      [submsg_new (Wasm (WasmExecute (addr_str (env_contract env))
         (enc (Callback (CallbackMint (cls_id (vc_class create)) recv (vc_tokens create))))))]"
proof -
  let ?inst = "if CLASS_ID_TO_NFT_CONTRACT s (cls_id (vc_class create)) = None
       then [reply_on_success (WasmInstantiate None code init ''ics-721 debt-voucher cw-721'')
               INSTANTIATE_CW721_REPLY_ID]
       else []"
  let ?mint = "submsg_new (Wasm (WasmExecute (addr_str (env_contract env))
         (enc (Callback (CallbackMint (cls_id (vc_class create)) recv (vc_tokens create))))))"
  have "callback_create_vouchers h env recv create s =
      (Ok (response (?inst @ [?mint]) [(''method'', ''callback_create_vouchers'')]),
       class_save (cls_id (vc_class create)) (vc_class create) s)"
    unfolding callback_create_vouchers_Ok_iff
    by (rule exI [of _ ?mint], rule exI [of _ ?inst])
      (use assms in \<open>simp add: mint_call_def voucher_collection_def execute_encoder_def\<close>)
  then show ?thesis by (simp add: store_defs)
qed

theorem create_vouchers_instantiates_iff_unknown_witness:
  "\<exists>resp t. callback_create_vouchers sample_host sample_env ''bob''
      \<lparr>vc_class = \<lparr>cls_id = ClassId ''wasm.b/channel-0/kids'', cls_uri = None, cls_data = None\<rparr>,
       vc_tokens = []\<rparr> sample_bridge = (Ok resp, t) \<and> length (messages resp) = 2"
  using create_vouchers_instantiates_iff_unknown
    [of sample_host code_execute sample_bridge 5
      "\<lparr>vc_class = \<lparr>cls_id = ClassId ''wasm.b/channel-0/kids'', cls_uri = None, cls_data = None\<rparr>,
       vc_tokens = []\<rparr>" sample_env "''wasm.b/channel-0/kids''" "''bob''"]
  by (auto simp: sample_bridge_def empty_bridge_def)

text \<open>Redeeming vouchers releases the locked NFTs: one transfer per token, in order, from the
  collection of the class to the receiver, and the storage is left as it is. Without a collection
  for the class, or with an invalid receiver, the callback fails and nothing is released.\<close>

theorem redeem_vouchers_transfers:
  assumes "cw721_encoder h enc"
  shows "case (CLASS_ID_TO_NFT_CONTRACT s (cls_id (vr_class redeem)), addr_validate h recv) of
      (Some collection, Ok a) \<Rightarrow>
        \<exists>resp. callback_redeem_vouchers h recv redeem s = (Ok resp, s) \<and>
          messages resp =
            map (\<lambda>t. submsg_new (Wasm (WasmExecute (addr_str collection)
                   (enc (TransferNft (addr_str a) (token_id_str t)))))) (vr_token_ids redeem)
    | (Some collection, Err e) \<Rightarrow> callback_redeem_vouchers h recv redeem s = (Err (Std e), s)
    | (Some collection, Panic q) \<Rightarrow> callback_redeem_vouchers h recv redeem s = (Panic q, s)
    | (None, _) \<Rightarrow> callback_redeem_vouchers h recv redeem s = (Err (Std (NotFound ''Addr'')), s)"
proof (cases "CLASS_ID_TO_NFT_CONTRACT s (cls_id (vr_class redeem))")
  case None
  then show ?thesis by (simp add: callback_redeem_vouchers_def bnd_def err_into_def load_simps)
next
  case (Some collection)
  let ?msgs = "\<lambda>a. map (\<lambda>t. WasmExecute (addr_str collection) (enc (TransferNft (addr_str a) (token_id_str t))))
     (vr_token_ids redeem)"
  have all: "list_all2 (\<lambda>x y. transfer_msg h collection a x = Ok y) (vr_token_ids redeem) (?msgs a)" for a
    by (simp add: list_all2_conv_all_nth transfer_msg_Ok [OF assms])
  show ?thesis
  proof (cases "addr_validate h recv")
    case (Ok a)
    have "callback_redeem_vouchers h recv redeem s =
        (Ok (response (map (\<lambda>m. submsg_new (Wasm m)) (?msgs a)) [(''method'', ''callback_redeem_vouchers'')]), s)"
      unfolding callback_redeem_vouchers_Ok_iff using Some Ok all [of a] by blast
    with Some Ok show ?thesis by simp
  qed (simp_all add: Some callback_redeem_vouchers_def bnd_def err_into_def load_simps std_run throw_def)
qed

theorem redeem_vouchers_transfers_witness:
  "\<exists>resp. callback_redeem_vouchers sample_host ''bob''
      \<lparr>vr_class = \<lparr>cls_id = ClassId ''nft'', cls_uri = None, cls_data = None\<rparr>, vr_token_ids = [TokenId ''1'']\<rparr>
      sample_bridge = (Ok resp, sample_bridge) \<and>
    messages resp = [submsg_new (Wasm (WasmExecute ''nft'' (code_cw721 (TransferNft ''bob'' ''1''))))]"
  using redeem_vouchers_transfers
    [where h = sample_host and enc = code_cw721 and s = sample_bridge and recv = "''bob''" and
      redeem = "\<lparr>vr_class = \<lparr>cls_id = ClassId ''nft'', cls_uri = None, cls_data = None\<rparr>, vr_token_ids = [TokenId ''1'']\<rparr>"]
  by simp

text \<open>C32: Instantiation records the version and the collection code, starts without proxy, unpaused and
  with the validated pauser (or none), and asks for the proxy's instantiation exactly when one is
  configured; an invalid pauser makes it fail. Migration replaces proxy and pauser by the validated
  new ones and unpauses, touching nothing else; with an invalid proxy address it fails and writes
  nothing.\<close>

theorem instantiate_and_migrate:
  assumes "\<And>a q. addr_validate h a \<noteq> Panic q"
  shows "(case map_transpose (addr_validate h) (init_pauser im) of
       Ok v \<Rightarrow> \<exists>resp.
         instantiate h env im s =
           (Ok resp, s\<lparr>contract_version := Some (CONTRACT_NAME, CONTRACT_VERSION),
              CW721_CODE_ID := Some (cw721_base_code_id im), PROXY := Some None,
              PO := \<lparr>pauser = Some v, paused = Some False\<rparr>\<rparr>) \<and>
         messages resp =
           (case init_proxy im of
              None \<Rightarrow> []
            | Some p \<Rightarrow> [reply_on_success (cii_into_wasm_msg p (env_contract env)) INSTANTIATE_PROXY_REPLY_ID])
     | _ \<Rightarrow> \<exists>e. fst (instantiate h env im s) = Err (Std e)) \<and>
    (case (map_transpose (addr_validate h) nx, map_transpose (addr_validate h) np) of
       (Ok x, Ok v) \<Rightarrow> \<exists>resp. migrate h (WithUpdate np nx) s =
         (Ok resp, s\<lparr>PROXY := Some x, PO := \<lparr>pauser = Some v, paused = Some False\<rparr>\<rparr>) \<and> messages resp = []
     | (Ok x, _) \<Rightarrow> \<exists>e. fst (migrate h (WithUpdate np nx) s) = Err (Std e)
     | _ \<Rightarrow> \<exists>e. migrate h (WithUpdate np nx) s = (Err (Std e), s))"
proof
  have np: "\<And>o' q. map_transpose (addr_validate h) o' \<noteq> Panic q"
  proof -
    fix o' q show "map_transpose (addr_validate h) o' \<noteq> Panic q"
      using assms by (cases o'; cases "addr_validate h (the o')") auto
  qed
  show "case map_transpose (addr_validate h) (init_pauser im) of
       Ok v \<Rightarrow> \<exists>resp.
         instantiate h env im s =
           (Ok resp, s\<lparr>contract_version := Some (CONTRACT_NAME, CONTRACT_VERSION),
              CW721_CODE_ID := Some (cw721_base_code_id im), PROXY := Some None,
              PO := \<lparr>pauser = Some v, paused = Some False\<rparr>\<rparr>) \<and>
         messages resp =
           (case init_proxy im of
              None \<Rightarrow> []
            | Some p \<Rightarrow> [reply_on_success (cii_into_wasm_msg p (env_contract env)) INSTANTIATE_PROXY_REPLY_ID])
     | _ \<Rightarrow> \<exists>e. fst (instantiate h env im s) = Err (Std e)"
    using np [of "init_pauser im"]
    by (auto simp: instantiate_Ok_iff set_pauser_Err instantiate_def bnd_def err_into_def writes_def ret_def
        with_po_def zoom_def set_pauser_Ok split: outcome.splits option.splits)
  show "case (map_transpose (addr_validate h) nx, map_transpose (addr_validate h) np) of
       (Ok x, Ok v) \<Rightarrow> \<exists>resp. migrate h (WithUpdate np nx) s =
         (Ok resp, s\<lparr>PROXY := Some x, PO := \<lparr>pauser = Some v, paused = Some False\<rparr>\<rparr>) \<and> messages resp = []
     | (Ok x, _) \<Rightarrow> \<exists>e. fst (migrate h (WithUpdate np nx) s) = Err (Std e)
     | _ \<Rightarrow> \<exists>e. migrate h (WithUpdate np nx) s = (Err (Std e), s)"
    using np [of nx] np [of np]
    by (auto simp: migrate_Ok_iff set_pauser_Err migrate_def bnd_def err_into_def writes_def ret_def std_run throw_def
        with_po_def zoom_def set_pauser_Ok split: outcome.splits option.splits)
qed

theorem instantiate_and_migrate_witness:
  "\<exists>resp. migrate sample_host (WithUpdate (Some ''zeke'') (Some ''proxy'')) sample_bridge =
     (Ok resp, sample_bridge\<lparr>PROXY := Some (Some (Addr ''proxy'')),
        PO := \<lparr>pauser = Some (Some (Addr ''zeke'')), paused = Some False\<rparr>\<rparr>) \<and> messages resp = []"
  using instantiate_and_migrate
    [where h = sample_host and im = "\<lparr>cw721_base_code_id = 0, init_proxy = None, init_pauser = None\<rparr>" and
      env = sample_env and s = sample_bridge and nx = "Some ''proxy''" and np = "Some ''zeke''"]
  by simp

end
