(* ===== verification/Bridge_Receive.thy ===== *)
theory Bridge_Receive
  imports Bridge_Contract "HOL-Library.Multiset" "HOL-Library.Sublist"
begin

text \<open>
  \<^verbatim>\<open>ibc_packet_receive.rs\<close>: an incoming packet is turned into voucher redemptions (tokens that left
  on this very channel) and voucher creations (everything else), gathered into one submessage to
  the contract itself. Proved: what the fold over the tokens computes, that the aggregator keeps
  every action, and the effect of receiving a packet as a whole.
\<close>

section \<open>Actions\<close>

datatype Action = Redemption ClassId TokenId | Creation ClassId Token

record ActionAggregator =
  agg_class_uri :: "string option"
  agg_class_data :: "binary option"
  redemption :: "VoucherRedemption option"
  creation :: "VoucherCreation option"

definition aggregator_new :: "string option \<Rightarrow> binary option \<Rightarrow> ActionAggregator" where
  "aggregator_new uri dat =
     \<lparr>agg_class_uri = uri, agg_class_data = dat, redemption = None, creation = None\<rparr>"

definition add_action :: "ActionAggregator \<Rightarrow> Action \<Rightarrow> ActionAggregator" where
  "add_action self action =
     (case action of
        Redemption cid tid \<Rightarrow>
          self\<lparr>redemption :=
            (case redemption self of
               Some r \<Rightarrow> Some (r\<lparr>vr_token_ids := vr_token_ids r @ [tid]\<rparr>)
             | None \<Rightarrow>
                 Some \<lparr>vr_class = \<lparr>cls_id = cid, cls_uri = agg_class_uri self, cls_data = agg_class_data self\<rparr>,
                       vr_token_ids = [tid]\<rparr>)\<rparr>
      | Creation cid tok \<Rightarrow>
          self\<lparr>creation :=
            (case creation self of
               Some c \<Rightarrow> Some (c\<lparr>vc_tokens := vc_tokens c @ [tok]\<rparr>)
             | None \<Rightarrow>
                 Some \<lparr>vc_class = \<lparr>cls_id = cid, cls_uri = agg_class_uri self, cls_data = agg_class_data self\<rparr>,
                       vc_tokens = [tok]\<rparr>)\<rparr>)"

definition into_submessage ::
  "host \<Rightarrow> ActionAggregator \<Rightarrow> addr \<Rightarrow> addr \<Rightarrow> ('s, StdError, SubMsg) prog" where
  "into_submessage h self contract recv =
     bnd (case redemption self of
            Some redeem \<Rightarrow>
              bnd (lift (redemption_into_wasm_msg h redeem contract (addr_str recv))) (\<lambda>w. ret [w])
          | None \<Rightarrow> ret []) (\<lambda>m1.
     bnd (case creation self of
            Some create \<Rightarrow>
              bnd (lift (creation_into_wasm_msg h create contract (addr_str recv))) (\<lambda>w. ret (m1 @ [w]))
          | None \<Rightarrow> ret m1) (\<lambda>m.
     bnd (if length m = 1 then ret (m ! 0)
          else
            bnd (lift (to_binary_execute h (Callback (Conjunction m)))) (\<lambda>bytes.
            ret (WasmExecute (addr_str contract) bytes))) (\<lambda>message.
     ret (reply_always message ACK_AND_DO_NOTHING))))"

section \<open>Receiving a packet\<close>

type_synonym token_item = "(TokenId \<times> string option) \<times> binary option"

text \<open>The closure of the \<^verbatim>\<open>try_fold\<close>: one token becomes one action.\<close>

definition select_action ::
  "IbcPacket \<Rightarrow> NonFungibleTokenPacketData \<Rightarrow> string option \<Rightarrow> Action list \<Rightarrow> token_item \<Rightarrow>
     (Bridge, StdError, Action list) prog" where
  "select_action packet d local_class_id msgs item =
     (case item of ((tid, uri), dat) \<Rightarrow>
        let create =
          (let cid = ClassId (get_endpoint_prefix (dest packet) @ class_id_str (class_id d)) in
           bnd (at_pair (cid, tid) (writes (incoming_save (cid, tid) (channel_id (dest packet))))) (\<lambda>_.
           ret (msgs @ [Creation cid \<lparr>tok_id = tid, tok_uri = uri, tok_data = dat\<rparr>])))
        in
          case local_class_id of
            None \<Rightarrow> create
          | Some l \<Rightarrow>
              bnd (at_pair (ClassId l, tid) (reads (\<lambda>s. OUTGOING_CLASS_TOKEN_TO_CHANNEL s (ClassId l, tid)))) (\<lambda>outgoing_channel.
              if map_or False (\<lambda>c. c = channel_id (dest packet)) outgoing_channel then
                bnd (at_pair (ClassId l, tid) (writes (outgoing_remove (ClassId l, tid)))) (\<lambda>_.
                ret (msgs @ [Redemption (ClassId l) tid]))
              else create))"

text \<open>The tokens are zipped with their metadata, turned into actions, and the actions into one submessage.\<close>

definition receive_tokens ::
  "host \<Rightarrow> Env \<Rightarrow> IbcPacket \<Rightarrow> NonFungibleTokenPacketData \<Rightarrow> string option \<Rightarrow> addr \<Rightarrow>
     (Bridge, StdError, SubMsg) prog" where
  "receive_tokens h env packet d local_class_id recv_addr =
     bnd (try_fold (select_action packet d local_class_id) []
       (zip_tokens (token_ids d) (token_uris d) (token_data d))) (\<lambda>actions.
     into_submessage h
       (foldl add_action (aggregator_new (class_uri d) (class_data d)) actions)
       (env_contract env) recv_addr)"

definition receive_ibc_packet ::
  "host \<Rightarrow> Env \<Rightarrow> IbcPacket \<Rightarrow> (Bridge, ContractError, IbcReceiveResponse) prog" where
  "receive_ibc_packet h env packet =
     bnd (err_into Pause (with_po error_if_paused)) (\<lambda>_.
     bnd (std (from_binary_packet h (pkt_data packet))) (\<lambda>d.
     bnd (lift (validate d)) (\<lambda>_.
     bnd (ret (try_pop_source_prefix (src packet) (class_id_str (class_id d)))) (\<lambda>local_class_id.
     bnd (std (addr_validate h (receiver d))) (\<lambda>recv_addr.
     bnd (err_into Std (receive_tokens h env packet d local_class_id recv_addr)) (\<lambda>submessage.
     ret (receive_response [submessage]
       ((case memo d of Some m \<Rightarrow> [(''ics721_memo'', m)] | None \<Rightarrow> []) @
        [(''method'', ''receive_ibc_packet''), (''class_id'', class_id_str (class_id d)),
         (''local_channel'', channel_id (dest packet)),
         (''counterparty_channel'', channel_id (src packet))]))))))))"

section \<open>What the fold computes\<close>

text \<open>
  The specification sorts the tokens by whether they return: the first occurrence of a returning
  token is redeemed, everything else becomes a voucher.
\<close>

abbreviation item_id :: "token_item \<Rightarrow> TokenId" where
  "item_id x \<equiv> fst (fst x)"

definition item_token :: "token_item \<Rightarrow> Token" where
  "item_token x = \<lparr>tok_id = fst (fst x), tok_uri = snd (fst x), tok_data = snd x\<rparr>"

fun split_items :: "(TokenId \<Rightarrow> bool) \<Rightarrow> token_item list \<Rightarrow> TokenId list \<times> token_item list" where
  "split_items R [] = ([], [])"
| "split_items R (x # xs) =
     (if R (item_id x) then
        (let rc = split_items (\<lambda>t. R t \<and> t \<noteq> item_id x) xs in (item_id x # fst rc, snd rc))
      else
        (let rc = split_items R xs in (fst rc, x # snd rc)))"

lemma split_items_redeemed:
  "distinct (fst (split_items R xs)) \<and> set (fst (split_items R xs)) = {t \<in> item_id ` set xs. R t}"
proof (induction xs arbitrary: R)
  case Nil
  then show ?case by simp
next
  case (Cons x xs)
  show ?case
    using Cons.IH [of R] Cons.IH [of "\<lambda>t. R t \<and> t \<noteq> item_id x"] by (auto simp: Let_def)
qed

lemma split_items_mset:
  "mset (fst (split_items R xs)) + mset (map item_id (snd (split_items R xs))) = mset (map item_id xs)"
  by (induction xs arbitrary: R) (auto simp: Let_def)

lemma split_items_subseq: "subseq (snd (split_items R xs)) xs"
  by (induction xs arbitrary: R) (auto simp: Let_def)

text \<open>The effect on storage: redeemed keys leave the outgoing map, created keys enter the incoming one.\<close>

definition moved ::
  "ClassId \<Rightarrow> ClassId \<Rightarrow> string \<Rightarrow> TokenId list \<Rightarrow> TokenId list \<Rightarrow> Bridge \<Rightarrow> Bridge" where
  "moved lc nc ch redeemed created s =
     s\<lparr>OUTGOING_CLASS_TOKEN_TO_CHANNEL :=
         (\<lambda>k. if k \<in> Pair lc ` set redeemed then None else OUTGOING_CLASS_TOKEN_TO_CHANNEL s k),
       INCOMING_CLASS_TOKEN_TO_CHANNEL :=
         (\<lambda>k. if k \<in> Pair nc ` set created then Some ch else INCOMING_CLASS_TOKEN_TO_CHANNEL s k)\<rparr>"

lemma moved_nil: "moved lc nc ch [] [] s = s"
  by (simp add: moved_def)

lemma moved_remove: "moved lc nc ch rs cs (outgoing_remove (lc, t) s) = moved lc nc ch (t # rs) cs s"
  by (auto simp: moved_def store_defs fun_eq_iff intro!: Bridge.equality)

lemma moved_save: "moved lc nc ch rs cs (incoming_save (nc, t) ch s) = moved lc nc ch rs (t # cs) s"
  by (auto simp: moved_def store_defs fun_eq_iff intro!: Bridge.equality)

text \<open>The tokens that left on the channel the packet arrives on, under the class it names.\<close>

definition returning :: "Bridge \<Rightarrow> string option \<Rightarrow> string \<Rightarrow> TokenId \<Rightarrow> bool" where
  "returning s l ch t \<longleftrightarrow>
     (case l of None \<Rightarrow> False | Some c \<Rightarrow> OUTGOING_CLASS_TOKEN_TO_CHANNEL s (ClassId c, t) = Some ch)"

definition local_class :: "string option \<Rightarrow> ClassId" where
  "local_class l = ClassId (case l of None \<Rightarrow> [] | Some c \<Rightarrow> c)"

definition voucher_class :: "IbcPacket \<Rightarrow> NonFungibleTokenPacketData \<Rightarrow> ClassId" where
  "voucher_class packet d = ClassId (get_endpoint_prefix (dest packet) @ class_id_str (class_id d))"

definition action_redemptions :: "Action list \<Rightarrow> (ClassId \<times> TokenId) list" where
  "action_redemptions as = List.map_filter (\<lambda>a. case a of Redemption c t \<Rightarrow> Some (c, t) | _ \<Rightarrow> None) as"

definition action_creations :: "Action list \<Rightarrow> (ClassId \<times> Token) list" where
  "action_creations as = List.map_filter (\<lambda>a. case a of Creation c t \<Rightarrow> Some (c, t) | _ \<Rightarrow> None) as"

lemma action_lists_simps [simp]:
  "action_redemptions [] = []" "action_creations [] = []"
  "action_redemptions (as @ [Redemption c t]) = action_redemptions as @ [(c, t)]"
  "action_redemptions (as @ [Creation c k]) = action_redemptions as"
  "action_creations (as @ [Redemption c t]) = action_creations as"
  "action_creations (as @ [Creation c k]) = action_creations as @ [(c, k)]"
  by (simp_all add: action_redemptions_def action_creations_def List.map_filter_def)

lemma local_class_fits [simp]: "class_key_fits (local_class None)" "class_key_fits (ClassId [])"
  by (simp_all add: class_key_fits_def local_class_def)

lemma select_action_redeem:
  "returning s l (channel_id (dest p)) tid \<Longrightarrow> class_key_fits (local_class l) \<Longrightarrow>
   select_action p d l msgs ((tid, uri), dat) s =
     (Ok (msgs @ [Redemption (local_class l) tid]), outgoing_remove (local_class l, tid) s)"
  by (auto simp: select_action_def returning_def local_class_def prog_simps Let_def split: option.splits)

lemma select_action_create:
  "\<not> returning s l (channel_id (dest p)) tid \<Longrightarrow> class_key_fits (local_class l) \<Longrightarrow>
   class_key_fits (voucher_class p d) \<Longrightarrow>
   select_action p d l msgs ((tid, uri), dat) s =
     (Ok (msgs @ [Creation (voucher_class p d) (item_token ((tid, uri), dat))]),
      incoming_save (voucher_class p d, tid) (channel_id (dest p)) s)"
  by (auto simp: select_action_def returning_def voucher_class_def item_token_def prog_simps
      map_or_option Let_def local_class_def split: option.splits)

text \<open>A class whose identifier is too long for a storage key stops the contract at the first access.\<close>

lemma select_action_too_long:
  "\<not> class_key_fits (local_class l) \<or>
     \<not> returning s l (channel_id (dest p)) tid \<and> \<not> class_key_fits (voucher_class p d) \<Longrightarrow>
   select_action p d l msgs ((tid, uri), dat) s = (Panic key_too_long, s)"
  by (cases "class_key_fits (local_class l)")
    (auto simp: select_action_def returning_def voucher_class_def local_class_def prog_simps
      map_or_option Let_def at_pair_too_long split: option.splits)

lemma returning_after:
  "returning (outgoing_remove (local_class l, tid) s) l ch = (\<lambda>t. returning s l ch t \<and> t \<noteq> tid)"
  "returning (incoming_save k c s) l ch = returning s l ch"
  by (auto simp: returning_def local_class_def store_defs fun_eq_iff split: option.splits)

text \<open>The keys that handling the tokens needs: the local class for each, the voucher class for the created ones.\<close>

definition items_fit ::
  "IbcPacket \<Rightarrow> NonFungibleTokenPacketData \<Rightarrow> string option \<Rightarrow> token_item list \<Rightarrow> Bridge \<Rightarrow> bool" where
  "items_fit p d l xs s \<longleftrightarrow>
     (xs = [] \<or> class_key_fits (local_class l)) \<and>
     (snd (split_items (returning s l (channel_id (dest p))) xs) = [] \<or> class_key_fits (voucher_class p d))"

lemma select_actions_run:
  assumes "items_fit p d l xs s"
  shows "\<exists>acts. try_fold (select_action p d l) msgs xs s =
     (Ok acts, moved (local_class l) (voucher_class p d) (channel_id (dest p))
        (fst (split_items (returning s l (channel_id (dest p))) xs))
        (map item_id (snd (split_items (returning s l (channel_id (dest p))) xs))) s) \<and>
     action_redemptions acts = action_redemptions msgs @
       map (Pair (local_class l)) (fst (split_items (returning s l (channel_id (dest p))) xs)) \<and>
     action_creations acts = action_creations msgs @
       map (\<lambda>x. (voucher_class p d, item_token x)) (snd (split_items (returning s l (channel_id (dest p))) xs))"
  using assms
proof (induction xs arbitrary: s msgs)
  case Nil
  show ?case by (simp add: moved_nil prog_simps)
next
  case (Cons x xs)
  obtain tid uri dat where x: "x = ((tid, uri), dat)" by (metis prod.exhaust)
  let ?ch = "channel_id (dest p)"
  have lc: "class_key_fits (local_class l)" using Cons.prems by (simp add: items_fit_def)
  show ?case
  proof (cases "returning s l ?ch tid")
    case True
    have "items_fit p d l xs (outgoing_remove (local_class l, tid) s)"
      using Cons.prems lc True by (simp add: items_fit_def x returning_after Let_def)
    moreover
    have "try_fold (select_action p d l) msgs (x # xs) s =
        try_fold (select_action p d l) (msgs @ [Redemption (local_class l) tid]) xs
          (outgoing_remove (local_class l, tid) s)"
      by (simp add: x bnd_def select_action_redeem [OF True lc])
    ultimately show ?thesis
      using Cons.IH [of "outgoing_remove (local_class l, tid) s" "msgs @ [Redemption (local_class l) tid]"] True
      by (simp add: x returning_after moved_remove Let_def)
  next
    case False
    have vc: "class_key_fits (voucher_class p d)"
      using Cons.prems False by (simp add: items_fit_def x Let_def)
    then have "items_fit p d l xs (incoming_save (voucher_class p d, tid) ?ch s)"
      using lc by (simp add: items_fit_def)
    moreover
    have "try_fold (select_action p d l) msgs (x # xs) s =
        try_fold (select_action p d l) (msgs @ [Creation (voucher_class p d) (item_token x)]) xs
          (incoming_save (voucher_class p d, tid) ?ch s)"
      by (simp add: x bnd_def select_action_create [OF False lc vc])
    ultimately show ?thesis
      using Cons.IH [of
        "incoming_save (voucher_class p d, tid) ?ch s" "msgs @ [Creation (voucher_class p d) (item_token x)]"] False
      by (simp add: x returning_after moved_save Let_def)
  qed
qed

lemma select_actions_too_long:
  assumes "\<not> items_fit p d l xs s"
  shows "\<exists>t. try_fold (select_action p d l) msgs xs s = (Panic key_too_long, t)"
  using assms
proof (induction xs arbitrary: s msgs)
  case Nil
  then show ?case by (simp add: items_fit_def)
next
  case (Cons x xs)
  obtain tid uri dat where x: "x = ((tid, uri), dat)" by (metis prod.exhaust)
  let ?r = "returning s l (channel_id (dest p)) tid"
  consider "\<not> class_key_fits (local_class l) \<or> \<not> ?r \<and> \<not> class_key_fits (voucher_class p d)"
    | "class_key_fits (local_class l)" ?r
    | "class_key_fits (local_class l)" "\<not> ?r" "class_key_fits (voucher_class p d)" by blast
  then show ?case
  proof cases
    case 1
    then show ?thesis by (simp add: x bnd_def select_action_too_long)
  next
    case 2
    with Cons show ?thesis
      by (simp add: x bnd_def select_action_redeem items_fit_def returning_after Let_def)
  next
    case 3
    with Cons show ?thesis by (simp add: items_fit_def)
  qed
qed

section \<open>The aggregator keeps every action\<close>

definition redemption_for ::
  "ClassId \<Rightarrow> string option \<Rightarrow> binary option \<Rightarrow> TokenId list \<Rightarrow> VoucherRedemption option" where
  "redemption_for cid uri dat ts =
     (if ts = [] then None
      else Some \<lparr>vr_class = \<lparr>cls_id = cid, cls_uri = uri, cls_data = dat\<rparr>, vr_token_ids = ts\<rparr>)"

definition creation_for ::
  "ClassId \<Rightarrow> string option \<Rightarrow> binary option \<Rightarrow> Token list \<Rightarrow> VoucherCreation option" where
  "creation_for cid uri dat ts =
     (if ts = [] then None
      else Some \<lparr>vc_class = \<lparr>cls_id = cid, cls_uri = uri, cls_data = dat\<rparr>, vc_tokens = ts\<rparr>)"

text \<open>Only the first action of a kind decides the class, so the classes of a kind must agree.\<close>

lemma aggregate_actions:
  "foldl add_action (aggregator_new uri dat) as =
     \<lparr>agg_class_uri = uri, agg_class_data = dat,
      redemption = redemption_for (fst (hd (action_redemptions as))) uri dat (map snd (action_redemptions as)),
      creation = creation_for (fst (hd (action_creations as))) uri dat (map snd (action_creations as))\<rparr>"
proof (induction as rule: rev_induct)
  case Nil
  then show ?case by (simp add: aggregator_new_def redemption_for_def creation_for_def)
next
  case (snoc a as)
  then show ?case
    by (cases a) (auto simp: add_action_def redemption_for_def creation_for_def hd_append)
qed

section \<open>The submessage\<close>

definition callback_for ::
  "(ExecuteMsg \<Rightarrow> binary) \<Rightarrow> addr \<Rightarrow> addr \<Rightarrow> VoucherRedemption option \<Rightarrow> VoucherCreation option \<Rightarrow>
     CallbackMsg" where
  "callback_for enc self recv r c =
     (case (r, c) of
        (Some r', None) \<Rightarrow> RedeemVouchers (addr_str recv) r'
      | (None, Some c') \<Rightarrow> CreateVouchers (addr_str recv) c'
      | (Some r', Some c') \<Rightarrow>
          Conjunction [self_call enc self (RedeemVouchers (addr_str recv) r'),
                       self_call enc self (CreateVouchers (addr_str recv) c')]
      | (None, None) \<Rightarrow> Conjunction [])"

lemma into_submessage_run:
  assumes "execute_encoder h enc"
  shows "into_submessage h agg self recv s =
    (Ok (reply_always (self_call enc self (callback_for enc self recv (redemption agg) (creation agg)))
       ACK_AND_DO_NOTHING), s)"
  using assms
  by (cases "redemption agg"; cases "creation agg")
    (simp_all add: into_submessage_def execute_encoder_def redemption_into_wasm_msg_def
      creation_into_wasm_msg_def callback_for_def self_call_def prog_simps)

section \<open>The effect of a packet\<close>

definition packet_local :: "IbcPacket \<Rightarrow> NonFungibleTokenPacketData \<Rightarrow> string option" where
  "packet_local p d = try_pop_source_prefix (src p) (class_id_str (class_id d))"

definition packet_items :: "NonFungibleTokenPacketData \<Rightarrow> token_item list" where
  "packet_items d = zip_tokens (token_ids d) (token_uris d) (token_data d)"

definition redeemed_tokens :: "Bridge \<Rightarrow> IbcPacket \<Rightarrow> NonFungibleTokenPacketData \<Rightarrow> TokenId list" where
  "redeemed_tokens s p d =
     fst (split_items (returning s (packet_local p d) (channel_id (dest p))) (packet_items d))"

definition created_items :: "Bridge \<Rightarrow> IbcPacket \<Rightarrow> NonFungibleTokenPacketData \<Rightarrow> token_item list" where
  "created_items s p d =
     snd (split_items (returning s (packet_local p d) (channel_id (dest p))) (packet_items d))"

definition received :: "IbcPacket \<Rightarrow> NonFungibleTokenPacketData \<Rightarrow> Bridge \<Rightarrow> Bridge" where
  "received p d s =
     moved (local_class (packet_local p d)) (voucher_class p d) (channel_id (dest p))
       (redeemed_tokens s p d) (map item_id (created_items s p d)) s"

definition packet_redemption ::
  "Bridge \<Rightarrow> IbcPacket \<Rightarrow> NonFungibleTokenPacketData \<Rightarrow> VoucherRedemption option" where
  "packet_redemption s p d =
     redemption_for (local_class (packet_local p d)) (class_uri d) (class_data d) (redeemed_tokens s p d)"

definition packet_creation ::
  "Bridge \<Rightarrow> IbcPacket \<Rightarrow> NonFungibleTokenPacketData \<Rightarrow> VoucherCreation option" where
  "packet_creation s p d =
     creation_for (voucher_class p d) (class_uri d) (class_data d)
       (map item_token (created_items s p d))"

lemma map_fst_zip_packet: "packet_wf d \<Longrightarrow> map item_id (packet_items d) = token_ids d"
  using map_fst_zip_tokens [of "token_uris d" "token_ids d" "token_data d"]
  by (simp add: packet_items_def packet_wf_def)

lemma redeemed_tokens_set:
  assumes "packet_wf d"
  shows "distinct (redeemed_tokens s p d) \<and>
    set (redeemed_tokens s p d) =
      {t \<in> set (token_ids d). returning s (packet_local p d) (channel_id (dest p)) t}"
  using split_items_redeemed [of "returning s (packet_local p d) (channel_id (dest p))" "packet_items d"]
    map_fst_zip_packet [OF assms]
  by (simp add: redeemed_tokens_def) (metis image_set)

lemma redeemed_created_mset:
  assumes "packet_wf d"
  shows "mset (redeemed_tokens s p d) + mset (map item_id (created_items s p d)) = mset (token_ids d)"
  using split_items_mset [of "returning s (packet_local p d) (channel_id (dest p))" "packet_items d"]
    map_fst_zip_packet [OF assms]
  by (simp add: redeemed_tokens_def created_items_def flip: mset_map)

lemma returning_packet_iff:
  "returning s (packet_local p d) ch t \<longleftrightarrow>
     (\<exists>c. class_id d = ClassId (get_endpoint_prefix (src p) @ c) \<and>
        OUTGOING_CLASS_TOKEN_TO_CHANNEL s (ClassId c, t) = Some ch)"
  by (cases "class_id d")
    (auto simp: returning_def packet_local_def try_pop_Some_iff split: option.splits
      simp flip: not_None_eq)

lemma created_items_subseq: "subseq (created_items s p d) (packet_items d)"
  by (simp add: created_items_def split_items_subseq)

text \<open>No key of a packet is too long; the voucher class is the longest, so it is enough that this one fits.\<close>

definition keys_fit :: "Bridge \<Rightarrow> IbcPacket \<Rightarrow> NonFungibleTokenPacketData \<Rightarrow> bool" where
  "keys_fit s p d \<longleftrightarrow> items_fit p d (packet_local p d) (packet_items d) s"

lemma voucher_class_length: "class_key_fits (voucher_class p d) \<Longrightarrow> class_key_fits (local_class (packet_local p d))"
  by (cases "packet_local p d"; cases "class_id d")
    (auto simp: class_key_fits_def voucher_class_def local_class_def packet_local_def try_pop_Some_iff)

lemma keys_fitI: "class_key_fits (voucher_class p d) \<Longrightarrow> keys_fit s p d"
  by (simp add: keys_fit_def items_fit_def voucher_class_length)

lemma keys_fit_iff:
  "keys_fit s p d \<longleftrightarrow>
     (packet_items d = [] \<or> class_key_fits (local_class (packet_local p d))) \<and>
     (created_items s p d = [] \<or> class_key_fits (voucher_class p d))"
  by (simp add: keys_fit_def items_fit_def created_items_def)

lemma receive_fold_run:
  assumes "keys_fit s p d"
  shows "\<exists>acts. try_fold (select_action p d (packet_local p d)) [] (packet_items d) s = (Ok acts, received p d s) \<and>
     foldl add_action (aggregator_new (class_uri d) (class_data d)) acts =
       \<lparr>agg_class_uri = class_uri d, agg_class_data = class_data d,
        redemption = packet_redemption s p d, creation = packet_creation s p d\<rparr>"
proof -
  obtain acts where
    "try_fold (select_action p d (packet_local p d)) [] (packet_items d) s = (Ok acts, received p d s)"
    "action_redemptions acts = map (Pair (local_class (packet_local p d))) (redeemed_tokens s p d)"
    "action_creations acts = map (\<lambda>x. (voucher_class p d, item_token x)) (created_items s p d)"
    using select_actions_run [OF assms [unfolded keys_fit_def], of "[]"]
    by (auto simp: received_def redeemed_tokens_def created_items_def)
  then show ?thesis
    by (auto simp: aggregate_actions packet_redemption_def packet_creation_def redemption_for_def
        creation_for_def comp_def hd_map)
qed

definition receive_attributes :: "IbcPacket \<Rightarrow> NonFungibleTokenPacketData \<Rightarrow> attributes" where
  "receive_attributes p d =
     (case memo d of Some m \<Rightarrow> [(''ics721_memo'', m)] | None \<Rightarrow> []) @
     [(''method'', ''receive_ibc_packet''), (''class_id'', class_id_str (class_id d)),
      (''local_channel'', channel_id (dest p)), (''counterparty_channel'', channel_id (src p))]"

definition receive_submessage ::
  "(ExecuteMsg \<Rightarrow> binary) \<Rightarrow> addr \<Rightarrow> addr \<Rightarrow> Bridge \<Rightarrow> IbcPacket \<Rightarrow> NonFungibleTokenPacketData \<Rightarrow> SubMsg" where
  "receive_submessage enc self recv s p d =
     reply_always
       (self_call enc self (callback_for enc self recv (packet_redemption s p d) (packet_creation s p d)))
       ACK_AND_DO_NOTHING"

lemma receive_tokens_run:
  assumes "execute_encoder h enc" and "keys_fit s p d"
  shows "receive_tokens h env p d (packet_local p d) recv s =
    (Ok (receive_submessage enc (env_contract env) recv s p d), received p d s)"
proof -
  obtain acts where
    "try_fold (select_action p d (packet_local p d)) [] (packet_items d) s = (Ok acts, received p d s)"
    "foldl add_action (aggregator_new (class_uri d) (class_data d)) acts =
       \<lparr>agg_class_uri = class_uri d, agg_class_data = class_data d,
        redemption = packet_redemption s p d, creation = packet_creation s p d\<rparr>"
    using receive_fold_run [OF assms(2)] by blast
  then show ?thesis
    by (simp add: receive_tokens_def bnd_def into_submessage_run [OF assms(1)] receive_submessage_def
        flip: packet_items_def)
qed

lemma receive_tokens_too_long:
  assumes "\<not> keys_fit s p d"
  shows "\<exists>t. receive_tokens h env p d (packet_local p d) recv s = (Panic key_too_long, t)"
  using select_actions_too_long [OF assms [unfolded keys_fit_def], of "[]"]
  by (auto simp: receive_tokens_def bnd_def simp flip: packet_items_def)

lemma receive_ibc_packet_run:
  assumes "paused (PO s) = Some False" and "from_binary_packet h (pkt_data p) = Ok d"
    and "packet_wf d" and "addr_validate h (receiver d) = Ok recv" and "execute_encoder h enc"
    and "keys_fit s p d"
  shows "receive_ibc_packet h env p s =
    (Ok (receive_response [receive_submessage enc (env_contract env) recv s p d] (receive_attributes p d)),
     received p d s)"
  using assms
  by (simp add: receive_ibc_packet_def bnd_def err_into_def with_po_def zoom_def error_if_paused_run
      std_run lift_def ret_def validate_Ok_iff [THEN iffD2] receive_tokens_run
      receive_attributes_def flip: packet_local_def)

lemma receive_ibc_packet_Ok_iff:
  assumes "execute_encoder h enc"
  shows "receive_ibc_packet h env p s = (Ok resp, t) \<longleftrightarrow>
    (\<exists>d recv. paused (PO s) = Some False \<and> from_binary_packet h (pkt_data p) = Ok d \<and> packet_wf d \<and>
       addr_validate h (receiver d) = Ok recv \<and> keys_fit s p d \<and>
       resp = receive_response [receive_submessage enc (env_contract env) recv s p d] (receive_attributes p d) \<and>
       t = received p d s)" (is "?run \<longleftrightarrow> ?rhs")
proof
  assume ?run
  then obtain d recv u where ok: "paused (PO s) = Some False" "from_binary_packet h (pkt_data p) = Ok d"
      "packet_wf d" "addr_validate h (receiver d) = Ok recv"
    and "receive_tokens h env p d (packet_local p d) recv s = (Ok u, t)"
    by (auto simp: receive_ibc_packet_def prog_iffs validate_Ok_iff simp flip: packet_local_def)
  moreover from this have "keys_fit s p d" using receive_tokens_too_long [of s p d h env recv] by fastforce
  ultimately show ?rhs using \<open>?run\<close> receive_ibc_packet_run [OF ok assms, of env] by auto
next
  assume ?rhs
  then show ?run using receive_ibc_packet_run assms by auto
qed

text \<open>A packet that is refused with an error leaves no trace in storage.\<close>

lemma receive_tokens_no_error:
  assumes "execute_encoder h enc"
  shows "receive_tokens h env p d (packet_local p d) recv s \<noteq> (Err e, t)"
  using receive_tokens_run [OF assms, of s p d env recv] receive_tokens_too_long [of s p d h env recv]
  by (cases "keys_fit s p d") auto

lemma receive_ibc_packet_fail:
  assumes "execute_encoder h enc" and "receive_ibc_packet h env p s = (Err e, t)"
  shows "t = s"
proof -
  have nok: "\<not> is_ok (Err e :: (ContractError, IbcReceiveResponse) outcome)" by simp
  note rd = bnd_readonly_fail [OF _ _ nok]
  have ro: "readonly (err_into Pause (with_po error_if_paused))"
    by (intro readonly_err_into with_po_readonly readonly_error_if_paused)
  show ?thesis
    using assms(2) unfolding receive_ibc_packet_def bnd_simps(1)
    by (elim rd [OF ro] rd [OF readonly_std] rd [OF readonly_basic(3)])
      (auto simp: bnd_def err_into_def ret_def map_err_Err_iff
        receive_tokens_no_error [OF assms(1), unfolded packet_local_def] split: prod.splits outcome.splits)
qed

end
