(* ===== verification/Bridge_Ibc.thy ===== *)
theory Bridge_Ibc
  imports Bridge_Receive
begin

text \<open>
  \<^verbatim>\<open>ibc.rs\<close>: the IBC entry points of the bridge (channel handshake and closing, packet receipt,
  acknowledgement and timeout) and the reply handler. Proved: what each does to storage and which
  messages it emits, on every branch.
\<close>

section \<open>Channels\<close>

definition ibc_channel_open ::
  "IbcChannelOpenMsg \<Rightarrow> (Bridge, ContractError, string option) prog" where
  "ibc_channel_open msg =
     bnd (lift (validate_order_and_version (open_channel msg) (open_counterparty_version msg))) (\<lambda>_.
     ret None)"

definition ibc_channel_connect ::
  "IbcChannelConnectMsg \<Rightarrow> (Bridge, ContractError, IbcBasicResponse) prog" where
  "ibc_channel_connect msg =
     bnd (lift (validate_order_and_version (connect_channel msg) (connect_counterparty_version msg))) (\<lambda>_.
     ret (basic_response []
       [(''method'', ''ibc_channel_connect''),
        (''channel'', channel_id (endpoint (connect_channel msg))),
        (''port'', port_id (endpoint (connect_channel msg)))]))"

definition ibc_channel_close ::
  "IbcChannelCloseMsg \<Rightarrow> (Bridge, ContractError, IbcBasicResponse) prog" where
  "ibc_channel_close msg =
     (case msg of
        CloseInit _ \<Rightarrow> throw CantCloseChannel
      | CloseConfirm _ \<Rightarrow> ret (basic_response [] []))"

section \<open>Packets\<close>

text \<open>
  The error type of the handler is \<^verbatim>\<open>Never\<close>, an enum without variants: here it is a type variable,
  so no error value can be made up.
\<close>

definition ibc_packet_receive ::
  "host \<Rightarrow> Env \<Rightarrow> IbcPacket \<Rightarrow> (Bridge, 'never, IbcReceiveResponse) prog" where
  "ibc_packet_receive h env packet s =
     (case receive_ibc_packet h env packet s of
        (Ok resp, s') \<Rightarrow> (Ok resp, s')
      | (Err error, s') \<Rightarrow>
          bnd (lift (ack_fail h (contract_error_to_string h error))) (\<lambda>ack.
          ret (set_ack ack (receive_response []
            [(''method'', ''ibc_packet_receive''), (''error'', contract_error_to_string h error)]))) s'
      | (Panic p, s') \<Rightarrow> (Panic p, s'))"

definition handle_packet_fail ::
  "host \<Rightarrow> IbcPacket \<Rightarrow> string \<Rightarrow> (Bridge, ContractError, IbcBasicResponse) prog" where
  "handle_packet_fail h packet error =
     bnd (std (from_binary_packet h (pkt_data packet))) (\<lambda>message.
     bnd (err_into Std (load ''Addr'' (\<lambda>s. CLASS_ID_TO_NFT_CONTRACT s (class_id message)))) (\<lambda>nft_address.
     bnd (std (addr_validate h (sender message))) (\<lambda>sender_addr.
     bnd (err_into Std (traverse
       (\<lambda>tid.
          bnd (at_pair (class_id message, tid) (writes (outgoing_remove (class_id message, tid)))) (\<lambda>_.
          lift (transfer_msg h nft_address sender_addr tid)))
       (token_ids message))) (\<lambda>msgs.
     ret (basic_response (map (\<lambda>m. submsg_new (Wasm m)) msgs)
       [(''method'', ''handle_packet_fail''),
        (''token_ids'', debug_token_ids h (token_ids message)),
        (''class_id'', class_id_str (class_id message)),
        (''channel_id'', channel_id (src packet)),
        (''address_refunded'', sender message),
        (''error'', error)])))))"

text \<open>The closure of the \<^verbatim>\<open>try_fold\<close> in \<^verbatim>\<open>ibc_packet_ack\<close>: burn what came in on this channel.\<close>

definition burn_step ::
  "host \<Rightarrow> addr \<Rightarrow> ClassId \<Rightarrow> string \<Rightarrow> WasmMsg list \<Rightarrow> TokenId \<Rightarrow> (Bridge, StdError, WasmMsg list) prog" where
  "burn_step h nft_contract cid channel msgs token =
     (let key = (cid, token) in
      bnd (at_pair key (reads (\<lambda>s. INCOMING_CLASS_TOKEN_TO_CHANNEL s key))) (\<lambda>source_channel.
      if map_or False (\<lambda>c. c = channel) source_channel then
        bnd (at_pair key (writes (incoming_remove key))) (\<lambda>_.
        bnd (at_pair key (writes (metadata_remove key))) (\<lambda>_.
        bnd (lift (to_binary_cw721 h (Burn (token_id_str token)))) (\<lambda>bytes.
        ret (msgs @ [WasmExecute (addr_str nft_contract) bytes]))))
      else ret msgs))"

definition ibc_packet_ack ::
  "host \<Rightarrow> IbcPacketAckMsg \<Rightarrow> (Bridge, ContractError, IbcBasicResponse) prog" where
  "ibc_packet_ack h ack =
     bnd (lift (try_get_ack_error h (ack_data ack))) (\<lambda>err.
     case err of
       Some error \<Rightarrow> handle_packet_fail h (original_packet ack) error
     | None \<Rightarrow>
         bnd (std (from_binary_packet h (pkt_data (original_packet ack)))) (\<lambda>msg.
         bnd (err_into Std (load ''Addr'' (\<lambda>s. CLASS_ID_TO_NFT_CONTRACT s (class_id msg)))) (\<lambda>nft_contract.
         bnd (err_into Std (try_fold
           (burn_step h nft_contract (class_id msg) (channel_id (src (original_packet ack))))
           [] (token_ids msg))) (\<lambda>burn_notices.
         ret (basic_response (map (\<lambda>m. submsg_new (Wasm m)) burn_notices)
           [(''method'', ''acknowledge''), (''sender'', sender msg), (''receiver'', receiver msg),
            (''classId'', class_id_str (class_id msg)),
            (''token_ids'', debug_token_ids h (token_ids msg))])))))"

definition ibc_packet_timeout ::
  "host \<Rightarrow> IbcPacket \<Rightarrow> (Bridge, ContractError, IbcBasicResponse) prog" where
  "ibc_packet_timeout h packet = handle_packet_fail h packet ''timeout''"

section \<open>Replies\<close>

definition reply_cw721 :: "host \<Rightarrow> Reply \<Rightarrow> (Bridge, ContractError, Response) prog" where
  "reply_cw721 h r =
     bnd (lift (map_err ParseReply (parse_reply_instantiate_data h r))) (\<lambda>contract_address.
     bnd (std (addr_validate h contract_address)) (\<lambda>cw721_addr.
     bnd (std (query_contract_info h cw721_addr)) (\<lambda>info.
     bnd (writes (class_contract_save (ClassId (fst info)) cw721_addr)) (\<lambda>_.
     bnd (writes (contract_class_save cw721_addr (ClassId (fst info)))) (\<lambda>_.
     ret (response []
       [(''method'', ''instantiate_cw721_reply''), (''class_id'', fst info),
        (''cw721_addr'', addr_str cw721_addr)]))))))"

definition reply_proxy :: "host \<Rightarrow> Reply \<Rightarrow> (Bridge, ContractError, Response) prog" where
  "reply_proxy h r =
     bnd (lift (map_err ParseReply (parse_reply_instantiate_data h r))) (\<lambda>contract_address.
     bnd (std (addr_validate h contract_address)) (\<lambda>proxy_addr.
     bnd (writes (PROXY_update (\<lambda>_. Some (Some proxy_addr)))) (\<lambda>_.
     ret (response []
       [(''method'', ''instantiate_proxy_reply_id''), (''proxy'', contract_address)]))))"

definition reply :: "host \<Rightarrow> Reply \<Rightarrow> (Bridge, ContractError, Response) prog" where
  "reply h r =
     (if reply_id r = INSTANTIATE_CW721_REPLY_ID then reply_cw721 h r
      else if reply_id r = INSTANTIATE_PROXY_REPLY_ID then reply_proxy h r
      else if reply_id r = ACK_AND_DO_NOTHING then
        (case reply_result r of
           SubMsgOk _ \<Rightarrow>
             bnd (lift (ack_success h)) (\<lambda>ack. ret (set_data ack (response [] [])))
         | SubMsgErr err \<Rightarrow>
             bnd (lift (ack_fail h err)) (\<lambda>ack. ret (set_data ack (response [] []))))
      else throw UnrecognisedReplyId)"

section \<open>Behaviour of the packet handlers\<close>

definition refunded :: "NonFungibleTokenPacketData \<Rightarrow> Bridge \<Rightarrow> Bridge" where
  "refunded d s =
     s\<lparr>OUTGOING_CLASS_TOKEN_TO_CHANNEL :=
       (\<lambda>k. if k \<in> Pair (class_id d) ` set (token_ids d) then None
            else OUTGOING_CLASS_TOKEN_TO_CHANNEL s k)\<rparr>"

lemma handle_packet_fail_run:
  assumes "from_binary_packet h (pkt_data p) = Ok d"
    and "CLASS_ID_TO_NFT_CONTRACT s (class_id d) = Some collection"
    and "addr_validate h (sender d) = Ok owner" and "cw721_encoder h enc" and "class_key_fits (class_id d)"
  shows "\<exists>resp. handle_packet_fail h p e s = (Ok resp, refunded d s) \<and>
    basic_messages resp = map (transfer_call enc collection owner) (token_ids d)"
proof -
  have "traverse (\<lambda>tid. bnd (at_pair (class_id d, tid) (writes (outgoing_remove (class_id d, tid))))
        (\<lambda>_. lift (transfer_msg h collection owner tid))) (token_ids d) s =
      (Ok (map (\<lambda>t. WasmExecute (addr_str collection) (enc (TransferNft (addr_str owner) (token_id_str t)))) (token_ids d)),
       refunded d s)"
    using assms(4,5)
    by (simp add: traverse_writes_run transfer_msg_Ok fold_store_updates refunded_def)
  with assms(1-3) show ?thesis
    by (simp add: handle_packet_fail_def bnd_def err_into_def std_run load_simps ret_def
        transfer_call_def cw721_call_def)
qed

lemma handle_packet_fail_Ok:
  assumes "handle_packet_fail h p e s = (Ok resp, t)"
  obtains d collection owner msgs where "from_binary_packet h (pkt_data p) = Ok d"
    "CLASS_ID_TO_NFT_CONTRACT s (class_id d) = Some collection"
    "addr_validate h (sender d) = Ok owner"
    "list_all2 (\<lambda>x y. transfer_msg h collection owner x = Ok y) (token_ids d) msgs"
    "basic_messages resp = map (\<lambda>m. submsg_new (Wasm m)) msgs"
    "t = refunded d s"
  using assms
  by (auto simp: handle_packet_fail_def prog_iffs traverse_at_pair_Ok_iff fold_store_updates refunded_def)

text \<open>Burning: the first occurrence of each token that came in on the channel.\<close>

definition came_in :: "Bridge \<Rightarrow> ClassId \<Rightarrow> string \<Rightarrow> TokenId \<Rightarrow> bool" where
  "came_in s cid ch t \<longleftrightarrow> INCOMING_CLASS_TOKEN_TO_CHANNEL s (cid, t) = Some ch"

definition bare_items :: "TokenId list \<Rightarrow> token_item list" where
  "bare_items ts = map (\<lambda>t. ((t, None), None)) ts"

definition burned_tokens :: "Bridge \<Rightarrow> ClassId \<Rightarrow> string \<Rightarrow> TokenId list \<Rightarrow> TokenId list" where
  "burned_tokens s cid ch ts = fst (split_items (came_in s cid ch) (bare_items ts))"

definition forgotten :: "ClassId \<Rightarrow> TokenId list \<Rightarrow> Bridge \<Rightarrow> Bridge" where
  "forgotten cid ts s =
     s\<lparr>INCOMING_CLASS_TOKEN_TO_CHANNEL :=
         (\<lambda>k. if k \<in> Pair cid ` set ts then None else INCOMING_CLASS_TOKEN_TO_CHANNEL s k),
       TOKEN_METADATA := (\<lambda>k. if k \<in> Pair cid ` set ts then None else TOKEN_METADATA s k)\<rparr>"

lemma burned_tokens_set:
  "distinct (burned_tokens s cid ch ts) \<and>
   set (burned_tokens s cid ch ts) = {t \<in> set ts. INCOMING_CLASS_TOKEN_TO_CHANNEL s (cid, t) = Some ch}"
  using split_items_redeemed [of "came_in s cid ch" "bare_items ts"]
  by (auto simp: burned_tokens_def bare_items_def came_in_def image_image)

lemma came_in_after:
  "came_in (metadata_remove (cid, t) (incoming_remove (cid, t) s)) cid ch =
     (\<lambda>u. came_in s cid ch u \<and> u \<noteq> t)"
  by (auto simp: came_in_def store_defs fun_eq_iff)

lemma forgotten_after:
  "forgotten cid ts (metadata_remove (cid, t) (incoming_remove (cid, t) s)) = forgotten cid (t # ts) s"
  by (auto simp: forgotten_def store_defs fun_eq_iff intro!: Bridge.equality)

lemma burn_fold_run:
  assumes "cw721_encoder h enc" and fits: "ts = [] \<or> class_key_fits cid"
  shows "try_fold (burn_step h a cid ch) msgs ts s =
    (Ok (msgs @ map (\<lambda>t. WasmExecute (addr_str a) (enc (Burn (token_id_str t)))) (burned_tokens s cid ch ts)),
     forgotten cid (burned_tokens s cid ch ts) s)"
  using fits
proof (induction ts arbitrary: s msgs)
  case Nil
  show ?case by (simp add: burned_tokens_def bare_items_def forgotten_def ret_def)
next
  case (Cons t ts)
  then have fit: "class_key_fits cid" and IH: "ts = [] \<or> class_key_fits cid" by auto
  show ?case
  proof (cases "came_in s cid ch t")
    case True
    have "try_fold (burn_step h a cid ch) msgs (t # ts) s =
        try_fold (burn_step h a cid ch) (msgs @ [WasmExecute (addr_str a) (enc (Burn (token_id_str t)))]) ts
          (metadata_remove (cid, t) (incoming_remove (cid, t) s))"
      using True assms(1) fit
      by (simp add: bnd_def burn_step_def came_in_def prog_defs cw721_encoder_def Let_def)
    with Cons.IH [OF IH, of "msgs @ [WasmExecute (addr_str a) (enc (Burn (token_id_str t)))]"
        "metadata_remove (cid, t) (incoming_remove (cid, t) s)"] True
    show ?thesis
      by (simp add: burned_tokens_def bare_items_def came_in_after forgotten_after Let_def)
  next
    case False
    then have "try_fold (burn_step h a cid ch) msgs (t # ts) s = try_fold (burn_step h a cid ch) msgs ts s"
      using fit by (auto simp: bnd_def burn_step_def came_in_def prog_defs Let_def map_or_option split: option.splits)
    with Cons.IH [OF IH, of msgs s] False show ?thesis
      by (simp add: burned_tokens_def bare_items_def Let_def)
  qed
qed

lemma ibc_packet_ack_success_run:
  assumes "try_get_ack_error h (ack_data a) = (Ok None :: (ContractError, string option) outcome)"
    and "from_binary_packet h (pkt_data (original_packet a)) = Ok d"
    and "CLASS_ID_TO_NFT_CONTRACT s (class_id d) = Some collection" and "cw721_encoder h enc"
    and "token_ids d = [] \<or> class_key_fits (class_id d)"
  shows "\<exists>resp. ibc_packet_ack h a s =
      (Ok resp, forgotten (class_id d)
         (burned_tokens s (class_id d) (channel_id (src (original_packet a))) (token_ids d)) s) \<and>
    basic_messages resp = map (\<lambda>t. cw721_call enc collection (Burn (token_id_str t)))
      (burned_tokens s (class_id d) (channel_id (src (original_packet a))) (token_ids d))"
  using assms
  by (simp add: ibc_packet_ack_def bnd_def err_into_def std_run load_simps lift_def ret_def
      burn_fold_run [OF assms(4,5)] cw721_call_def)

text \<open>An acknowledgement that was handled found the collection and could form the keys.\<close>

lemma ibc_packet_ack_success_Ok:
  assumes "try_get_ack_error h (ack_data a) = (Ok None :: (ContractError, string option) outcome)"
    and "from_binary_packet h (pkt_data (original_packet a)) = Ok d" and "cw721_encoder h enc"
    and "ibc_packet_ack h a s = (Ok resp, t)"
  obtains collection where "CLASS_ID_TO_NFT_CONTRACT s (class_id d) = Some collection"
    "token_ids d = [] \<or> class_key_fits (class_id d)"
    "t = forgotten (class_id d)
       (burned_tokens s (class_id d) (channel_id (src (original_packet a))) (token_ids d)) s"
    "basic_messages resp = map (\<lambda>t. cw721_call enc collection (Burn (token_id_str t)))
       (burned_tokens s (class_id d) (channel_id (src (original_packet a))) (token_ids d))"
proof -
  from assms(1,2,4) obtain collection msgs where c: "CLASS_ID_TO_NFT_CONTRACT s (class_id d) = Some collection"
    and "try_fold (burn_step h collection (class_id d) (channel_id (src (original_packet a)))) [] (token_ids d) s = (Ok msgs, t)"
    by (auto simp: ibc_packet_ack_def prog_iffs)
  then have f: "token_ids d = [] \<or> class_key_fits (class_id d)"
    by (cases "token_ids d") (auto simp: burn_step_def Let_def prog_iffs)
  from ibc_packet_ack_success_run [OF assms(1,2) c assms(3) f] assms(4) show thesis
    by (intro that [OF c f]) auto
qed

lemma ibc_packet_receive_reject:
  assumes "receive_ibc_packet h env p s = (Err e, t)"
    and "to_binary_ack h (AckError (contract_error_to_string h e)) = Ok b"
  shows "ibc_packet_receive h env p s =
    (Ok (set_ack b (receive_response []
       [(''method'', ''ibc_packet_receive''), (''error'', contract_error_to_string h e)])), t)"
  using assms by (simp add: ibc_packet_receive_def ack_fail_def prog_defs)

lemma ibc_packet_receive_accept:
  "receive_ibc_packet h env p s = (Ok r, t) \<Longrightarrow> ibc_packet_receive h env p s = (Ok r, t)"
  by (simp add: ibc_packet_receive_def)

lemma reply_ids_distinct [simp]:
  "ACK_AND_DO_NOTHING \<noteq> INSTANTIATE_CW721_REPLY_ID" "ACK_AND_DO_NOTHING \<noteq> INSTANTIATE_PROXY_REPLY_ID"
  "INSTANTIATE_PROXY_REPLY_ID \<noteq> INSTANTIATE_CW721_REPLY_ID"
  by (simp_all add: ACK_AND_DO_NOTHING_def INSTANTIATE_CW721_REPLY_ID_def INSTANTIATE_PROXY_REPLY_ID_def)

lemma reply_ack_run:
  assumes "reply_id r = ACK_AND_DO_NOTHING"
  shows "reply h r s =
    (case reply_result r of
       SubMsgOk _ \<Rightarrow> (map_ok (\<lambda>a. set_data a (response [] [])) (ack_success h), s)
     | SubMsgErr e \<Rightarrow> (map_ok (\<lambda>a. set_data a (response [] [])) (ack_fail h e), s))"
  using assms
  by (cases "ack_success h :: (ContractError, binary) outcome")
    (auto simp: reply_def prog_defs split: SubMsgResult.splits outcome.splits)

lemma reply_cw721_Ok_iff:
  "reply_cw721 h r s = (Ok resp, t) \<longleftrightarrow>
     (\<exists>str a info. parse_reply_instantiate_data h r = Ok str \<and> addr_validate h str = Ok a \<and>
        query_contract_info h a = Ok info \<and>
        t = contract_class_save a (ClassId (fst info)) (class_contract_save (ClassId (fst info)) a s) \<and>
        resp = response [] [(''method'', ''instantiate_cw721_reply''), (''class_id'', fst info),
          (''cw721_addr'', addr_str a)])"
  by (auto simp: reply_cw721_def prog_iffs)

lemma reply_proxy_Ok_iff:
  "reply_proxy h r s = (Ok resp, t) \<longleftrightarrow>
     (\<exists>str a. parse_reply_instantiate_data h r = Ok str \<and> addr_validate h str = Ok a \<and>
        t = s\<lparr>PROXY := Some (Some a)\<rparr> \<and>
        resp = response [] [(''method'', ''instantiate_proxy_reply_id''), (''proxy'', str)])"
  by (auto simp: reply_proxy_def prog_iffs)


lemma reply_ack_readback:
  assumes "ack_codec_ok h" and "reply_id r = ACK_AND_DO_NOTHING"
  shows "\<exists>resp b. reply h r s = (Ok resp, s) \<and> messages resp = [] \<and> data resp = Some b \<and>
    try_get_ack_error h b =
      (Ok (case reply_result r of SubMsgOk _ \<Rightarrow> None | SubMsgErr e \<Rightarrow> Some e) ::
        (ContractError, string option) outcome)"
proof -
  let ?a = "case reply_result r of SubMsgOk _ \<Rightarrow> AckResult ''1'' | SubMsgErr e \<Rightarrow> AckError e"
  obtain b where "to_binary_ack h ?a = Ok b" "from_binary_ack h b = Ok ?a"
    by (rule ack_codec_okE [OF assms(1)])
  then show ?thesis
    by (auto simp: reply_ack_run [OF assms(2)] ack_success_def ack_fail_def try_get_ack_error_def
        split: SubMsgResult.splits)
qed

text \<open>The host calls of packet receipt return a value or an error.\<close>

definition receive_host_ok :: "host \<Rightarrow> (ExecuteMsg \<Rightarrow> binary) \<Rightarrow> bool" where
  "receive_host_ok h enc \<longleftrightarrow>
     execute_encoder h enc \<and> ack_codec_ok h \<and>
     (\<forall>b q. from_binary_packet h b \<noteq> Panic q) \<and> (\<forall>a q. addr_validate h a \<noteq> Panic q)"

lemma packet_items_nonempty: "packet_wf d \<Longrightarrow> packet_items d \<noteq> []"
  using map_fst_zip_packet [of d] by (auto simp: packet_wf_def)

lemma receive_ibc_packet_too_long:
  assumes "paused (PO s) = Some False" and "from_binary_packet h (pkt_data p) = Ok d"
    and "packet_wf d" and "is_ok (addr_validate h (receiver d))" and "\<not> keys_fit s p d"
  shows "\<exists>t. receive_ibc_packet h env p s = (Panic key_too_long, t)"
proof -
  obtain recv where "addr_validate h (receiver d) = Ok recv"
    using assms(4) by (auto simp: is_ok_def split: outcome.splits)
  moreover obtain t where "receive_tokens h env p d (packet_local p d) recv s = (Panic key_too_long, t)"
    using receive_tokens_too_long [OF assms(5)] by blast
  ultimately show ?thesis
    using assms(1-3)
    by (simp add: receive_ibc_packet_def bnd_def err_into_def with_po_def zoom_def error_if_paused_run
        std_run lift_def ret_def validate_Ok_iff [THEN iffD2] flip: packet_local_def)
qed

lemma receive_ibc_packet_panic:
  assumes "receive_host_ok h enc" and "receive_ibc_packet h env p s = (Panic q, t)"
  shows "\<exists>d. q = key_too_long \<and> paused (PO s) = Some False \<and> from_binary_packet h (pkt_data p) = Ok d \<and>
    packet_wf d \<and> is_ok (addr_validate h (receiver d)) \<and> \<not> keys_fit s p d"
proof -
  have enc: "execute_encoder h enc" and dec: "from_binary_packet h (pkt_data p) \<noteq> Panic q"
    and av: "\<And>a. addr_validate h a \<noteq> Panic q"
    using assms(1) by (auto simp: receive_host_ok_def)
  have val: "validate d \<noteq> Panic q" for d
    using validate_Ok_iff [of d] validate_Err [of d] by auto
  from assms(2) dec av val obtain d recv where ok: "paused (PO s) = Some False"
      "from_binary_packet h (pkt_data p) = Ok d" "packet_wf d" "addr_validate h (receiver d) = Ok recv"
    and run: "fst (receive_tokens h env p d (packet_local p d) recv s) = Panic q"
    by (cases "paused (PO s)"; cases "from_binary_packet h (pkt_data p)")
      (auto simp: receive_ibc_packet_def bnd_def err_into_def with_po_def zoom_def error_if_paused_def
        load_def ret_def throw_def std_run lift_def validate_Ok_iff simp flip: packet_local_def
        split: outcome.splits prod.splits if_splits)
  have "\<not> keys_fit s p d" using run receive_tokens_run [OF enc, of s p d env recv] by auto
  moreover from this have "q = key_too_long" using run receive_tokens_too_long [of s p d h env recv] by auto
  ultimately show ?thesis using ok by auto
qed

section \<open>Properties\<close>

text \<open>C3: A packet that the bridge accepts (not paused, decodable, well formed, valid receiver, and a
  class whose local identifier is short enough for a storage key) is handled without error and as a whole. The tokens that left on the channel it arrives on, under
  the class the sender's prefix is stripped to, are redeemed, each exactly once; every other token
  of the packet, with its URI and data, becomes a voucher of the class prefixed with the local
  endpoint; nothing is lost or duplicated. The redeemed keys leave the outgoing map, the created
  keys enter the incoming map with the local channel, nothing else is written, and the work is
  handed over in one submessage whose outcome is always replied to.\<close>

theorem packet_receive_accepts:
  assumes "paused (PO s) = Some False" and "from_binary_packet h (pkt_data p) = Ok d"
    and "packet_wf d" and "addr_validate h (receiver d) = Ok recv" and "execute_encoder h enc"
    and "class_key_fits (voucher_class p d)"
  shows "\<exists>resp redeemed created.
    ibc_packet_receive h env p s =
      (Ok resp,
       s\<lparr>OUTGOING_CLASS_TOKEN_TO_CHANNEL :=
           (\<lambda>k. if k \<in> Pair (local_class (packet_local p d)) ` set redeemed then None
                else OUTGOING_CLASS_TOKEN_TO_CHANNEL s k),
         INCOMING_CLASS_TOKEN_TO_CHANNEL :=
           (\<lambda>k. if k \<in> Pair (voucher_class p d) ` set (map tok_id created) then Some (channel_id (dest p))
                else INCOMING_CLASS_TOKEN_TO_CHANNEL s k)\<rparr>) \<and>
    distinct redeemed \<and>
    set redeemed =
      {t \<in> set (token_ids d). \<exists>c. class_id d = ClassId (get_endpoint_prefix (src p) @ c) \<and>
         OUTGOING_CLASS_TOKEN_TO_CHANNEL s (ClassId c, t) = Some (channel_id (dest p))} \<and>
    mset redeemed + mset (map tok_id created) = mset (token_ids d) \<and>
    subseq created (map item_token (zip_tokens (token_ids d) (token_uris d) (token_data d))) \<and>
    recv_messages resp =
      [reply_always
         (self_call enc (env_contract env)
           (callback_for enc (env_contract env) recv
             (redemption_for (local_class (packet_local p d)) (class_uri d) (class_data d) redeemed)
             (creation_for (voucher_class p d) (class_uri d) (class_data d) created)))
         ACK_AND_DO_NOTHING]"
proof (intro exI conjI)
  let ?redeemed = "redeemed_tokens s p d" and ?created = "map item_token (created_items s p d)"
  have ids: "map tok_id ?created = map item_id (created_items s p d)"
    by (simp add: item_token_def)
  show "ibc_packet_receive h env p s =
      (Ok (receive_response [receive_submessage enc (env_contract env) recv s p d] (receive_attributes p d)),
       s\<lparr>OUTGOING_CLASS_TOKEN_TO_CHANNEL :=
           (\<lambda>k. if k \<in> Pair (local_class (packet_local p d)) ` set ?redeemed then None
                else OUTGOING_CLASS_TOKEN_TO_CHANNEL s k),
         INCOMING_CLASS_TOKEN_TO_CHANNEL :=
           (\<lambda>k. if k \<in> Pair (voucher_class p d) ` set (map tok_id ?created) then Some (channel_id (dest p))
                else INCOMING_CLASS_TOKEN_TO_CHANNEL s k)\<rparr>)"
    using ibc_packet_receive_accept [OF receive_ibc_packet_run [OF assms(1-5) keys_fitI [OF assms(6)]]]
    unfolding ids by (simp add: received_def moved_def)
  show "distinct ?redeemed" using redeemed_tokens_set [OF assms(3)] by blast
  show "set ?redeemed =
      {t \<in> set (token_ids d). \<exists>c. class_id d = ClassId (get_endpoint_prefix (src p) @ c) \<and>
         OUTGOING_CLASS_TOKEN_TO_CHANNEL s (ClassId c, t) = Some (channel_id (dest p))}"
    using redeemed_tokens_set [OF assms(3), of s p] by (simp add: returning_packet_iff)
  show "mset ?redeemed + mset (map tok_id ?created) = mset (token_ids d)"
    using redeemed_created_mset [OF assms(3)] unfolding ids .
  show "subseq ?created (map item_token (zip_tokens (token_ids d) (token_uris d) (token_data d)))"
    using subseq_map [OF created_items_subseq [of s p d]] unfolding packet_items_def .
qed (simp add: receive_submessage_def packet_redemption_def packet_creation_def)

theorem packet_receive_accepts_witness:
  "\<exists>resp t.
    ibc_packet_receive (packet_host (sample_data ''wasm.a/channel-7/nft'' [''1'', ''2''])) sample_env
      sample_packet sample_bridge = (Ok resp, t) \<and>
    OUTGOING_CLASS_TOKEN_TO_CHANNEL t (ClassId ''nft'', TokenId ''1'') = None"
proof -
  let ?d = "sample_data ''wasm.a/channel-7/nft'' [''1'', ''2'']"
  have prem: "paused (PO sample_bridge) = Some False"
    "from_binary_packet (packet_host ?d) (pkt_data sample_packet) = Ok ?d"
    "packet_wf ?d" "addr_validate (packet_host ?d) (receiver ?d) = Ok (Addr ''bob'')"
    "execute_encoder (packet_host ?d) code_execute" "class_key_fits (voucher_class sample_packet ?d)"
    by (simp_all add: sample_defs packet_wf_def opt_len_ok_def class_key_fits_def voucher_class_def get_endpoint_prefix_def)
  have away: "{t \<in> set (token_ids ?d). \<exists>c. class_id ?d = ClassId (get_endpoint_prefix (src sample_packet) @ c) \<and>
      OUTGOING_CLASS_TOKEN_TO_CHANNEL sample_bridge (ClassId c, t) = Some (channel_id (dest sample_packet))} =
      {TokenId ''1''}"
    by (auto simp: sample_defs get_endpoint_prefix_def)
  have local: "local_class (packet_local sample_packet ?d) = ClassId ''nft''"
    by (simp add: sample_defs get_endpoint_prefix_def local_class_def packet_local_def try_pop_source_prefix_def)
  show ?thesis
    using packet_receive_accepts [OF prem, of sample_env] away local
    by (elim exE conjE) (intro exI conjI, assumption, simp)
qed

text \<open>C13: Packet receipt answers every packet, with one exception. Whatever the state and the packet, the
  handler returns a response, so that an acknowledgement is committed, unless the packet is
  otherwise acceptable and a class identifier it leads to is longer than a storage key can hold: then,
  and only then, the storage library's panic aborts the call. A packet it cannot accept for another reason
  is answered with a failure acknowledgement that reads back as the error, sends no message and
  leaves the storage untouched.\<close>

theorem packet_receive_total:
  assumes "receive_host_ok h enc"
  shows "(\<exists>resp t. ibc_packet_receive h env p s = (Ok resp, t) \<and>
      (\<forall>e u. receive_ibc_packet h env p s = (Err e, u) \<longrightarrow>
         t = s \<and> recv_messages resp = [] \<and>
         try_get_ack_error h (acknowledgement resp) =
           (Ok (Some (contract_error_to_string h e)) :: (ContractError, string option) outcome))) \<longleftrightarrow>
    \<not> (\<exists>d. paused (PO s) = Some False \<and> from_binary_packet h (pkt_data p) = Ok d \<and> packet_wf d \<and>
         is_ok (addr_validate h (receiver d)) \<and>
         (\<not> class_key_fits (local_class (packet_local p d)) \<or>
          created_items s p d \<noteq> [] \<and> \<not> class_key_fits (voucher_class p d)))"
    (is "?answered \<longleftrightarrow> \<not> ?too_long")
proof -
  have enc: "execute_encoder h enc" and codec: "ack_codec_ok h"
    using assms by (simp_all add: receive_host_ok_def)
  have long: "?too_long \<longleftrightarrow> (\<exists>d. paused (PO s) = Some False \<and> from_binary_packet h (pkt_data p) = Ok d \<and>
      packet_wf d \<and> is_ok (addr_validate h (receiver d)) \<and> \<not> keys_fit s p d)"
    using packet_items_nonempty by (auto simp: keys_fit_iff)
  obtain r t where run: "receive_ibc_packet h env p s = (r, t)" by fastforce
  show ?thesis
  proof (cases r)
    case (Ok resp)
    have "\<not> ?too_long" unfolding long
      using run Ok receive_ibc_packet_Ok_iff [OF enc, of env p s resp t] by auto
    then show ?thesis using run Ok ibc_packet_receive_accept by force
  next
    case (Err e)
    have "\<not> ?too_long" unfolding long
    proof clarify
      fix d assume d: "paused (PO s) = Some False" "from_binary_packet h (pkt_data p) = Ok d" "packet_wf d"
        "is_ok (addr_validate h (receiver d))" "\<not> keys_fit s p d"
      then have "\<exists>t. receive_ibc_packet h env p s = (Panic key_too_long, t)" by (rule receive_ibc_packet_too_long)
      with run Err show False by simp
    qed
    moreover obtain b where "to_binary_ack h (AckError (contract_error_to_string h e)) = Ok b"
      "from_binary_ack h b = Ok (AckError (contract_error_to_string h e))"
      by (rule ack_codec_okE [OF codec])
    moreover have "t = s" using receive_ibc_packet_fail [OF enc run [unfolded Err]] .
    ultimately show ?thesis
      using ibc_packet_receive_reject [OF run [unfolded Err]] run Err by (auto simp: try_get_ack_error_def)
  next
    case (Panic q)
    with run have "?too_long" unfolding long using receive_ibc_packet_panic [OF assms, of env p s q t] by blast
    moreover have "\<not> ?answered" using run Panic by (simp add: ibc_packet_receive_def)
    ultimately show ?thesis by blast
  qed
qed

theorem packet_receive_total_witness:
  "\<exists>resp t. ibc_packet_receive sample_host sample_env sample_packet sample_bridge =
      (Ok resp :: (ContractError, IbcReceiveResponse) outcome, t) \<and> t = sample_bridge"
proof -
  have "receive_host_ok sample_host code_execute"
    by (simp add: receive_host_ok_def sample_host_ack_codec)
  moreover have "\<exists>e. receive_ibc_packet sample_host sample_env sample_packet sample_bridge = (Err e, sample_bridge)"
    by (simp add: receive_ibc_packet_def prog_simps bnd_def err_into_def sample_defs with_po_def zoom_def)
  ultimately show ?thesis
    using packet_receive_total [of sample_host code_execute sample_env sample_packet sample_bridge] by fastforce
qed

text \<open>C6: A packet that timed out, or whose acknowledgement carries an error, is rolled back for its
  sender: one transfer of each of its tokens, in order, from the collection of the class to the
  sender, the outgoing entries of exactly these tokens cleared, and nothing else written. (The class
  identifier is short enough for a storage key.)\<close>

theorem failed_packet_refunds_sender:
  assumes "from_binary_packet h (pkt_data p) = Ok d"
    and "CLASS_ID_TO_NFT_CONTRACT s (class_id d) = Some collection"
    and "addr_validate h (sender d) = Ok owner" and "cw721_encoder h enc"
    and "try_get_ack_error h (ack_data a) = (Ok (Some err) :: (ContractError, string option) outcome)"
    and "original_packet a = p" and "class_key_fits (class_id d)"
  shows "\<exists>r1 r2 t.
    ibc_packet_timeout h p s = (Ok r1, t) \<and> ibc_packet_ack h a s = (Ok r2, t) \<and>
    basic_messages r1 =
      map (\<lambda>tid. submsg_new (Wasm (WasmExecute (addr_str collection)
             (enc (TransferNft (addr_str owner) (token_id_str tid)))))) (token_ids d) \<and>
    basic_messages r2 = basic_messages r1 \<and>
    t = s\<lparr>OUTGOING_CLASS_TOKEN_TO_CHANNEL :=
          (\<lambda>k. if fst k = class_id d \<and> snd k \<in> set (token_ids d) then None
               else OUTGOING_CLASS_TOKEN_TO_CHANNEL s k)\<rparr>"
proof -
  obtain r1 where r1: "handle_packet_fail h p ''timeout'' s = (Ok r1, refunded d s)"
      "basic_messages r1 = map (transfer_call enc collection owner) (token_ids d)"
    using handle_packet_fail_run [OF assms(1-4,7)] by blast
  obtain r2 where r2: "handle_packet_fail h p err s = (Ok r2, refunded d s)"
      "basic_messages r2 = map (transfer_call enc collection owner) (token_ids d)"
    using handle_packet_fail_run [OF assms(1-4,7)] by blast
  have "ibc_packet_ack h a s = (Ok r2, refunded d s)"
    using assms(5,6) r2(1) by (simp add: ibc_packet_ack_def bnd_def lift_def)
  moreover have "refunded d s = s\<lparr>OUTGOING_CLASS_TOKEN_TO_CHANNEL :=
      (\<lambda>k. if fst k = class_id d \<and> snd k \<in> set (token_ids d) then None
           else OUTGOING_CLASS_TOKEN_TO_CHANNEL s k)\<rparr>"
    by (simp add: refunded_def in_Pair_image)
  ultimately show ?thesis
    using r1 r2 by (simp add: ibc_packet_timeout_def transfer_call_def cw721_call_def)
qed

theorem failed_packet_refunds_sender_witness:
  "\<exists>r t. ibc_packet_timeout (packet_host (sample_data ''nft'' [''1''])) sample_packet sample_bridge = (Ok r, t) \<and>
     basic_messages r = [submsg_new (Wasm (WasmExecute ''nft'' (code_cw721 (TransferNft ''alice'' ''1''))))] \<and>
     OUTGOING_CLASS_TOKEN_TO_CHANNEL t (ClassId ''nft'', TokenId ''1'') = None"
proof -
  let ?d = "sample_data ''nft'' [''1'']" and ?a = "\<lparr>ack_data = ''Eno'', original_packet = sample_packet\<rparr>"
  have prem: "from_binary_packet (packet_host ?d) (pkt_data sample_packet) = Ok ?d"
    "CLASS_ID_TO_NFT_CONTRACT sample_bridge (class_id ?d) = Some (Addr ''nft'')"
    "addr_validate (packet_host ?d) (sender ?d) = Ok (Addr ''alice'')"
    "cw721_encoder (packet_host ?d) code_cw721"
    "try_get_ack_error (packet_host ?d) (ack_data ?a) = (Ok (Some ''no'') :: (ContractError, string option) outcome)"
    "original_packet ?a = sample_packet" "class_key_fits (class_id ?d)"
    by (simp_all add: sample_defs try_get_ack_error_def sample_ack_codec class_key_fits_def)
  show ?thesis
    using failed_packet_refunds_sender [OF prem]
    by (elim exE conjE) (intro exI conjI, assumption, simp_all add: sample_data_def)
qed

text \<open>C7: A successful acknowledgement completes the journey of the vouchers in the packet: those that
  came in on the channel the packet left on are burned, each exactly once, with one burn message to
  the collection, and their incoming entries and metadata are erased; all other tokens of the
  packet stay locked, and nothing else is written. (The class identifier is short enough for a
  storage key.)\<close>

theorem acknowledged_vouchers_burn:
  assumes "try_get_ack_error h (ack_data a) = (Ok None :: (ContractError, string option) outcome)"
    and "from_binary_packet h (pkt_data (original_packet a)) = Ok d"
    and "CLASS_ID_TO_NFT_CONTRACT s (class_id d) = Some collection" and "cw721_encoder h enc"
    and "token_ids d = [] \<or> class_key_fits (class_id d)"
  shows "\<exists>resp burned.
    ibc_packet_ack h a s =
      (Ok resp,
       s\<lparr>INCOMING_CLASS_TOKEN_TO_CHANNEL :=
           (\<lambda>k. if k \<in> Pair (class_id d) ` set burned then None else INCOMING_CLASS_TOKEN_TO_CHANNEL s k),
         TOKEN_METADATA :=
           (\<lambda>k. if k \<in> Pair (class_id d) ` set burned then None else TOKEN_METADATA s k)\<rparr>) \<and>
    distinct burned \<and>
    set burned =
      {t \<in> set (token_ids d). INCOMING_CLASS_TOKEN_TO_CHANNEL s (class_id d, t) =
         Some (channel_id (src (original_packet a)))} \<and>
    basic_messages resp =
      map (\<lambda>t. submsg_new (Wasm (WasmExecute (addr_str collection) (enc (Burn (token_id_str t)))))) burned"
  using ibc_packet_ack_success_run [OF assms, unfolded forgotten_def cw721_call_def] burned_tokens_set
  by blast

theorem acknowledged_vouchers_burn_witness:
  "\<exists>resp t.
    ibc_packet_ack (packet_host (sample_data ''v'' [''1'', ''2'', ''1'']))
      \<lparr>ack_data = ''R1'', original_packet = sample_packet\<rparr>
      (empty_bridge\<lparr>CLASS_ID_TO_NFT_CONTRACT := [ClassId ''v'' \<mapsto> Addr ''v721''],
         INCOMING_CLASS_TOKEN_TO_CHANNEL := [(ClassId ''v'', TokenId ''1'') \<mapsto> ''channel-7'']\<rparr>) = (Ok resp, t) \<and>
    length (basic_messages resp) = 1"
proof -
  let ?d = "sample_data ''v'' [''1'', ''2'', ''1'']" and ?a = "\<lparr>ack_data = ''R1'', original_packet = sample_packet\<rparr>"
  let ?s = "empty_bridge\<lparr>CLASS_ID_TO_NFT_CONTRACT := [ClassId ''v'' \<mapsto> Addr ''v721''],
         INCOMING_CLASS_TOKEN_TO_CHANNEL := [(ClassId ''v'', TokenId ''1'') \<mapsto> ''channel-7'']\<rparr>"
  have prem: "try_get_ack_error (packet_host ?d) (ack_data ?a) = (Ok None :: (ContractError, string option) outcome)"
    "from_binary_packet (packet_host ?d) (pkt_data (original_packet ?a)) = Ok ?d"
    "CLASS_ID_TO_NFT_CONTRACT ?s (class_id ?d) = Some (Addr ''v721'')"
    "cw721_encoder (packet_host ?d) code_cw721" "token_ids ?d = [] \<or> class_key_fits (class_id ?d)"
    by (simp_all add: sample_defs try_get_ack_error_def sample_ack_codec class_key_fits_def)
  have "{t \<in> set (token_ids ?d). INCOMING_CLASS_TOKEN_TO_CHANNEL ?s (class_id ?d, t) =
      Some (channel_id (src (original_packet ?a)))} = {TokenId ''1''}"
    by (auto simp: sample_defs)
  then show ?thesis
    using acknowledged_vouchers_burn [OF prem] distinct_card by fastforce
qed

text \<open>The reply to the submessage of packet receipt writes nothing and always succeeds; the data it
  sets is an acknowledgement that reads back as success when the submessage succeeded and as the
  submessage's error otherwise.\<close>

theorem packet_reply_commits_ack:
  assumes "ack_codec_ok h" and "reply_id r = ACK_AND_DO_NOTHING"
  shows "\<exists>resp b. reply h r s = (Ok resp, s) \<and> messages resp = [] \<and> data resp = Some b \<and>
    try_get_ack_error h b =
      (Ok (case reply_result r of SubMsgOk _ \<Rightarrow> None | SubMsgErr e \<Rightarrow> Some e) ::
        (ContractError, string option) outcome)"
  by (rule reply_ack_readback [OF assms])

theorem packet_reply_commits_ack_witness:
  "\<exists>resp. reply sample_host \<lparr>reply_id = ACK_AND_DO_NOTHING, reply_result = SubMsgErr ''codespace''\<rparr>
     sample_bridge = (Ok resp, sample_bridge) \<and> messages resp = []"
  using packet_reply_commits_ack [OF sample_host_ack_codec,
      of "\<lparr>reply_id = ACK_AND_DO_NOTHING, reply_result = SubMsgErr ''codespace''\<rparr>" sample_bridge]
  by auto

text \<open>C19: A redemption that fails is not restored. When the callback of an accepted packet fails, the
  reply answers with the failure acknowledgement but the outgoing entry that packet receipt has
  removed stays removed, so when the same token is brought back again it is no longer redeemed: it
  becomes a voucher of the prefixed class, and the original stays locked.\<close>

theorem failed_redemption_is_not_restored:
  assumes "paused (PO s) = Some False" and "from_binary_packet h (pkt_data p) = Ok d"
    and "packet_wf d" and "addr_validate h (receiver d) = Ok recv" and "execute_encoder h enc"
    and "ack_codec_ok h"
    and "class_id d = ClassId (get_endpoint_prefix (src p) @ c)" and "t \<in> set (token_ids d)"
    and "OUTGOING_CLASS_TOKEN_TO_CHANNEL s (ClassId c, t) = Some (channel_id (dest p))"
    and "class_key_fits (voucher_class p d)"
  shows "\<exists>resp s1 resp' resp'' s2.
    ibc_packet_receive h env p s = (Ok resp :: (ContractError, IbcReceiveResponse) outcome, s1) \<and>
    t \<in> set (redeemed_tokens s p d) \<and>
    reply h \<lparr>reply_id = ACK_AND_DO_NOTHING, reply_result = SubMsgErr err\<rparr> s1 = (Ok resp', s1) \<and>
    OUTGOING_CLASS_TOKEN_TO_CHANNEL s1 (ClassId c, t) = None \<and>
    ibc_packet_receive h env p s1 = (Ok resp'' :: (ContractError, IbcReceiveResponse) outcome, s2) \<and>
    t \<notin> set (redeemed_tokens s1 p d) \<and>
    INCOMING_CLASS_TOKEN_TO_CHANNEL s2
      (ClassId (get_endpoint_prefix (dest p) @ get_endpoint_prefix (src p) @ c), t) = Some (channel_id (dest p))"
proof -
  let ?s1 = "received p d s"
  have loc: "packet_local p d = Some c" using assms(7) by (simp add: packet_local_def)
  have red: "t \<in> set (redeemed_tokens s p d)"
    using redeemed_tokens_set [OF assms(3), of s p] assms(8,9) by (simp add: loc returning_def)
  then have gone: "OUTGOING_CLASS_TOKEN_TO_CHANNEL ?s1 (ClassId c, t) = None"
    by (simp add: received_def moved_def loc local_class_def)
  then have notred: "t \<notin> set (redeemed_tokens ?s1 p d)"
    using redeemed_tokens_set [OF assms(3), of ?s1 p] by (simp add: loc returning_def)
  have "t \<in># mset (redeemed_tokens ?s1 p d) + mset (map item_id (created_items ?s1 p d))"
    unfolding redeemed_created_mset [OF assms(3)] using assms(8) by simp
  with notred have created: "t \<in> item_id ` set (created_items ?s1 p d)" by simp
  have "paused (PO ?s1) = Some False" using assms(1) by (simp add: received_def moved_def)
  note again = ibc_packet_receive_accept [OF receive_ibc_packet_run [OF this assms(2-5) keys_fitI [OF assms(10)]]]
  note first = ibc_packet_receive_accept [OF receive_ibc_packet_run [OF assms(1-5) keys_fitI [OF assms(10)]]]
  have "INCOMING_CLASS_TOKEN_TO_CHANNEL (received p d ?s1)
      (ClassId (get_endpoint_prefix (dest p) @ get_endpoint_prefix (src p) @ c), t) = Some (channel_id (dest p))"
    using created assms(7) by (simp add: received_def [of p d ?s1] moved_def voucher_class_def)
  moreover have "\<exists>resp'. reply h \<lparr>reply_id = ACK_AND_DO_NOTHING, reply_result = SubMsgErr err\<rparr> ?s1 = (Ok resp', ?s1)"
    using reply_ack_readback [OF assms(6), of "\<lparr>reply_id = ACK_AND_DO_NOTHING, reply_result = SubMsgErr err\<rparr>" ?s1]
    by auto
  ultimately show ?thesis using first again gone red notred by blast
qed

theorem failed_redemption_is_not_restored_witness:
  "\<exists>s2 resp. ibc_packet_receive (packet_host (sample_data ''wasm.a/channel-7/nft'' [''1''])) sample_env
      sample_packet (sample_bridge\<lparr>OUTGOING_CLASS_TOKEN_TO_CHANNEL := Map.empty(
        (ClassId ''nft'', TokenId ''1'') \<mapsto> ''channel-0'')\<rparr>) =
      (Ok resp :: (ContractError, IbcReceiveResponse) outcome, s2) \<and>
    OUTGOING_CLASS_TOKEN_TO_CHANNEL s2 (ClassId ''nft'', TokenId ''1'') = None"
proof -
  let ?d = "sample_data ''wasm.a/channel-7/nft'' [''1'']"
  let ?s = "sample_bridge\<lparr>OUTGOING_CLASS_TOKEN_TO_CHANNEL := Map.empty(
        (ClassId ''nft'', TokenId ''1'') \<mapsto> ''channel-0'')\<rparr>"
  have prem: "paused (PO ?s) = Some False"
    "from_binary_packet (packet_host ?d) (pkt_data sample_packet) = Ok ?d"
    "packet_wf ?d" "addr_validate (packet_host ?d) (receiver ?d) = Ok (Addr ''bob'')"
    "execute_encoder (packet_host ?d) code_execute" "ack_codec_ok (packet_host ?d)"
    "class_id ?d = ClassId (get_endpoint_prefix (src sample_packet) @ ''nft'')"
    "TokenId ''1'' \<in> set (token_ids ?d)"
    "OUTGOING_CLASS_TOKEN_TO_CHANNEL ?s (ClassId ''nft'', TokenId ''1'') = Some (channel_id (dest sample_packet))"
    "class_key_fits (voucher_class sample_packet ?d)"
    by (simp_all add: sample_defs packet_wf_def opt_len_ok_def get_endpoint_prefix_def sample_host_ack_codec
        class_key_fits_def voucher_class_def)
  show ?thesis
    using failed_redemption_is_not_restored [OF prem] by blast
qed

text \<open>C31: The channel handshake accepts exactly unordered channels whose version, and the
  counterparty's version where it is known, is \<^verbatim>\<open>ics721-1\<close>; the local chain can never close a
  channel, while a close by the counterparty is let through. None of these handlers writes storage.\<close>

theorem channel_lifecycle:
  "(is_ok (fst (ibc_channel_open om s)) \<longleftrightarrow>
      order (open_channel om) = Unordered \<and> version (open_channel om) = ''ics721-1'' \<and>
      open_counterparty_version om \<in> {None, Some ''ics721-1''}) \<and>
   (is_ok (fst (ibc_channel_connect cm s)) \<longleftrightarrow>
      order (connect_channel cm) = Unordered \<and> version (connect_channel cm) = ''ics721-1'' \<and>
      connect_counterparty_version cm \<in> {None, Some ''ics721-1''}) \<and>
   ibc_channel_close (CloseInit c) s = (Err CantCloseChannel, s) \<and>
   ibc_channel_close (CloseConfirm c) s = (Ok (basic_response [] []), s) \<and>
   snd (ibc_channel_open om s) = s \<and> snd (ibc_channel_connect cm s) = s"
proof (intro conjI)
  note ok = bridge_handshake.validate_ok_iff [unfolded IBC_VERSION_def]
  note tot = bridge_handshake.validate_total
  show "is_ok (fst (ibc_channel_open om s)) \<longleftrightarrow>
      order (open_channel om) = Unordered \<and> version (open_channel om) = ''ics721-1'' \<and>
      open_counterparty_version om \<in> {None, Some ''ics721-1''}"
    using tot [of "open_channel om" "open_counterparty_version om"]
    unfolding ok [symmetric] by (auto simp: ibc_channel_open_def bnd_def lift_def ret_def)
  show "is_ok (fst (ibc_channel_connect cm s)) \<longleftrightarrow>
      order (connect_channel cm) = Unordered \<and> version (connect_channel cm) = ''ics721-1'' \<and>
      connect_counterparty_version cm \<in> {None, Some ''ics721-1''}"
    using tot [of "connect_channel cm" "connect_counterparty_version cm"]
    unfolding ok [symmetric] by (auto simp: ibc_channel_connect_def bnd_def lift_def ret_def)
qed (auto simp: ibc_channel_close_def ibc_channel_open_def ibc_channel_connect_def prog_defs
    split: outcome.splits)

end
