(* ===== verification/Bridge_System.thy ===== *)
theory Bridge_System
  imports Bridge_Ibc
begin

text \<open>
  The bridge as a transition system. A step is one successful call of an entry point by the chain
  (a failed call is rolled back and is no step), with the label of what it did. An abstract
  specification says the same directly on the maps; the code refines it, and invariants and
  ledger bounds are proved on the specification and carried over to every history of the code.
\<close>

section \<open>What the chain guarantees\<close>

text \<open>Addresses are non-empty and hold no slash; encoding messages to JSON does not fail.\<close>

definition real_addr :: "addr \<Rightarrow> bool" where
  "real_addr a \<longleftrightarrow> addr_str a \<noteq> [] \<and> slash_free (addr_str a)"

definition host_ok :: "host \<Rightarrow> bool" where
  "host_ok h \<longleftrightarrow>
     (\<exists>enc. execute_encoder h enc) \<and> (\<exists>enc. cw721_encoder h enc) \<and>
     (\<forall>s a. addr_validate h s = Ok a \<longrightarrow> real_addr a)"

text \<open>
  Only the contract itself sends callbacks, so a callback is one that packet receipt built for a
  validated packet, or the mint that a creation continues with.
\<close>

inductive own_callback :: "CallbackMsg \<Rightarrow> bool" where
  own_create: "packet_wf d \<Longrightarrow> packet_creation s p d = Some vc \<Longrightarrow> own_callback (CreateVouchers r vc)"
| own_redeem: "packet_wf d \<Longrightarrow> packet_redemption s p d = Some vr \<Longrightarrow> own_callback (RedeemVouchers r vr)"
| own_mint: "own_callback (CreateVouchers r vc) \<Longrightarrow>
    own_callback (CallbackMint (cls_id (vc_class vc)) r (vc_tokens vc))"
| own_conjunction: "own_callback (Conjunction ops)"

inductive_cases own_createE: "own_callback (CreateVouchers r vc)"

section \<open>Steps\<close>

datatype bridge_event =
    Sent string class_token
  | Arrived string "class_token list" "class_token list"
  | Acked string "class_token list"
  | Refunded "class_token list"
  | PausedBy addr
  | CallbackRan CallbackMsg
  | CollectionCreated ClassId addr
  | ProxySet addr
  | Migrated

text \<open>The collection and the token of an NFT delivery.\<close>

fun delivery :: "host \<Rightarrow> MessageInfo \<Rightarrow> ExecuteMsg \<Rightarrow> (addr \<times> TokenId) option" where
  "delivery h info (ReceiveNft m) = Some (info_sender info, TokenId (crm_token_id m))"
| "delivery h info (ReceiveProxyNft eyeball m) =
     (case addr_validate h eyeball of Ok c \<Rightarrow> Some (c, TokenId (crm_token_id m)) | _ \<Rightarrow> None)"
| "delivery h info ExecutePause = None"
| "delivery h info (Callback m) = None"

text \<open>
  What the bridge did with a packet is read off its response. The response to an accepted packet
  asks the bridge itself for one callback, or for a conjunction of several; the tokens it releases
  and the vouchers it creates are those listed in these callbacks.
\<close>

inductive asks :: "(ExecuteMsg \<Rightarrow> binary) \<Rightarrow> addr \<Rightarrow> SubMsg list \<Rightarrow> CallbackMsg list \<Rightarrow> bool" for enc self where
  asks_one: "\<forall>ops. cb \<noteq> Conjunction ops \<Longrightarrow> asks enc self [reply_always (self_call enc self cb) i] [cb]"
| asks_all: "asks enc self [reply_always (self_call enc self (Conjunction (map (self_call enc self) cbs))) i] cbs"

inductive_simps asks_single: "asks enc self [m] cbs"

fun callback_redemptions :: "CallbackMsg \<Rightarrow> class_token list" where
  "callback_redemptions (RedeemVouchers r vr) = map (Pair (cls_id (vr_class vr))) (vr_token_ids vr)"
| "callback_redemptions m = []"

fun callback_creations :: "CallbackMsg \<Rightarrow> class_token list" where
  "callback_creations (CreateVouchers r vc) = map (\<lambda>t. (cls_id (vc_class vc), tok_id t)) (vc_tokens vc)"
| "callback_creations m = []"

text \<open>
  A creation for a class without collection instantiates one, and the chain delivers the reply
  before anything else happens: both make one step, with an address not seen before and a
  collection that reports the name it was given. The host of the reply may answer queries
  differently: by then the collection exists. An acknowledgement burns the vouchers named in its
  burn messages. No two messages have the same JSON encoding.
\<close>

inductive bridge_step :: "Bridge \<Rightarrow> bridge_event \<Rightarrow> Bridge \<Rightarrow> bool" where
  step_send:
  "host_ok h \<Longrightarrow> real_addr (info_sender info) \<Longrightarrow> delivery h info msg = Some (collection, tid) \<Longrightarrow>
   execute h env info msg s = (Ok resp, t) \<Longrightarrow> class_of_contract collection s = (Ok cls, s1) \<Longrightarrow>
   OUTGOING_CLASS_TOKEN_TO_CHANNEL t (cls_id cls, tid) = Some ch \<Longrightarrow>
   bridge_step s (Sent ch (cls_id cls, tid)) t"
| step_pause:
  "execute h env info ExecutePause s = (Ok resp, t) \<Longrightarrow> bridge_step s (PausedBy (info_sender info)) t"
| step_callback:
  "host_ok h \<Longrightarrow> own_callback m \<Longrightarrow> execute h env info (Callback m) s = (Ok resp, t) \<Longrightarrow>
   (case m of CreateVouchers r vc \<Rightarrow> CLASS_ID_TO_NFT_CONTRACT s (cls_id (vc_class vc)) \<noteq> None | _ \<Rightarrow> True) \<Longrightarrow>
   bridge_step s (CallbackRan m) t"
| step_create:
  "host_ok h \<Longrightarrow> own_callback (CreateVouchers r vc) \<Longrightarrow>
   execute h env info (Callback (CreateVouchers r vc)) s = (Ok resp, u) \<Longrightarrow>
   CLASS_ID_TO_NFT_CONTRACT s (cls_id (vc_class vc)) = None \<Longrightarrow> host_ok h' \<Longrightarrow>
   reply h' rp u = (Ok resp', t) \<Longrightarrow> reply_id rp = INSTANTIATE_CW721_REPLY_ID \<Longrightarrow>
   parse_reply_instantiate_data h' rp = Ok (addr_str a) \<Longrightarrow> addr_validate h' (addr_str a) = Ok a \<Longrightarrow>
   NFT_CONTRACT_TO_CLASS_ID s a = None \<Longrightarrow>
   query_contract_info h' a = Ok (class_id_str (cls_id (vc_class vc)), symbol) \<Longrightarrow>
   bridge_step s (CollectionCreated (cls_id (vc_class vc)) a) t"
| step_packet:
  "host_ok h \<Longrightarrow> ibc_packet_receive h env p s = (Ok resp :: (ContractError, IbcReceiveResponse) outcome, t) \<Longrightarrow>
   execute_encoder h enc \<Longrightarrow> inj enc \<Longrightarrow> asks enc (env_contract env) (recv_messages resp) cbs \<Longrightarrow>
   bridge_step s
     (Arrived (channel_id (dest p)) (concat (map callback_redemptions cbs)) (concat (map callback_creations cbs))) t"
| step_ack:
  "host_ok h \<Longrightarrow> ibc_packet_ack h a s = (Ok resp, t) \<Longrightarrow>
   try_get_ack_error h (ack_data a) = (Ok None :: (ContractError, string option) outcome) \<Longrightarrow>
   from_binary_packet h (pkt_data (original_packet a)) = Ok d \<Longrightarrow> cw721_encoder h enc \<Longrightarrow> inj enc \<Longrightarrow>
   CLASS_ID_TO_NFT_CONTRACT s (class_id d) = Some collection \<Longrightarrow>
   basic_messages resp = map (\<lambda>t. cw721_call enc collection (Burn (token_id_str t))) ts \<Longrightarrow>
   bridge_step s (Acked (channel_id (src (original_packet a))) (map (Pair (class_id d)) ts)) t"
| step_refund_ack:
  "host_ok h \<Longrightarrow> ibc_packet_ack h a s = (Ok resp, t) \<Longrightarrow>
   try_get_ack_error h (ack_data a) = (Ok (Some err) :: (ContractError, string option) outcome) \<Longrightarrow>
   from_binary_packet h (pkt_data (original_packet a)) = Ok d \<Longrightarrow>
   bridge_step s (Refunded (map (Pair (class_id d)) (token_ids d))) t"
| step_refund_timeout:
  "host_ok h \<Longrightarrow> ibc_packet_timeout h p s = (Ok resp, t) \<Longrightarrow> from_binary_packet h (pkt_data p) = Ok d \<Longrightarrow>
   bridge_step s (Refunded (map (Pair (class_id d)) (token_ids d))) t"
| step_proxy:
  "host_ok h \<Longrightarrow> reply h rp s = (Ok resp, t) \<Longrightarrow> reply_id rp = INSTANTIATE_PROXY_REPLY_ID \<Longrightarrow>
   parse_reply_instantiate_data h rp = Ok (addr_str a) \<Longrightarrow> addr_validate h (addr_str a) = Ok a \<Longrightarrow>
   bridge_step s (ProxySet a) t"
| step_migrate: "host_ok h \<Longrightarrow> migrate h m s = (Ok resp, t) \<Longrightarrow> bridge_step s Migrated t"

definition bridge_init :: "Bridge \<Rightarrow> bool" where
  "bridge_init s \<longleftrightarrow> (\<exists>h env im resp. host_ok h \<and> instantiate h env im empty_bridge = (Ok resp, s))"

definition reachable :: "Bridge \<Rightarrow> bool" where
  "reachable = reach bridge_init (\<lambda>s t. \<exists>e. bridge_step s e t)"

section \<open>The abstract specification\<close>

definition drop_keys :: "class_token list \<Rightarrow> (class_token \<rightharpoonup> 'v) \<Rightarrow> (class_token \<rightharpoonup> 'v)" where
  "drop_keys ks m = (\<lambda>k. if k \<in> set ks then None else m k)"

definition put_keys :: "class_token list \<Rightarrow> 'v \<Rightarrow> (class_token \<rightharpoonup> 'v) \<Rightarrow> (class_token \<rightharpoonup> 'v)" where
  "put_keys ks v m = (\<lambda>k. if k \<in> set ks then Some v else m k)"

text \<open>A class that came from another chain carries a port and channel prefix; stored metadata is not empty.\<close>

definition foreign_class :: "string \<Rightarrow> ClassId \<Rightarrow> bool" where
  "foreign_class ch c \<longleftrightarrow> (\<exists>port rest. class_id_str c = get_endpoint_prefix \<lparr>port_id = port, channel_id = ch\<rparr> @ rest)"

definition class_wf :: "Class \<Rightarrow> bool" where
  "class_wf cls \<longleftrightarrow> class_id_str (cls_id cls) \<noteq> [] \<and> cls_uri cls \<noteq> Some [] \<and> cls_data cls \<noteq> Some []"

inductive bridge_spec :: "Bridge \<Rightarrow> bridge_event \<Rightarrow> Bridge \<Rightarrow> bool" where
  spec_send_known:
  "NFT_CONTRACT_TO_CLASS_ID s a = Some cid \<Longrightarrow> CLASS_ID_TO_CLASS s cid = Some cls \<Longrightarrow>
   class_key_fits (cls_id cls) \<Longrightarrow>
   bridge_spec s (Sent ch (cls_id cls, tid))
     (s\<lparr>OUTGOING_CLASS_TOKEN_TO_CHANNEL := (OUTGOING_CLASS_TOKEN_TO_CHANNEL s)((cls_id cls, tid) \<mapsto> ch)\<rparr>)"
| spec_send_first:
  "NFT_CONTRACT_TO_CLASS_ID s a = None \<Longrightarrow> real_addr a \<Longrightarrow> class_key_fits (ClassId (addr_str a)) \<Longrightarrow>
   bridge_spec s (Sent ch (ClassId (addr_str a), tid))
     ((with_class a s)\<lparr>OUTGOING_CLASS_TOKEN_TO_CHANNEL :=
        (OUTGOING_CLASS_TOKEN_TO_CHANNEL s)((ClassId (addr_str a), tid) \<mapsto> ch)\<rparr>)"
| spec_pause:
  "paused (PO s) = Some False \<Longrightarrow> pauser (PO s) = Some (Some a) \<Longrightarrow>
   bridge_spec s (PausedBy a) (s\<lparr>PO := (PO s)\<lparr>pauser := Some None, paused := Some True\<rparr>\<rparr>)"
| spec_read: "bridge_spec s (CallbackRan m) s"
| spec_class:
  "CLASS_ID_TO_NFT_CONTRACT s (cls_id cls) \<noteq> None \<Longrightarrow> class_wf cls \<Longrightarrow>
   bridge_spec s (CallbackRan m) (s\<lparr>CLASS_ID_TO_CLASS := (CLASS_ID_TO_CLASS s)(cls_id cls \<mapsto> cls)\<rparr>)"
| spec_mint:
  "CLASS_ID_TO_NFT_CONTRACT s cid \<noteq> None \<Longrightarrow>
   \<forall>k. md k \<noteq> None \<longrightarrow> TOKEN_METADATA s k \<noteq> None \<or> fst k = cid \<and> class_key_fits cid \<Longrightarrow>
   bridge_spec s (CallbackRan m) (s\<lparr>TOKEN_METADATA := md\<rparr>)"
| spec_create:
  "CLASS_ID_TO_NFT_CONTRACT s (cls_id cls) = None \<Longrightarrow> NFT_CONTRACT_TO_CLASS_ID s a = None \<Longrightarrow>
   real_addr a \<Longrightarrow> class_wf cls \<Longrightarrow> foreign_class ch (cls_id cls) \<Longrightarrow>
   bridge_spec s (CollectionCreated (cls_id cls) a)
     (s\<lparr>CLASS_ID_TO_CLASS := (CLASS_ID_TO_CLASS s)(cls_id cls \<mapsto> cls),
        CLASS_ID_TO_NFT_CONTRACT := (CLASS_ID_TO_NFT_CONTRACT s)(cls_id cls \<mapsto> a),
        NFT_CONTRACT_TO_CLASS_ID := (NFT_CONTRACT_TO_CLASS_ID s)(a \<mapsto> cls_id cls)\<rparr>)"
| spec_arrive:
  "paused (PO s) = Some False \<Longrightarrow> distinct rs \<Longrightarrow> \<forall>k\<in>set rs. OUTGOING_CLASS_TOKEN_TO_CHANNEL s k = Some ch \<Longrightarrow>
   \<forall>k\<in>set cs. foreign_class ch (fst k) \<and> class_key_fits (fst k) \<Longrightarrow>
   bridge_spec s (Arrived ch rs cs)
     (s\<lparr>OUTGOING_CLASS_TOKEN_TO_CHANNEL := drop_keys rs (OUTGOING_CLASS_TOKEN_TO_CHANNEL s),
        INCOMING_CLASS_TOKEN_TO_CHANNEL := put_keys cs ch (INCOMING_CLASS_TOKEN_TO_CHANNEL s)\<rparr>)"
| spec_ack:
  "distinct ks \<Longrightarrow> \<forall>k\<in>set ks. INCOMING_CLASS_TOKEN_TO_CHANNEL s k = Some ch \<Longrightarrow>
   bridge_spec s (Acked ch ks)
     (s\<lparr>INCOMING_CLASS_TOKEN_TO_CHANNEL := drop_keys ks (INCOMING_CLASS_TOKEN_TO_CHANNEL s),
        TOKEN_METADATA := drop_keys ks (TOKEN_METADATA s)\<rparr>)"
| spec_refund:
  "bridge_spec s (Refunded ks)
     (s\<lparr>OUTGOING_CLASS_TOKEN_TO_CHANNEL := drop_keys ks (OUTGOING_CLASS_TOKEN_TO_CHANNEL s)\<rparr>)"
| spec_proxy: "bridge_spec s (ProxySet a) (s\<lparr>PROXY := Some (Some a)\<rparr>)"
| spec_migrate:
  "bridge_spec s Migrated (s\<lparr>PROXY := Some x, PO := (PO s)\<lparr>pauser := Some v, paused := Some False\<rparr>\<rparr>)"

section \<open>The code refines the specification\<close>

lemma with_class_outgoing [simp]:
  "OUTGOING_CLASS_TOKEN_TO_CHANNEL (with_class a s) = OUTGOING_CLASS_TOKEN_TO_CHANNEL s"
  by (simp add: with_class_def)

lemma receive_nft_spec:
  assumes "receive_nft h info tid sndr bin s = (Ok resp, t)" and "real_addr (info_sender info)"
    and "class_of_contract (info_sender info) s = (Ok cls, s1)"
    and "OUTGOING_CLASS_TOKEN_TO_CHANNEL t (cls_id cls, tid) = Some ch"
  shows "bridge_spec s (Sent ch (cls_id cls, tid)) t"
proof -
  from assms(1,3) obtain c where t: "t = outgoing_save (cls_id cls, tid) c s1" and fit: "class_key_fits (cls_id cls)"
    by (auto simp: receive_nft_Ok_iff)
  with assms(4) have c: "c = ch" by (simp add: outgoing.look_save)
  from assms(3) show ?thesis
  proof (cases rule: class_of_contract_cases)
    case first_seen
    with spec_send_first [of s "info_sender info" ch tid] assms(2) fit show ?thesis
      by (simp add: t c store_eqs fresh_class_def)
  next
    case (known cid)
    with spec_send_known [of s "info_sender info" cid cls ch tid] fit show ?thesis
      by (simp add: t c store_eqs)
  qed
qed

lemma voucher_class_foreign: "foreign_class (channel_id (dest p)) (voucher_class p d)"
  by (auto simp: foreign_class_def voucher_class_def get_endpoint_prefix_def)

text \<open>Both kinds of delivery end in \<^verbatim>\<open>receive_nft\<close>, on behalf of a real collection.\<close>

lemma delivery_receive:
  assumes "host_ok h" and "real_addr (info_sender info)" and "delivery h info msg = Some (collection, tid)"
    and "execute h env info msg s = (Ok resp, t)"
  shows "\<exists>sndr bin. receive_nft h \<lparr>info_sender = collection\<rparr> tid sndr bin s = (Ok resp, t) \<and> real_addr collection"
proof (cases msg)
  case (ReceiveNft m)
  with assms show ?thesis
    by (cases info) (auto simp: execute_Ok_iff execute_receive_nft_Ok_iff)
next
  case (ReceiveProxyNft eyeball m)
  with assms have "receive_nft h \<lparr>info_sender = collection\<rparr> tid (crm_sender m) (crm_msg m) s = (Ok resp, t)"
    "real_addr collection"
    by (auto simp: execute_Ok_iff execute_receive_proxy_nft_Ok_iff host_ok_def)
  then show ?thesis by blast
qed (use assms(3) in auto)

lemma send_spec:
  assumes "host_ok h" and "real_addr (info_sender info)" and "delivery h info msg = Some (collection, tid)"
    and "execute h env info msg s = (Ok resp, t)" and "class_of_contract collection s = (Ok cls, s1)"
    and "OUTGOING_CLASS_TOKEN_TO_CHANNEL t (cls_id cls, tid) = Some ch"
  shows "bridge_spec s (Sent ch (cls_id cls, tid)) t"
  using delivery_receive [OF assms(1-4)] receive_nft_spec [where info = "\<lparr>info_sender = collection\<rparr>"] assms(5,6)
  by auto

lemma own_create_class:
  assumes "own_callback (CreateVouchers r vc)"
  shows "class_wf (vc_class vc)" and "\<exists>ch. foreign_class ch (cls_id (vc_class vc))"
proof -
  from assms obtain d s p where "packet_wf d" "packet_creation s p d = Some vc" by (rule own_createE)
  then have vc: "cls_id (vc_class vc) = voucher_class p d" "cls_uri (vc_class vc) = class_uri d"
      "cls_data (vc_class vc) = class_data d"
    by (auto simp: packet_creation_def creation_for_def split: if_splits)
  with \<open>packet_wf d\<close> show "class_wf (vc_class vc)"
    by (simp add: class_wf_def packet_wf_def voucher_class_def get_endpoint_prefix_def)
  have "foreign_class (channel_id (dest p)) (voucher_class p d)" by (rule voucher_class_foreign)
  with vc show "\<exists>ch. foreign_class ch (cls_id (vc_class vc))" by auto
qed

lemma minted_domain:
  "TOKEN_METADATA (minted cid tokens s) k \<noteq> None \<Longrightarrow> TOKEN_METADATA s k \<noteq> None \<or> fst k = cid \<and> tokens \<noteq> []"
  unfolding minted_look by (auto split: option.splits dest!: map_of_SomeD)

lemma callback_spec:
  assumes "own_callback m" and "execute h env info (Callback m) s = (Ok resp, t)"
    and "case m of CreateVouchers r vc \<Rightarrow> CLASS_ID_TO_NFT_CONTRACT s (cls_id (vc_class vc)) \<noteq> None | _ \<Rightarrow> True"
  shows "bridge_spec s (CallbackRan m) t"
proof (cases m)
  case (CreateVouchers r vc)
  with assms have "t = class_save (cls_id (vc_class vc)) (vc_class vc) s"
    by (auto simp: execute_Ok_iff execute_callback_Ok_iff callback_create_vouchers_Ok_iff)
  with assms CreateVouchers own_create_class(1) [of r vc] spec_class [of s "vc_class vc" m] show ?thesis
    by (simp add: store_eqs)
next
  case (CallbackMint cid r tokens)
  with assms(2) have "t = minted cid tokens s" "CLASS_ID_TO_NFT_CONTRACT s cid \<noteq> None" "tokens = [] \<or> class_key_fits cid"
    by (auto simp: execute_Ok_iff execute_callback_Ok_iff callback_mint_Ok_iff)
  moreover have "minted cid tokens s = s\<lparr>TOKEN_METADATA := TOKEN_METADATA (minted cid tokens s)\<rparr>"
    by (rule minted_frame)
  ultimately show ?thesis
    using spec_mint [of s cid "TOKEN_METADATA (minted cid tokens s)" m] minted_domain by metis
next
  case (RedeemVouchers r vr)
  with assms(2) have "t = s"
    by (auto simp: execute_Ok_iff execute_callback_Ok_iff callback_redeem_vouchers_Ok_iff)
  then show ?thesis by (simp add: spec_read)
next
  case (Conjunction ops)
  with assms(2) have "t = s" by (auto simp: execute_Ok_iff execute_callback_Ok_iff ret_def)
  then show ?thesis by (simp add: spec_read)
qed

lemma create_spec:
  assumes "host_ok h'" and "own_callback (CreateVouchers r vc)"
    and "execute h env info (Callback (CreateVouchers r vc)) s = (Ok resp, u)"
    and "CLASS_ID_TO_NFT_CONTRACT s (cls_id (vc_class vc)) = None"
    and "reply h' rp u = (Ok resp', t)" and "reply_id rp = INSTANTIATE_CW721_REPLY_ID"
    and "parse_reply_instantiate_data h' rp = Ok (addr_str a)" and "addr_validate h' (addr_str a) = Ok a"
    and "NFT_CONTRACT_TO_CLASS_ID s a = None"
    and "query_contract_info h' a = Ok (class_id_str (cls_id (vc_class vc)), symbol)"
  shows "bridge_spec s (CollectionCreated (cls_id (vc_class vc)) a) t"
proof -
  have u: "u = class_save (cls_id (vc_class vc)) (vc_class vc) s"
    using assms(3) by (auto simp: execute_Ok_iff execute_callback_Ok_iff callback_create_vouchers_Ok_iff)
  have "reply_cw721 h' rp u = (Ok resp', t)" using assms(5,6) by (simp add: reply_def)
  then have t: "t = contract_class_save a (cls_id (vc_class vc)) (class_contract_save (cls_id (vc_class vc)) a u)"
    using assms(7,8,10) by (auto simp: reply_cw721_Ok_iff)
  obtain ch where "foreign_class ch (cls_id (vc_class vc))" using own_create_class(2) [OF assms(2)] by blast
  moreover have "real_addr a" using assms(1,8) by (auto simp: host_ok_def)
  ultimately show ?thesis
    using spec_create [of s "vc_class vc" a ch] own_create_class(1) [OF assms(2)] assms(4,9)
    by (simp add: t u store_eqs)
qed

lemma ibc_packet_receive_accepted:
  assumes "ibc_packet_receive h env p s = (Ok resp, t)" and "recv_messages resp \<noteq> []"
  shows "receive_ibc_packet h env p s = (Ok resp, t)"
  using assms
  by (auto simp: ibc_packet_receive_def bnd_def lift_def ret_def split: prod.splits outcome.splits)

lemma execute_unpaused:
  "execute h env info msg s = (Ok resp, t) \<Longrightarrow> paused (PO s) = Some True \<Longrightarrow> False"
  by (simp add: execute_paused)

text \<open>The callbacks in a response name exactly the redeemed and the created tokens.\<close>

lemma self_call_iff: "inj enc \<Longrightarrow> self_call enc a x = self_call enc a y \<longleftrightarrow> x = y"
  by (auto simp: self_call_def dest: injD)

lemma asks_received:
  assumes "inj enc" and "asks enc self [receive_submessage enc self recv s p d] cbs"
  shows "concat (map callback_redemptions cbs) = map (Pair (local_class (packet_local p d))) (redeemed_tokens s p d)"
    and "concat (map callback_creations cbs) =
      map (Pair (voucher_class p d)) (map item_id (created_items s p d))"
  using assms(2)
  by (auto simp: asks_single receive_submessage_def reply_always_def self_call_iff [OF assms(1)] map_eq_Cons_conv
      callback_for_def packet_redemption_def packet_creation_def redemption_for_def creation_for_def item_token_def
      split: if_splits)

lemma asks_nonempty: "asks enc self ms cbs \<Longrightarrow> ms \<noteq> []"
  by (erule asks.cases) auto

lemma asks_some: "\<exists>cbs. asks enc self [receive_submessage enc self recv s p d] cbs"
  unfolding receive_submessage_def callback_for_def
  by (cases "packet_redemption s p d"; cases "packet_creation s p d")
    (auto intro: asks_one asks_all [of _ _ "[]", simplified] asks_all [of _ _ "[a, b]" for a b, simplified])

lemma packet_step_cases:
  assumes "execute_encoder h enc" and "inj enc" and "asks enc (env_contract env) (recv_messages resp) cbs"
    and "ibc_packet_receive h env p s = (Ok resp :: (ContractError, IbcReceiveResponse) outcome, t)"
  obtains d where "receive_ibc_packet h env p s = (Ok resp, t)" "from_binary_packet h (pkt_data p) = Ok d"
    "paused (PO s) = Some False"
    "concat (map callback_redemptions cbs) = map (Pair (local_class (packet_local p d))) (redeemed_tokens s p d)"
    "concat (map callback_creations cbs) = map (Pair (voucher_class p d)) (map item_id (created_items s p d))"
proof -
  have run: "receive_ibc_packet h env p s = (Ok resp, t)"
    using ibc_packet_receive_accepted [OF assms(4)] asks_nonempty [OF assms(3)] by blast
  then obtain d recv where "from_binary_packet h (pkt_data p) = Ok d" "paused (PO s) = Some False"
    "recv_messages resp = [receive_submessage enc (env_contract env) recv s p d]"
    by (auto simp: receive_ibc_packet_Ok_iff [OF assms(1)])
  with run assms(3) asks_received [OF assms(2), of "env_contract env" recv s p d cbs] show thesis
    by (intro that [of d]) auto
qed

lemma packet_spec:
  assumes "host_ok h" and "receive_ibc_packet h env p s = (Ok resp, t)"
    and "from_binary_packet h (pkt_data p) = Ok d"
  shows "bridge_spec s
     (Arrived (channel_id (dest p))
        (map (Pair (local_class (packet_local p d))) (redeemed_tokens s p d))
        (map (Pair (voucher_class p d)) (map item_id (created_items s p d)))) t"
proof -
  obtain enc where "execute_encoder h enc" using assms(1) by (auto simp: host_ok_def)
  then have wf: "packet_wf d" and po: "paused (PO s) = Some False" and t: "t = received p d s" and fit: "keys_fit s p d"
    using assms(2,3) by (auto simp: receive_ibc_packet_Ok_iff)
  let ?rs = "map (Pair (local_class (packet_local p d))) (redeemed_tokens s p d)"
  let ?cs = "map (Pair (voucher_class p d)) (map item_id (created_items s p d))"
  have "distinct ?rs" "\<forall>k\<in>set ?rs. OUTGOING_CLASS_TOKEN_TO_CHANNEL s k = Some (channel_id (dest p))"
    using redeemed_tokens_set [OF wf, of s p]
    by (auto simp: distinct_map inj_on_def returning_def local_class_def split: option.splits)
  moreover have "\<forall>k\<in>set ?cs. foreign_class (channel_id (dest p)) (fst k) \<and> class_key_fits (fst k)"
    using fit by (auto simp: voucher_class_foreign keys_fit_iff)
  ultimately show ?thesis
    using spec_arrive [of s ?rs "channel_id (dest p)" ?cs] po
    by (simp add: t received_def moved_def drop_keys_def put_keys_def image_image)
qed

lemma handle_packet_fail_spec:
  assumes "handle_packet_fail h p e s = (Ok resp, t)" and "from_binary_packet h (pkt_data p) = Ok d"
  shows "bridge_spec s (Refunded (map (Pair (class_id d)) (token_ids d))) t"
  using assms spec_refund [of s "map (Pair (class_id d)) (token_ids d)"]
  by (auto elim!: handle_packet_fail_Ok simp: refunded_def drop_keys_def)

lemma ack_spec:
  assumes "host_ok h" and "ibc_packet_ack h a s = (Ok resp, t)"
    and "try_get_ack_error h (ack_data a) = (Ok None :: (ContractError, string option) outcome)"
    and "from_binary_packet h (pkt_data (original_packet a)) = Ok d" and "cw721_encoder h enc" and "inj enc"
    and "CLASS_ID_TO_NFT_CONTRACT s (class_id d) = Some collection"
    and "basic_messages resp = map (\<lambda>t. cw721_call enc collection (Burn (token_id_str t))) ts"
  shows "bridge_spec s (Acked (channel_id (src (original_packet a))) (map (Pair (class_id d)) ts)) t"
proof -
  let ?ch = "channel_id (src (original_packet a))"
  let ?ts = "burned_tokens s (class_id d) ?ch (token_ids d)"
  have t: "t = forgotten (class_id d) ?ts s"
    and msgs: "map (\<lambda>t. cw721_call enc collection (Burn (token_id_str t))) ts =
      map (\<lambda>t. cw721_call enc collection (Burn (token_id_str t))) ?ts"
    using ibc_packet_ack_success_Ok [OF assms(3,4,5,2)] assms(7,8) by auto
  have "inj (\<lambda>t. cw721_call enc collection (Burn (token_id_str t)))"
    by (rule injI) (auto simp: cw721_call_def submsg_new_def inj_eq [OF assms(6)] intro: TokenId.expand)
  then have "ts = ?ts" using msgs by (metis inj_map_eq_map)
  moreover have "distinct (map (Pair (class_id d)) ?ts)"
    "\<forall>k\<in>set (map (Pair (class_id d)) ?ts). INCOMING_CLASS_TOKEN_TO_CHANNEL s k = Some ?ch"
    using burned_tokens_set [of s "class_id d" ?ch "token_ids d"] by (auto simp: distinct_map inj_on_def)
  ultimately show ?thesis
    using spec_ack [of "map (Pair (class_id d)) ?ts" s ?ch] t by (simp add: forgotten_def drop_keys_def)
qed

lemma step_refines_spec: "bridge_step s e t \<Longrightarrow> bridge_spec s e t"
proof (induction rule: bridge_step.induct)
  case (step_pause h env info s resp t)
  then show ?case by (auto simp: execute_Ok_iff execute_pause_Ok_iff intro: spec_pause)
next
  case (step_packet h env p s resp t enc cbs)
  obtain d where "receive_ibc_packet h env p s = (Ok resp, t)" "from_binary_packet h (pkt_data p) = Ok d"
    and ev: "concat (map callback_redemptions cbs) = map (Pair (local_class (packet_local p d))) (redeemed_tokens s p d)"
      "concat (map callback_creations cbs) = map (Pair (voucher_class p d)) (map item_id (created_items s p d))"
    using packet_step_cases [OF step_packet(3,4,5,2)] by blast
  then show ?case unfolding ev by (intro packet_spec [OF step_packet(1)])
next
  case (step_refund_ack h a s resp t err d)
  then have "handle_packet_fail h (original_packet a) err s = (Ok resp, t)"
    by (simp add: ibc_packet_ack_def bnd_def lift_def)
  with step_refund_ack show ?case by (blast intro: handle_packet_fail_spec)
next
  case (step_refund_timeout h p s resp t d)
  then show ?case by (simp add: ibc_packet_timeout_def handle_packet_fail_spec)
next
  case (step_proxy h rp s resp t a)
  then have "t = s\<lparr>PROXY := Some (Some a)\<rparr>" by (auto simp: reply_def reply_proxy_Ok_iff)
  then show ?case by (simp add: spec_proxy)
next
  case (step_migrate h m s resp t)
  then show ?case by (cases m) (auto simp: migrate_Ok_iff intro: spec_migrate)
qed (blast intro: send_spec callback_spec create_spec ack_spec)+

section \<open>Invariants\<close>

definition items_inv :: "Bridge \<Rightarrow> bool" where
  "items_inv s \<longleftrightarrow> contract_version s \<noteq> None \<and> CW721_CODE_ID s \<noteq> None \<and> PROXY s \<noteq> None"

text \<open>The two class maps are inverse to each other; a class is named after its collection or is foreign.\<close>

definition registry_inv :: "Bridge \<Rightarrow> bool" where
  "registry_inv s \<longleftrightarrow>
     (\<forall>a c. NFT_CONTRACT_TO_CLASS_ID s a = Some c \<longleftrightarrow> CLASS_ID_TO_NFT_CONTRACT s c = Some a) \<and>
     (\<forall>a c. NFT_CONTRACT_TO_CLASS_ID s a = Some c \<longrightarrow>
        c = ClassId (addr_str a) \<or> \<not> slash_free (class_id_str c))"

definition class_inv :: "Bridge \<Rightarrow> bool" where
  "class_inv s \<longleftrightarrow>
     (\<forall>c cls. CLASS_ID_TO_CLASS s c = Some cls \<longrightarrow> cls_id cls = c \<and> class_wf cls) \<and>
     (\<forall>c. CLASS_ID_TO_NFT_CONTRACT s c \<noteq> None \<longrightarrow> CLASS_ID_TO_CLASS s c \<noteq> None)"

definition token_inv :: "Bridge \<Rightarrow> bool" where
  "token_inv s \<longleftrightarrow>
     (\<forall>k. OUTGOING_CLASS_TOKEN_TO_CHANNEL s k \<noteq> None \<or> TOKEN_METADATA s k \<noteq> None \<longrightarrow>
        CLASS_ID_TO_NFT_CONTRACT s (fst k) \<noteq> None \<and> class_key_fits (fst k)) \<and>
     (\<forall>k ch. INCOMING_CLASS_TOKEN_TO_CHANNEL s k = Some ch \<longrightarrow> foreign_class ch (fst k) \<and> class_key_fits (fst k))"

definition bridge_inv :: "Bridge \<Rightarrow> bool" where
  "bridge_inv s \<longleftrightarrow> items_inv s \<and> po_inv (PO s) \<and> registry_inv s \<and> class_inv s \<and> token_inv s"

lemma foreign_class_slash: "foreign_class ch c \<Longrightarrow> \<not> slash_free (class_id_str c)"
  by (auto simp: foreign_class_def get_endpoint_prefix_def slash_free_def)

lemma items_step: "bridge_spec s e t \<Longrightarrow> items_inv s \<Longrightarrow> items_inv t"
  by (erule bridge_spec.cases) (auto simp: items_inv_def with_class_def)

lemma po_step_kept: "bridge_spec s e t \<Longrightarrow> po_inv (PO s) \<Longrightarrow> po_inv (PO t)"
  by (erule bridge_spec.cases) (auto simp: po_inv_def po_ready_def with_class_def)

text \<open>A collection seen for the first time takes a name no other collection has.\<close>

lemma fresh_name_free:
  assumes "registry_inv s" and "NFT_CONTRACT_TO_CLASS_ID s a = None" and "real_addr a"
  shows "CLASS_ID_TO_NFT_CONTRACT s (ClassId (addr_str a)) = None"
proof (rule ccontr)
  assume "CLASS_ID_TO_NFT_CONTRACT s (ClassId (addr_str a)) \<noteq> None"
  then obtain b where "CLASS_ID_TO_NFT_CONTRACT s (ClassId (addr_str a)) = Some b" by blast
  with assms(1) have b: "NFT_CONTRACT_TO_CLASS_ID s b = Some (ClassId (addr_str a))"
    by (simp add: registry_inv_def)
  then have "ClassId (addr_str a) = ClassId (addr_str b) \<or> \<not> slash_free (class_id_str (ClassId (addr_str a)))"
    using assms(1) unfolding registry_inv_def by blast
  with assms(3) have "addr_str a = addr_str b" by (simp add: real_addr_def)
  with b assms(2) show False by (cases a; cases b) simp
qed

lemma registry_extend:
  assumes "registry_inv s" and "NFT_CONTRACT_TO_CLASS_ID s a = None"
    and "CLASS_ID_TO_NFT_CONTRACT s c = None" and "c = ClassId (addr_str a) \<or> \<not> slash_free (class_id_str c)"
    and "NFT_CONTRACT_TO_CLASS_ID t = (NFT_CONTRACT_TO_CLASS_ID s)(a \<mapsto> c)"
    and "CLASS_ID_TO_NFT_CONTRACT t = (CLASS_ID_TO_NFT_CONTRACT s)(c \<mapsto> a)"
  shows "registry_inv t"
  unfolding registry_inv_def
proof (intro conjI allI impI)
  have inv: "NFT_CONTRACT_TO_CLASS_ID s a' = Some c' \<longleftrightarrow> CLASS_ID_TO_NFT_CONTRACT s c' = Some a'" for a' c'
    using assms(1) by (simp add: registry_inv_def)
  show "NFT_CONTRACT_TO_CLASS_ID t a' = Some c' \<longleftrightarrow> CLASS_ID_TO_NFT_CONTRACT t c' = Some a'" for a' c'
    using inv [of a' c'] inv [of a c'] inv [of a' c] assms(2,3) by (auto simp: assms(5,6))
  show "c' = ClassId (addr_str a') \<or> \<not> slash_free (class_id_str c')"
    if "NFT_CONTRACT_TO_CLASS_ID t a' = Some c'" for a' c'
    using that assms(1,4) by (auto simp: assms(5) registry_inv_def split: if_splits)
qed

lemma registry_kept:
  "registry_inv s \<Longrightarrow> NFT_CONTRACT_TO_CLASS_ID t = NFT_CONTRACT_TO_CLASS_ID s \<Longrightarrow>
   CLASS_ID_TO_NFT_CONTRACT t = CLASS_ID_TO_NFT_CONTRACT s \<Longrightarrow> registry_inv t"
  by (simp add: registry_inv_def)

lemma registry_step:
  assumes "bridge_spec s e t" and "registry_inv s"
  shows "registry_inv t"
  using assms
proof (cases rule: bridge_spec.cases)
  case (spec_send_first a ch tid)
  with assms(2) show ?thesis
    by (auto intro!: registry_extend [of s a "ClassId (addr_str a)"] fresh_name_free simp: with_class_def)
next
  case (spec_create cls a ch)
  with assms(2) show ?thesis
    by (auto intro!: registry_extend [of s a "cls_id cls"] dest: foreign_class_slash)
qed (auto intro: registry_kept [OF assms(2)])

lemma class_step:
  assumes "bridge_spec s e t" and "class_inv s"
  shows "class_inv t"
  using assms
  by (cases rule: bridge_spec.cases)
    (auto simp: class_inv_def with_class_def class_wf_def fresh_class_def real_addr_def)

lemma token_step:
  assumes "bridge_spec s e t" and "registry_inv s" and "class_inv s" and "token_inv s"
  shows "token_inv t"
  using assms(1)
proof (cases rule: bridge_spec.cases)
  case (spec_send_known a cid cls ch tid)
  then have "CLASS_ID_TO_NFT_CONTRACT s cid = Some a" "cls_id cls = cid"
    using assms(2,3) by (auto simp: registry_inv_def class_inv_def)
  with spec_send_known assms(4) show ?thesis by (fastforce simp: token_inv_def)
qed (use assms(4) in \<open>fastforce simp: token_inv_def with_class_def drop_keys_def put_keys_def split: if_splits\<close>)+

lemma init_inv: "bridge_init s \<Longrightarrow> bridge_inv s"
  by (auto simp: bridge_init_def instantiate_Ok_iff bridge_inv_def items_inv_def po_inv_def
      registry_inv_def class_inv_def token_inv_def empty_bridge_def po_ready_def)

lemma step_inv: "bridge_spec s e t \<Longrightarrow> bridge_inv s \<Longrightarrow> bridge_inv t"
  by (auto simp: bridge_inv_def intro: items_step po_step_kept registry_step class_step token_step)

interpretation bridge_safe: inductive_invariant bridge_init "\<lambda>s t. \<exists>e. bridge_step s e t" bridge_inv
  by unfold_locales (auto intro: init_inv step_inv step_refines_spec)

lemma reachable_inv: "reachable s \<Longrightarrow> bridge_inv s"
  unfolding reachable_def by (rule bridge_safe.inv_reach)

section \<open>Ledgers\<close>

text \<open>A token away on a channel is a credit that a redemption on this channel spends.\<close>

definition locked_for :: "string \<Rightarrow> class_token \<Rightarrow> Bridge \<Rightarrow> nat" where
  "locked_for ch k s = (if OUTGOING_CLASS_TOKEN_TO_CHANNEL s k = Some ch then 1 else 0)"

definition redeems :: "string \<Rightarrow> class_token \<Rightarrow> bridge_event \<Rightarrow> bool" where
  "redeems ch k e \<longleftrightarrow> (case e of Arrived c rs cs \<Rightarrow> c = ch \<and> k \<in> set rs | _ \<Rightarrow> False)"

definition sends :: "string \<Rightarrow> class_token \<Rightarrow> bridge_event \<Rightarrow> bool" where
  "sends ch k e \<longleftrightarrow> e = Sent ch k"

text \<open>A voucher that came in on a channel is a credit that its burning spends.\<close>

definition held_from :: "string \<Rightarrow> class_token \<Rightarrow> Bridge \<Rightarrow> nat" where
  "held_from ch k s = (if INCOMING_CLASS_TOKEN_TO_CHANNEL s k = Some ch then 1 else 0)"

definition burns :: "string \<Rightarrow> class_token \<Rightarrow> bridge_event \<Rightarrow> bool" where
  "burns ch k e \<longleftrightarrow> (case e of Acked c ks \<Rightarrow> c = ch \<and> k \<in> set ks | _ \<Rightarrow> False)"

definition creates :: "string \<Rightarrow> class_token \<Rightarrow> bridge_event \<Rightarrow> bool" where
  "creates ch k e \<longleftrightarrow> (case e of Arrived c rs cs \<Rightarrow> c = ch \<and> k \<in> set cs | _ \<Rightarrow> False)"

definition is_pause :: "bridge_event \<Rightarrow> bool" where
  "is_pause e \<longleftrightarrow> (case e of PausedBy _ \<Rightarrow> True | _ \<Rightarrow> False)"

interpretation redemptions: spending_budget bridge_spec "locked_for ch k" "redeems ch k" "sends ch k" for ch k
proof unfold_locales
  fix s e t
  show "Suc (locked_for ch k t) \<le> locked_for ch k s" if "bridge_spec s e t" "redeems ch k e"
    using that by cases (auto simp: redeems_def locked_for_def drop_keys_def)
  show "locked_for ch k t \<le> locked_for ch k s" if "bridge_spec s e t" "\<not> redeems ch k e" "\<not> sends ch k e"
    using that by cases (auto simp: redeems_def sends_def locked_for_def drop_keys_def with_class_def)
  show "\<not> redeems ch k e" if "sends ch k e" using that by (simp add: sends_def redeems_def)
qed (simp add: locked_for_def)

interpretation burning: spending_budget bridge_spec "held_from ch k" "burns ch k" "creates ch k" for ch k
proof unfold_locales
  fix s e t
  show "Suc (held_from ch k t) \<le> held_from ch k s" if "bridge_spec s e t" "burns ch k e"
    using that by cases (auto simp: burns_def held_from_def drop_keys_def)
  show "held_from ch k t \<le> held_from ch k s" if "bridge_spec s e t" "\<not> burns ch k e" "\<not> creates ch k e"
    using that by cases (auto simp: burns_def creates_def held_from_def drop_keys_def put_keys_def with_class_def)
  show "\<not> burns ch k e" if "creates ch k e"
    using that by (cases e) (auto simp: burns_def creates_def)
qed (simp add: held_from_def)

interpretation pausing: spending_budget bridge_spec "\<lambda>s. pause_rights (PO s)" is_pause "\<lambda>e. e = Migrated"
proof unfold_locales
  fix s e t
  show "Suc (pause_rights (PO t)) \<le> pause_rights (PO s)" if "bridge_spec s e t" "is_pause e"
    using that by cases (auto simp: is_pause_def pause_rights_def)
  show "pause_rights (PO t) \<le> pause_rights (PO s)" if "bridge_spec s e t" "\<not> is_pause e" "e \<noteq> Migrated"
    using that by cases (auto simp: is_pause_def pause_rights_def with_class_def)
  show "\<not> is_pause e" if "e = Migrated" using that by (simp add: is_pause_def)
qed (simp add: pause_rights_def)

lemma run_refines_spec: "run bridge_step s es t \<Longrightarrow> run bridge_spec s es t"
  by (induction rule: run.induct) (auto intro: run.intros step_refines_spec)

section \<open>A sample history\<close>

text \<open>A fresh bridge, and the bridge once token 1 of the collection \<^verbatim>\<open>nft\<close> has left on \<^verbatim>\<open>channel-0\<close>.\<close>

definition sample_init :: Bridge where
  "sample_init = empty_bridge\<lparr>
     contract_version := Some (CONTRACT_NAME, CONTRACT_VERSION), CW721_CODE_ID := Some 5,
     PROXY := Some None, PO := \<lparr>pauser = Some (Some (Addr ''ekez'')), paused = Some False\<rparr>\<rparr>"

definition sample_locked :: Bridge where
  "sample_locked = (with_class (Addr ''nft'') sample_init)\<lparr>
     OUTGOING_CLASS_TOKEN_TO_CHANNEL := [(ClassId ''nft'', TokenId ''1'') \<mapsto> ''channel-0'']\<rparr>"

definition outgoing_host :: host where
  "outgoing_host = sample_host\<lparr>from_binary_outgoing := (\<lambda>_. Ok
     \<lparr>og_receiver = ''bob'', og_channel_id = ''channel-0'', og_timeout = sample_timeout, og_memo = None\<rparr>)\<rparr>"

lemma sample_host_ok: "host_ok sample_host" "host_ok outgoing_host" "host_ok (packet_host d)"
proof -
  have ok: "host_ok h" if "execute_encoder h code_execute" "cw721_encoder h code_cw721"
    "addr_validate h = addr_validate sample_host" for h
    using that by (auto simp: host_ok_def real_addr_def slash_free_def split: if_splits)
  show "host_ok sample_host" "host_ok outgoing_host" "host_ok (packet_host d)"
    by (rule ok; simp add: outgoing_host_def packet_host_def execute_encoder_def cw721_encoder_def)+
qed

lemma sample_init_ok: "bridge_init sample_init"
  unfolding bridge_init_def
proof (intro exI conjI)
  show "instantiate sample_host sample_env
      \<lparr>cw721_base_code_id = 5, init_proxy = None, init_pauser = Some ''ekez''\<rparr> empty_bridge =
      (Ok (response [] [(''method'', ''instantiate''), (''cw721_code_id'', show_nat (unat (5 :: u64)))]), sample_init)"
    by (simp add: instantiate_Ok_iff sample_init_def empty_bridge_def po_empty_def)
qed (rule sample_host_ok)

definition sample_sent :: Response where
  "sample_sent = sent_response (fresh_class (Addr ''nft'')) (TokenId ''1'') \<lparr>og_receiver = ''bob'',
     og_channel_id = ''channel-0'', og_timeout = sample_timeout, og_memo = None\<rparr> ''packet''"

lemma sample_class:
  "class_of_contract (Addr ''nft'') sample_init =
     (Ok (fresh_class (Addr ''nft'')), with_class (Addr ''nft'') sample_init)"
  by (simp add: class_of_contract_run sample_init_def empty_bridge_def)

lemma sample_execute_send:
  "execute outgoing_host sample_env \<lparr>info_sender = Addr ''nft''\<rparr>
     (ReceiveNft \<lparr>crm_sender = ''alice'', crm_token_id = ''1'', crm_msg = []\<rparr>) sample_init =
     (Ok sample_sent, sample_locked)"
proof -
  have "receive_nft outgoing_host \<lparr>info_sender = Addr ''nft''\<rparr> (TokenId ''1'') ''alice'' [] sample_init =
      (Ok sample_sent, sample_locked)"
    unfolding receive_nft_Ok_iff sample_sent_def
    by (simp add: sample_class outgoing_host_def sample_locked_def store_eqs fresh_class_def class_key_fits_def)
      (simp add: sample_init_def empty_bridge_def)
  then show ?thesis
    by (simp add: execute_Ok_iff execute_receive_nft_Ok_iff) (simp add: sample_init_def)
qed

lemma sample_send: "bridge_step sample_init (Sent ''channel-0'' (ClassId ''nft'', TokenId ''1'')) sample_locked"
proof -
  have "bridge_step sample_init (Sent ''channel-0'' (cls_id (fresh_class (Addr ''nft'')), TokenId ''1'')) sample_locked"
    by (rule step_send [OF sample_host_ok(2) _ _ sample_execute_send sample_class])
      (simp_all add: real_addr_def slash_free_def sample_locked_def fresh_class_def)
  then show ?thesis by (simp add: fresh_class_def)
qed

lemma sample_reachable: "reachable sample_init" "reachable sample_locked"
  unfolding reachable_def using sample_init_ok sample_send by (blast intro: reach.intros)+

lemma sample_run: "run bridge_step sample_init [Sent ''channel-0'' (ClassId ''nft'', TokenId ''1'')] sample_locked"
  by (simp add: run_cons_iff run_nil_iff sample_send)

text \<open>The bridge once a packet has brought token 2 of a foreign class to it.\<close>

definition sample_voucher :: Bridge where
  "sample_voucher = received sample_packet (sample_data ''wasm.a/channel-7/nft'' [''2'']) sample_init"

lemma sample_voucher_incoming:
  "INCOMING_CLASS_TOKEN_TO_CHANNEL sample_voucher
     (ClassId ''wasm.b/channel-0/wasm.a/channel-7/nft'', TokenId ''2'') = Some ''channel-0''"
proof -
  let ?d = "sample_data ''wasm.a/channel-7/nft'' [''2'']"
  have wf: "packet_wf ?d" by (simp add: sample_data_def packet_wf_def opt_len_ok_def)
  have "\<not> returning sample_init l ch t" for l ch t
    by (simp add: returning_def sample_init_def empty_bridge_def split: option.splits)
  then have "redeemed_tokens sample_init sample_packet ?d = []"
    using redeemed_tokens_set [OF wf, of sample_init sample_packet] by simp
  with redeemed_created_mset [OF wf, of sample_init sample_packet]
  have "mset (map item_id (created_items sample_init sample_packet ?d)) = {#TokenId ''2''#}"
    by (simp add: sample_data_def)
  then have "set (map item_id (created_items sample_init sample_packet ?d)) = {TokenId ''2''}"
    by (metis set_mset_mset set_mset_single)
  then show ?thesis
    by (simp add: sample_voucher_def received_def moved_def voucher_class_def)
      (simp add: sample_defs get_endpoint_prefix_def)
qed

lemma sample_keys_fit: "keys_fit s sample_packet (sample_data ''wasm.a/channel-7/nft'' ts)"
  by (rule keys_fitI) (simp add: class_key_fits_def voucher_class_def get_endpoint_prefix_def sample_defs)

text \<open>The packet that brings tokens of the class \<^verbatim>\<open>wasm.a/channel-7/nft\<close>, received in an unpaused state.\<close>

lemma sample_arrival:
  fixes s :: Bridge and ts :: "string list"
  defines "d \<equiv> sample_data ''wasm.a/channel-7/nft'' ts"
  assumes "paused (PO s) = Some False" and "ts \<noteq> []"
  shows "bridge_step s
    (Arrived ''channel-0'' (map (Pair (ClassId ''nft'')) (redeemed_tokens s sample_packet d))
      (map (Pair (ClassId ''wasm.b/channel-0/wasm.a/channel-7/nft'')) (map item_id (created_items s sample_packet d))))
    (received sample_packet d s)"
proof -
  let ?sub = "receive_submessage code_execute (env_contract sample_env) (Addr ''bob'') s sample_packet d"
  have enc: "execute_encoder (packet_host d) code_execute" by (simp add: packet_host_def)
  have "receive_ibc_packet (packet_host d) sample_env sample_packet s =
      (Ok (receive_response [?sub] (receive_attributes sample_packet d)), received sample_packet d s)"
    by (rule receive_ibc_packet_run)
      (use assms(2,3) sample_keys_fit enc in \<open>simp_all add: d_def packet_host_def sample_data_def packet_wf_def opt_len_ok_def\<close>)
  note run = ibc_packet_receive_accept [OF this]
  obtain cbs where cbs: "asks code_execute (env_contract sample_env) [?sub] cbs" using asks_some by blast
  have loc: "packet_local sample_packet d = Some ''nft''"
    by (simp add: packet_local_def try_pop_source_prefix_def get_endpoint_prefix_def sample_defs d_def)
  have vc: "voucher_class sample_packet d = ClassId ''wasm.b/channel-0/wasm.a/channel-7/nft''"
    by (simp add: voucher_class_def get_endpoint_prefix_def sample_defs d_def)
  have ch: "channel_id (dest sample_packet) = ''channel-0''" by (simp add: sample_defs)
  from step_packet [OF sample_host_ok(3) run enc code_messages(1), of cbs] cbs
    asks_received [OF code_messages(1) cbs]
  show ?thesis by (simp add: loc vc ch local_class_def)
qed

lemma sample_voucher_arrives:
  "bridge_step sample_init
     (Arrived ''channel-0'' [] [(ClassId ''wasm.b/channel-0/wasm.a/channel-7/nft'', TokenId ''2'')]) sample_voucher"
proof -
  have "\<not> returning sample_init l ch t" for l ch t
    by (simp add: returning_def sample_init_def empty_bridge_def split: option.splits)
  then have "redeemed_tokens sample_init sample_packet (sample_data ''wasm.a/channel-7/nft'' [''2'']) = []"
    "map item_id (created_items sample_init sample_packet (sample_data ''wasm.a/channel-7/nft'' [''2''])) = [TokenId ''2'']"
    by (simp_all add: redeemed_tokens_def created_items_def packet_items_def sample_data_def zip_tokens_spec zip_spec_def)
  with sample_arrival [of sample_init "[''2'']"] show ?thesis
    by (simp add: sample_voucher_def) (simp add: sample_init_def)
qed

lemma sample_voucher_reachable: "reachable sample_voucher"
  using sample_reachable(1) sample_voucher_arrives unfolding reachable_def by (blast intro: reach.intros)

text \<open>The locked token comes back and is released.\<close>

lemma sample_redeem:
  "bridge_step sample_locked (Arrived ''channel-0'' [(ClassId ''nft'', TokenId ''1'')] [])
     (received sample_packet (sample_data ''wasm.a/channel-7/nft'' [''1'']) sample_locked)"
proof -
  let ?d = "sample_data ''wasm.a/channel-7/nft'' [''1'']"
  have loc: "packet_local sample_packet ?d = Some ''nft''"
    by (simp add: packet_local_def try_pop_source_prefix_def get_endpoint_prefix_def sample_defs)
  have "redeemed_tokens sample_locked sample_packet ?d = [TokenId ''1'']"
    "map item_id (created_items sample_locked sample_packet ?d) = []"
    unfolding redeemed_tokens_def created_items_def loc
    by (simp_all add: packet_items_def sample_data_def zip_tokens_spec zip_spec_def returning_def sample_locked_def sample_packet_def
        sample_dest_def)
  with sample_arrival [of sample_locked "[''1'']"] show ?thesis
    by simp (simp add: sample_locked_def sample_init_def with_class_def)
qed

text \<open>A collection is founded for the voucher's class, the voucher leaves again, and the acknowledgement burns it.\<close>

definition voucher_cid :: ClassId where
  "voucher_cid = ClassId ''wasm.b/channel-0/wasm.a/channel-7/nft''"

definition sample_creation :: VoucherCreation where
  "sample_creation = \<lparr>vc_class = \<lparr>cls_id = voucher_cid, cls_uri = None, cls_data = None\<rparr>,
     vc_tokens = [\<lparr>tok_id = TokenId ''2'', tok_uri = None, tok_data = None\<rparr>]\<rparr>"

definition founding_host :: host where
  "founding_host = sample_host\<lparr>query_contract_info := (\<lambda>_. Ok (class_id_str voucher_cid, class_id_str voucher_cid))\<rparr>"

definition sample_founded :: Bridge where
  "sample_founded = contract_class_save (Addr ''v721'') voucher_cid (class_contract_save voucher_cid (Addr ''v721'')
     (class_save voucher_cid (vc_class sample_creation) sample_voucher))"

lemma sample_voucher_parts:
  "PO sample_voucher = PO sample_init" "CW721_CODE_ID sample_voucher = Some 5"
  "CLASS_ID_TO_NFT_CONTRACT sample_voucher = Map.empty" "NFT_CONTRACT_TO_CLASS_ID sample_voucher = Map.empty"
  by (simp_all add: sample_voucher_def received_def moved_def) (simp_all add: sample_init_def empty_bridge_def)

lemma sample_own_callback: "own_callback (CreateVouchers ''bob'' sample_creation)"
proof (rule own_create)
  let ?d = "sample_data ''wasm.a/channel-7/nft'' [''2'']"
  show "packet_wf ?d" by (simp add: sample_data_def packet_wf_def opt_len_ok_def)
  have "\<not> returning sample_init l ch t" for l ch t
    by (simp add: returning_def sample_init_def empty_bridge_def split: option.splits)
  then show "packet_creation sample_init sample_packet ?d = Some sample_creation"
    by (simp add: packet_creation_def creation_for_def created_items_def packet_items_def item_token_def
        sample_creation_def voucher_cid_def voucher_class_def get_endpoint_prefix_def sample_defs zip_tokens_spec zip_spec_def)
qed

lemma sample_found: "bridge_step sample_voucher (CollectionCreated voucher_cid (Addr ''v721'')) sample_founded"
proof -
  let ?u = "class_save voucher_cid (vc_class sample_creation) sample_voucher"
  let ?rp = "\<lparr>reply_id = INSTANTIATE_CW721_REPLY_ID, reply_result = SubMsgOk (Some ''v721'')\<rparr>"
  have cid: "cls_id (vc_class sample_creation) = voucher_cid" by (simp add: sample_creation_def)
  obtain resp where run: "execute sample_host sample_env \<lparr>info_sender = Addr ''bridge''\<rparr>
      (Callback (CreateVouchers ''bob'' sample_creation)) sample_voucher = (Ok resp, ?u)"
    by (auto simp: execute_Ok_iff execute_callback_Ok_iff callback_create_vouchers_Ok_iff sample_voucher_parts cid
        mint_call_def voucher_collection_def sample_init_def)
  obtain resp' where rep: "reply founding_host ?rp ?u = (Ok resp', sample_founded)"
    by (simp add: reply_def reply_cw721_Ok_iff founding_host_def sample_founded_def sample_host_def)
  have ok: "host_ok founding_host"
    using sample_host_ok(1) by (simp add: host_ok_def founding_host_def execute_encoder_def cw721_encoder_def)
  have "bridge_step sample_voucher (CollectionCreated (cls_id (vc_class sample_creation)) (Addr ''v721'')) sample_founded"
    by (rule step_create [OF sample_host_ok(1) sample_own_callback run _ ok rep])
      (simp_all add: sample_voucher_parts founding_host_def cid sample_host_def)
  then show ?thesis by (simp add: cid)
qed

definition forgotten_voucher :: Bridge where
  "forgotten_voucher = forgotten voucher_cid [TokenId ''2''] sample_founded"

lemma sample_burn: "bridge_step sample_founded (Acked ''channel-0'' [(voucher_cid, TokenId ''2'')]) forgotten_voucher"
proof -
  let ?d = "sample_data (class_id_str voucher_cid) [''2'']"
  let ?a = "\<lparr>ack_data = ''R1'', original_packet = sample_packet\<lparr>src := sample_dest, dest := sample_src\<rparr>\<rparr>"
  have prem: "try_get_ack_error (packet_host ?d) (ack_data ?a) = (Ok None :: (ContractError, string option) outcome)"
    "from_binary_packet (packet_host ?d) (pkt_data (original_packet ?a)) = Ok ?d"
    "CLASS_ID_TO_NFT_CONTRACT sample_founded (class_id ?d) = Some (Addr ''v721'')"
    "cw721_encoder (packet_host ?d) code_cw721" "token_ids ?d = [] \<or> class_key_fits (class_id ?d)"
    by (simp_all add: sample_data_def packet_host_def try_get_ack_error_def sample_ack_codec sample_founded_def store_defs
        class_key_fits_def voucher_cid_def)
  have ch: "channel_id (src (original_packet ?a)) = ''channel-0''" by (simp add: sample_dest_def)
  have d: "class_id ?d = voucher_cid" "token_ids ?d = [TokenId ''2'']" by (simp_all add: sample_data_def)
  have "INCOMING_CLASS_TOKEN_TO_CHANNEL sample_founded (voucher_cid, TokenId ''2'') = Some ''channel-0''"
    using sample_voucher_incoming by (simp add: sample_founded_def store_defs voucher_cid_def)
  then have b: "burned_tokens sample_founded voucher_cid ''channel-0'' [TokenId ''2''] = [TokenId ''2'']"
    by (simp add: burned_tokens_def bare_items_def came_in_def)
  obtain resp where run: "ibc_packet_ack (packet_host ?d) ?a sample_founded = (Ok resp, forgotten_voucher)"
      "basic_messages resp = map (\<lambda>t. cw721_call code_cw721 (Addr ''v721'') (Burn (token_id_str t))) [TokenId ''2'']"
    using ibc_packet_ack_success_run [OF prem] unfolding ch d b forgotten_voucher_def by blast
  from step_ack [OF sample_host_ok(3) run(1) prem(1,2,4) code_messages(2) prem(3) run(2)]
  show ?thesis unfolding ch d by simp
qed

lemma sample_voucher_run:
  "run bridge_step sample_init
     [Arrived ''channel-0'' [] [(voucher_cid, TokenId ''2'')], CollectionCreated voucher_cid (Addr ''v721''),
      Acked ''channel-0'' [(voucher_cid, TokenId ''2'')]] forgotten_voucher"
  using sample_voucher_arrives sample_found sample_burn
  by (auto simp: run_cons_iff run_nil_iff voucher_cid_def)

definition sample_minted :: Bridge where
  "sample_minted = minted voucher_cid (vc_tokens sample_creation) sample_founded"

lemma sample_minted_reachable: "reachable sample_minted"
proof -
  let ?m = "CallbackMint voucher_cid ''bob'' (vc_tokens sample_creation)"
  have cid: "cls_id (vc_class sample_creation) = voucher_cid" by (simp add: sample_creation_def)
  have own: "own_callback ?m" using own_mint [OF sample_own_callback] by (simp add: cid)
  obtain resp where run: "execute sample_host sample_env \<lparr>info_sender = Addr ''bridge''\<rparr> (Callback ?m) sample_founded =
      (Ok resp, sample_minted)"
    by (auto simp: execute_Ok_iff execute_callback_Ok_iff callback_mint_Ok_iff sample_minted_def sample_founded_def store_defs
        sample_voucher_parts mint_msg_def list_all2_Cons1 sample_creation_def class_key_fits_def voucher_cid_def sample_init_def)
  have "bridge_step sample_founded (CallbackRan ?m) sample_minted"
    by (rule step_callback [OF sample_host_ok(1) own run]) simp
  with sample_found sample_voucher_reachable show ?thesis unfolding reachable_def by (blast intro: reach.intros)
qed

lemma sample_minted_metadata:
  "TOKEN_METADATA sample_minted (voucher_cid, TokenId ''2'') = Some None"
  "TOKEN_METADATA sample_minted (ClassId ''nft'', TokenId ''1'') = None"
  by (simp_all add: sample_minted_def minted_def sample_creation_def store_defs voucher_cid_def sample_founded_def)
    (simp add: sample_voucher_def received_def moved_def sample_init_def empty_bridge_def)

definition sample_paused :: Bridge where
  "sample_paused = sample_init\<lparr>PO := \<lparr>pauser = Some None, paused = Some True\<rparr>\<rparr>"

lemma sample_paused_po: "paused (PO sample_paused) = Some True"
  by (simp add: sample_paused_def)

lemma sample_migrate: "bridge_step sample_paused Migrated sample_init"
  by (rule step_migrate [OF sample_host_ok(1), of "WithUpdate (Some ''ekez'') None"])
    (simp add: migrate_Ok_iff sample_paused_def sample_init_def)

section \<open>Properties\<close>

text \<open>C4: In every history of a bridge from its instantiation, and for every channel and token, the
  packets on the channel whose response asks for the token's redemption, plus the token still being
  away on it, are at most the sends on that channel, and no response asks for the redemption of a
  token twice: whatever packets a counterparty makes up, no NFT is released more often than it was
  sent out there. The redemptions are those in the messages that packet receipt emits.\<close>

theorem redemptions_at_most_sends:
  assumes "bridge_init s" and "run bridge_step s es t"
  shows "length (filter (redeems ch k) es) + (if OUTGOING_CLASS_TOKEN_TO_CHANNEL t k = Some ch then 1 else 0)
      \<le> length (filter (sends ch k) es) \<and>
    (\<forall>c rs cs. Arrived c rs cs \<in> set es \<longrightarrow> distinct rs)"
proof
  have "locked_for ch k s = 0"
    using assms(1) by (auto simp: bridge_init_def instantiate_Ok_iff empty_bridge_def locked_for_def)
  with redemptions.spent_within_budget [OF run_refines_spec [OF assms(2)], of ch k]
  show "length (filter (redeems ch k) es) + (if OUTGOING_CLASS_TOKEN_TO_CHANNEL t k = Some ch then 1 else 0)
      \<le> length (filter (sends ch k) es)"
    by (simp add: locked_for_def)
  from run_refines_spec [OF assms(2)]
  show "\<forall>c rs cs. Arrived c rs cs \<in> set es \<longrightarrow> distinct rs"
    by (induction rule: run.induct) (auto elim: bridge_spec.cases)
qed

theorem redemptions_at_most_sends_witness:
  "bridge_init sample_init \<and>
   run bridge_step sample_init
     [Sent ''channel-0'' (ClassId ''nft'', TokenId ''1''), Arrived ''channel-0'' [(ClassId ''nft'', TokenId ''1'')] []]
     (received sample_packet (sample_data ''wasm.a/channel-7/nft'' [''1'']) sample_locked) \<and>
   OUTGOING_CLASS_TOKEN_TO_CHANNEL
     (received sample_packet (sample_data ''wasm.a/channel-7/nft'' [''1'']) sample_locked)
     (ClassId ''nft'', TokenId ''1'') \<noteq> Some ''channel-0''"
proof -
  have run: "run bridge_step sample_init
      [Sent ''channel-0'' (ClassId ''nft'', TokenId ''1''), Arrived ''channel-0'' [(ClassId ''nft'', TokenId ''1'')] []]
      (received sample_packet (sample_data ''wasm.a/channel-7/nft'' [''1'']) sample_locked)"
    using sample_send sample_redeem by (auto simp: run_cons_iff run_nil_iff)
  show ?thesis
    using redemptions_at_most_sends [OF sample_init_ok run, of "''channel-0''" "(ClassId ''nft'', TokenId ''1'')"]
      sample_init_ok run
    by (auto simp: sends_def redeems_def split: if_splits)
qed

text \<open>C14: Likewise for vouchers: in every history, a voucher is burned by acknowledgements on a channel at
  most as often as packets on that channel created it, and one acknowledgement burns no voucher
  twice. The burns are the burn messages the acknowledgement emits, the creations those in the
  messages that packet receipt emits.\<close>

theorem burns_at_most_creations:
  assumes "bridge_init s" and "run bridge_step s es t"
  shows "length (filter (burns ch k) es) + (if INCOMING_CLASS_TOKEN_TO_CHANNEL t k = Some ch then 1 else 0)
      \<le> length (filter (creates ch k) es) \<and>
    (\<forall>c ks. Acked c ks \<in> set es \<longrightarrow> distinct ks)"
proof
  have "held_from ch k s = 0"
    using assms(1) by (auto simp: bridge_init_def instantiate_Ok_iff empty_bridge_def held_from_def)
  with burning.spent_within_budget [OF run_refines_spec [OF assms(2)], of ch k]
  show "length (filter (burns ch k) es) + (if INCOMING_CLASS_TOKEN_TO_CHANNEL t k = Some ch then 1 else 0)
      \<le> length (filter (creates ch k) es)"
    by (simp add: held_from_def)
  from run_refines_spec [OF assms(2)]
  show "\<forall>c ks. Acked c ks \<in> set es \<longrightarrow> distinct ks"
    by (induction rule: run.induct) (auto elim: bridge_spec.cases)
qed

theorem burns_at_most_creations_witness:
  "bridge_init sample_init \<and>
   run bridge_step sample_init
     [Arrived ''channel-0'' [] [(voucher_cid, TokenId ''2'')], CollectionCreated voucher_cid (Addr ''v721''),
      Acked ''channel-0'' [(voucher_cid, TokenId ''2'')]] forgotten_voucher \<and>
   INCOMING_CLASS_TOKEN_TO_CHANNEL forgotten_voucher (voucher_cid, TokenId ''2'') \<noteq> Some ''channel-0''"
  using burns_at_most_creations [OF sample_init_ok sample_voucher_run, of "''channel-0''" "(voucher_cid, TokenId ''2'')"]
    sample_init_ok sample_voucher_run
  by (auto simp: creates_def burns_def split: if_splits)

text \<open>C10: Every history of the code is a history of the abstract specification with the same events:
  each entry point does to the storage what the specification says on the maps directly.\<close>

theorem code_refines_specification:
  assumes "run bridge_step s es t"
  shows "run bridge_spec s es t"
  using assms by (rule run_refines_spec)

theorem code_refines_specification_witness:
  "run bridge_spec sample_init [Sent ''channel-0'' (ClassId ''nft'', TokenId ''1'')] sample_locked"
  by (rule code_refines_specification [OF sample_run])

text \<open>C15: In every reachable state the two class registries are inverse to each other as seen through
  the queries: a collection is registered under a class exactly when the class is registered for
  that collection, so no two collections share a class and no two classes a collection.\<close>

theorem registry_queries_inverse:
  assumes "reachable s" and "addr_validate h (addr_str a) = Ok a"
  shows "query_class_id_for_nft_contract h (addr_str a) s = (Ok (Some c), s) \<longleftrightarrow>
    query_nft_contract_for_class_id (class_id_str c) s = (Ok (Some a), s)"
proof -
  have "NFT_CONTRACT_TO_CLASS_ID s a = Some c \<longleftrightarrow> CLASS_ID_TO_NFT_CONTRACT s c = Some a"
    using reachable_inv [OF assms(1)] by (simp add: bridge_inv_def registry_inv_def)
  with assms(2) show ?thesis
    by (simp add: query_class_id_for_nft_contract_def query_nft_contract_for_class_id_def reads_def lift_def bnd_def)
qed

theorem registry_queries_inverse_witness:
  "query_class_id_for_nft_contract sample_host ''nft'' sample_locked = (Ok (Some (ClassId ''nft'')), sample_locked) \<and>
   query_nft_contract_for_class_id ''nft'' sample_locked = (Ok (Some (Addr ''nft'')), sample_locked)"
proof -
  have "query_nft_contract_for_class_id ''nft'' sample_locked = (Ok (Some (Addr ''nft'')), sample_locked)"
    by (simp add: query_nft_contract_for_class_id_def reads_def sample_locked_def with_class_def)
  then show ?thesis
    using registry_queries_inverse [OF sample_reachable(2), of sample_host "Addr ''nft''" "ClassId ''nft''"] by simp
qed

text \<open>C18: Every packet that a reachable bridge sends passes the validation its counterparty applies:
  an accepted delivery emits exactly one packet, whose data is well formed and carries exactly the
  delivered token.\<close>

theorem sent_packets_validate:
  assumes "reachable s" and "host_ok h" and "real_addr (info_sender info)"
    and "delivery h info msg = Some (collection, tid)" and "execute h env info msg s = (Ok resp, t)"
  shows "\<exists>d bytes ch tmo. messages resp = [submsg_new (Ibc (SendPacket ch bytes tmo))] \<and>
    to_binary_packet h d = Ok bytes \<and> validate d = Ok () \<and> token_ids d = [tid] \<and>
    OUTGOING_CLASS_TOKEN_TO_CHANNEL t (class_id d, tid) = Some ch"
proof -
  obtain sndr bin where run: "receive_nft h \<lparr>info_sender = collection\<rparr> tid sndr bin s = (Ok resp, t)"
    and real: "real_addr collection"
    using delivery_receive [OF assms(2-5)] by blast
  then obtain sa og cls s1 uri bytes where
    cls: "class_of_contract collection s = (Ok cls, s1)" and
    enc: "to_binary_packet h (outgoing_packet cls tid uri (stored_data s cls tid) sa og) = Ok bytes" and
    resp: "resp = sent_response cls tid og bytes" and
    t: "t = outgoing_save (cls_id cls, tid) (og_channel_id og) s1"
    by (auto simp: receive_nft_Ok_iff)
  have "class_wf cls"
    using cls reachable_inv [OF assms(1)] real
    by (auto elim!: class_of_contract_cases
        simp: bridge_inv_def class_inv_def class_wf_def fresh_class_def real_addr_def)
  then have "validate (outgoing_packet cls tid uri (stored_data s cls tid) sa og) = Ok ()"
    by (auto simp: validate_Ok_iff packet_wf_def outgoing_packet_def class_wf_def opt_len_ok_def ClassId_eq_iff
        split: option.splits)
  then show ?thesis
    using enc by (intro exI conjI) (auto simp: resp t sent_response_def outgoing_packet_def outgoing.look_save)
qed

theorem sent_packets_validate_witness:
  "\<exists>d bytes ch tmo resp t.
    execute outgoing_host sample_env \<lparr>info_sender = Addr ''nft''\<rparr>
      (ReceiveNft \<lparr>crm_sender = ''alice'', crm_token_id = ''1'', crm_msg = []\<rparr>) sample_init = (Ok resp, t) \<and>
    messages resp = [submsg_new (Ibc (SendPacket ch bytes tmo))] \<and> validate d = Ok () \<and> token_ids d = [TokenId ''1'']"
  using sent_packets_validate [OF sample_reachable(1) sample_host_ok(2) _ _ sample_execute_send]
  by (fastforce simp: sample_execute_send real_addr_def slash_free_def)

text \<open>C16: A failed transfer can always be rolled back: in a reachable state, as long as a token of the
  packet is recorded as away, its class has a collection, so the timeout of the packet is handled;
  the response transfers every token of the packet, in order, from this collection to the packet's sender,
  and exactly the outgoing entries of these tokens are cleared.\<close>

theorem refund_always_possible:
  assumes "reachable s" and "cw721_encoder h enc" and "from_binary_packet h (pkt_data p) = Ok d"
    and "t \<in> set (token_ids d)" and "OUTGOING_CLASS_TOKEN_TO_CHANNEL s (class_id d, t) \<noteq> None"
    and "addr_validate h (sender d) = Ok owner"
  shows "\<exists>collection resp. CLASS_ID_TO_NFT_CONTRACT s (class_id d) = Some collection \<and>
    ibc_packet_timeout h p s =
      (Ok resp, s\<lparr>OUTGOING_CLASS_TOKEN_TO_CHANNEL :=
         (\<lambda>k. if fst k = class_id d \<and> snd k \<in> set (token_ids d) then None
              else OUTGOING_CLASS_TOKEN_TO_CHANNEL s k)\<rparr>) \<and>
    basic_messages resp =
      map (\<lambda>tid. submsg_new (Wasm (WasmExecute (addr_str collection)
             (enc (TransferNft (addr_str owner) (token_id_str tid)))))) (token_ids d)"
proof -
  obtain collection where col: "CLASS_ID_TO_NFT_CONTRACT s (class_id d) = Some collection"
    and fit: "class_key_fits (class_id d)"
    using reachable_inv [OF assms(1)] assms(5) by (fastforce simp: bridge_inv_def token_inv_def)
  from handle_packet_fail_run [OF assms(3) col assms(6,2) fit, of "''timeout''"] col show ?thesis
    by (auto simp: ibc_packet_timeout_def refunded_def in_Pair_image transfer_call_def cw721_call_def)
qed

theorem refund_always_possible_witness:
  "\<exists>resp s'. ibc_packet_timeout (packet_host (sample_data ''nft'' [''1''])) sample_packet sample_locked = (Ok resp, s') \<and>
     basic_messages resp = [submsg_new (Wasm (WasmExecute ''nft'' (code_cw721 (TransferNft ''alice'' ''1''))))] \<and>
     OUTGOING_CLASS_TOKEN_TO_CHANNEL s' (ClassId ''nft'', TokenId ''1'') = None"
proof -
  let ?d = "sample_data ''nft'' [''1'']"
  have prem: "cw721_encoder (packet_host ?d) code_cw721" "from_binary_packet (packet_host ?d) (pkt_data sample_packet) = Ok ?d"
    "TokenId ''1'' \<in> set (token_ids ?d)"
    "OUTGOING_CLASS_TOKEN_TO_CHANNEL sample_locked (class_id ?d, TokenId ''1'') \<noteq> None"
    "addr_validate (packet_host ?d) (sender ?d) = Ok (Addr ''alice'')"
    by (simp_all add: sample_defs sample_locked_def)
  have col: "CLASS_ID_TO_NFT_CONTRACT sample_locked (class_id ?d) = Some (Addr ''nft'')"
    by (simp add: sample_locked_def with_class_def sample_data_def)
  show ?thesis
    using refund_always_possible [OF sample_reachable(2) prem] col by (auto simp: sample_data_def)
qed

text \<open>C17: A redemption never fails inside the bridge: in a reachable state, the redemption that an
  accepted packet asks for finds the collection of its class, and the callback emits exactly one
  transfer per redeemed token to the receiver and writes nothing.\<close>

theorem redemption_always_possible:
  assumes "reachable s" and "host_ok h" and "cw721_encoder h enc" and "paused (PO s) = Some False"
    and "packet_wf d" and "packet_redemption s p d = Some vr" and "addr_validate h recv = Ok a"
  shows "\<exists>collection resp.
    CLASS_ID_TO_NFT_CONTRACT s (cls_id (vr_class vr)) = Some collection \<and>
    execute h env \<lparr>info_sender = env_contract env\<rparr> (Callback (RedeemVouchers recv vr)) (received p d s) =
      (Ok resp, received p d s) \<and>
    messages resp = map (transfer_call enc collection a) (vr_token_ids vr) \<and>
    distinct (vr_token_ids vr)"
proof -
  let ?lc = "local_class (packet_local p d)"
  have vr: "cls_id (vr_class vr) = ?lc" "vr_token_ids vr = redeemed_tokens s p d" "redeemed_tokens s p d \<noteq> []"
    using assms(6) by (auto simp: packet_redemption_def redemption_for_def split: if_splits)
  then obtain x where "x \<in> set (redeemed_tokens s p d)" by (meson list.set_sel(1))
  then have "OUTGOING_CLASS_TOKEN_TO_CHANNEL s (?lc, x) \<noteq> None"
    using redeemed_tokens_set [OF assms(5), of s p] by (auto simp: returning_def local_class_def split: option.splits)
  then obtain collection where col: "CLASS_ID_TO_NFT_CONTRACT s ?lc = Some collection"
    using reachable_inv [OF assms(1)] by (fastforce simp: bridge_inv_def token_inv_def)
  let ?msgs = "map (\<lambda>t. WasmExecute (addr_str collection) (enc (TransferNft (addr_str a) (token_id_str t)))) (vr_token_ids vr)"
  have "list_all2 (\<lambda>x y. transfer_msg h collection a x = Ok y) (vr_token_ids vr) ?msgs"
    by (simp add: list_all2_conv_all_nth transfer_msg_Ok [OF assms(3)])
  moreover have "CLASS_ID_TO_NFT_CONTRACT (received p d s) = CLASS_ID_TO_NFT_CONTRACT s"
    "PO (received p d s) = PO s" by (simp_all add: received_def moved_def)
  ultimately have "execute h env \<lparr>info_sender = env_contract env\<rparr> (Callback (RedeemVouchers recv vr)) (received p d s) =
      (Ok (response (map (\<lambda>m. submsg_new (Wasm m)) ?msgs) [(''method'', ''callback_redeem_vouchers'')]), received p d s)"
    using col assms(4,7) vr(1)
    by (auto simp: execute_Ok_iff execute_callback_Ok_iff callback_redeem_vouchers_Ok_iff)
  then show ?thesis
    using col vr redeemed_tokens_set [OF assms(5), of s p]
    by (auto simp: transfer_call_def cw721_call_def comp_def)
qed

theorem redemption_always_possible_witness:
  "\<exists>resp. execute sample_host sample_env \<lparr>info_sender = env_contract sample_env\<rparr>
      (Callback (RedeemVouchers ''bob''
        \<lparr>vr_class = \<lparr>cls_id = ClassId ''nft'', cls_uri = None, cls_data = None\<rparr>, vr_token_ids = [TokenId ''1'']\<rparr>))
      (received sample_packet (sample_data ''wasm.a/channel-7/nft'' [''1'']) sample_locked) =
      (Ok resp, received sample_packet (sample_data ''wasm.a/channel-7/nft'' [''1'']) sample_locked)"
proof -
  let ?d = "sample_data ''wasm.a/channel-7/nft'' [''1'']"
  let ?vr = "\<lparr>vr_class = \<lparr>cls_id = ClassId ''nft'', cls_uri = None, cls_data = None\<rparr>, vr_token_ids = [TokenId ''1'']\<rparr>"
  have wf: "packet_wf ?d" by (simp add: sample_data_def packet_wf_def opt_len_ok_def)
  have loc: "packet_local sample_packet ?d = Some ''nft''"
    by (simp add: packet_local_def try_pop_source_prefix_def get_endpoint_prefix_def sample_defs)
  have "{t \<in> set (token_ids ?d). returning sample_locked (packet_local sample_packet ?d)
      (channel_id (dest sample_packet)) t} = {TokenId ''1''}"
    unfolding loc by (auto simp: returning_def sample_locked_def sample_data_def sample_packet_def sample_dest_def)
  then have "redeemed_tokens sample_locked sample_packet ?d = [TokenId ''1'']"
    using redeemed_tokens_set [OF wf, of sample_locked sample_packet] by (simp only: distinct_set_singleton)
  then have vr: "packet_redemption sample_locked sample_packet ?d = Some ?vr"
    by (simp add: packet_redemption_def redemption_for_def loc local_class_def) (simp add: sample_data_def)
  have "paused (PO sample_locked) = Some False" by (simp add: sample_locked_def sample_init_def with_class_def)
  then show ?thesis
    using redemption_always_possible
      [OF sample_reachable(2) sample_host_ok(1) sample_encoders(2) _ wf vr, of "''bob''" "Addr ''bob''" sample_env]
    by auto
qed

text \<open>C27: What a metadata query returns in a reachable state. For a token with recorded metadata the class
  has a collection, so the query is answered by it: with the recorded data and the URI the
  collection reports, or with the collection's error when it does not know the token. The case the
  source excludes by assertion, metadata without a collection, cannot occur. A token without
  metadata gets no answer, provided the class identifier is short enough for a storage key. The
  query writes nothing.\<close>

theorem metadata_query_complete:
  assumes "reachable s"
  shows "query_token_metadata h cid tid s =
    (if \<not> class_key_fits (ClassId cid) then Panic key_too_long
     else case TOKEN_METADATA s (ClassId cid, TokenId tid) of
       None \<Rightarrow> Ok None
     | Some md \<Rightarrow>
         map_ok (\<lambda>info. Some \<lparr>tok_id = TokenId tid, tok_uri = nft_token_uri info, tok_data = md\<rparr>)
           (query_nft_info h (the (CLASS_ID_TO_NFT_CONTRACT s (ClassId cid))) tid), s) \<and>
    (TOKEN_METADATA s (ClassId cid, TokenId tid) \<noteq> None \<longrightarrow>
       class_key_fits (ClassId cid) \<and> CLASS_ID_TO_NFT_CONTRACT s (ClassId cid) \<noteq> None)"
proof -
  have inv: "TOKEN_METADATA s (ClassId cid, TokenId tid) \<noteq> None \<longrightarrow>
      class_key_fits (ClassId cid) \<and> CLASS_ID_TO_NFT_CONTRACT s (ClassId cid) \<noteq> None"
    using reachable_inv [OF assms] by (fastforce simp: bridge_inv_def token_inv_def)
  then show ?thesis
    by (cases "query_nft_info h (the (CLASS_ID_TO_NFT_CONTRACT s (ClassId cid))) tid")
      (auto simp: query_token_metadata_def prog_simps at_pair_too_long split: option.splits)
qed

theorem metadata_query_complete_witness:
  "query_token_metadata sample_host (class_id_str voucher_cid) ''2'' sample_minted =
     (Ok (Some \<lparr>tok_id = TokenId ''2'', tok_uri = None, tok_data = None\<rparr>), sample_minted) \<and>
   query_token_metadata sample_host ''nft'' ''1'' sample_minted = (Ok None, sample_minted)"
  using metadata_query_complete [OF sample_minted_reachable, of sample_host "class_id_str voucher_cid" "''2''"]
    metadata_query_complete [OF sample_minted_reachable, of sample_host "''nft''" "''1''"]
    sample_minted_metadata
  by (simp add: class_key_fits_def voucher_cid_def)

text \<open>A voucher is tied to the channel its class names: in a reachable state, when a token is recorded
  as having come in on a channel, its class identifier starts with a port and exactly this channel,
  so with slash-free identifiers a class determines the channel its vouchers came in on.\<close>

theorem voucher_channel_determined:
  assumes "reachable s" and "INCOMING_CLASS_TOKEN_TO_CHANNEL s (c, t1) = Some ch1"
    and "INCOMING_CLASS_TOKEN_TO_CHANNEL s (c, t2) = Some ch2"
  shows "\<exists>p1 r1 p2 r2. class_id_str c = get_endpoint_prefix \<lparr>port_id = p1, channel_id = ch1\<rparr> @ r1 \<and>
    class_id_str c = get_endpoint_prefix \<lparr>port_id = p2, channel_id = ch2\<rparr> @ r2 \<and>
    (slash_free p1 \<and> slash_free ch1 \<and> slash_free p2 \<and> slash_free ch2 \<longrightarrow> ch1 = ch2)"
proof -
  have "foreign_class ch1 c" "foreign_class ch2 c"
    using reachable_inv [OF assms(1)] assms(2,3) by (fastforce simp: bridge_inv_def token_inv_def)+
  then obtain p1 r1 p2 r2 where
    eq: "class_id_str c = get_endpoint_prefix \<lparr>port_id = p1, channel_id = ch1\<rparr> @ r1"
      "class_id_str c = get_endpoint_prefix \<lparr>port_id = p2, channel_id = ch2\<rparr> @ r2"
    by (auto simp: foreign_class_def)
  have "ch1 = ch2" if "slash_free p1 \<and> slash_free ch1 \<and> slash_free p2 \<and> slash_free ch2"
    using prefix_unique [of "\<lparr>port_id = p1, channel_id = ch1\<rparr>" "\<lparr>port_id = p2, channel_id = ch2\<rparr>" r1 r2] eq that
    by (simp add: endpoint_ok_def)
  with eq show ?thesis by blast
qed

theorem voucher_channel_determined_witness:
  "\<exists>p1 r1. class_id_str (ClassId ''wasm.b/channel-0/wasm.a/channel-7/nft'') =
     get_endpoint_prefix \<lparr>port_id = p1, channel_id = ''channel-0''\<rparr> @ r1"
proof -
  have "INCOMING_CLASS_TOKEN_TO_CHANNEL sample_voucher
      (ClassId ''wasm.b/channel-0/wasm.a/channel-7/nft'', TokenId ''2'') = Some ''channel-0''"
    by (simp add: sample_voucher_incoming)
  from voucher_channel_determined [OF sample_voucher_reachable this this] show ?thesis by blast
qed

text \<open>C21: While the bridge is paused only transfers under way are completed: a successful step of a
  paused bridge is an acknowledgement, a refund, the reply that sets the proxy or a migration, and
  only a migration unpauses.\<close>

theorem paused_bridge_only_completes:
  assumes "bridge_step s e t" and "paused (PO s) = Some True"
  shows "((\<exists>ch ks. e = Acked ch ks) \<or> (\<exists>ks. e = Refunded ks) \<or> (\<exists>a. e = ProxySet a) \<or> e = Migrated) \<and>
    (paused (PO t) = Some True \<or> e = Migrated)"
proof
  show "(\<exists>ch ks. e = Acked ch ks) \<or> (\<exists>ks. e = Refunded ks) \<or> (\<exists>a. e = ProxySet a) \<or> e = Migrated"
    using assms(1)
  proof (cases rule: bridge_step.cases)
    case (step_packet h env p resp enc cbs)
    have "paused (PO s) = Some False" using packet_step_cases [OF step_packet(4,5,6,3)] by blast
    with assms(2) show ?thesis by simp
  qed (use assms(2) execute_unpaused in \<open>blast dest: execute_unpaused\<close>)+
  show "paused (PO t) = Some True \<or> e = Migrated"
    using step_refines_spec [OF assms(1)] assms(2)
    by (cases rule: bridge_spec.cases) (auto simp: with_class_def)
qed

theorem paused_bridge_only_completes_witness:
  "bridge_step sample_paused Migrated sample_init \<and> paused (PO sample_paused) = Some True \<and>
   (paused (PO sample_init) = Some True \<or> Migrated = Migrated)"
  using paused_bridge_only_completes [OF sample_migrate sample_paused_po] sample_migrate sample_paused_po by simp

text \<open>C22: Over every history of a bridge from its instantiation, the successful pauses are at most one more
  than the migrations: a pauser can pause once, and only a migration gives the right back. In every
  reachable state a paused bridge has no pauser.\<close>

theorem pauses_at_most_migrations:
  assumes "bridge_init s" and "run bridge_step s es t"
  shows "length (filter is_pause es) \<le> length (filter (\<lambda>e. e = Migrated) es) + 1 \<and>
    (paused (PO t) = Some True \<longrightarrow> pauser (PO t) = Some None)"
proof
  have "pause_rights (PO s) \<le> 1" by (simp add: pause_rights_def)
  with pausing.spent_within_budget [OF run_refines_spec [OF assms(2)]]
  show "length (filter is_pause es) \<le> length (filter (\<lambda>e. e = Migrated) es) + 1" by simp
  have "bridge_inv t"
    using run_refines_spec [OF assms(2)] init_inv [OF assms(1)]
    by (induction rule: run.induct) (auto intro: step_inv)
  then show "paused (PO t) = Some True \<longrightarrow> pauser (PO t) = Some None"
    by (simp add: bridge_inv_def po_inv_def)
qed

theorem pauses_at_most_migrations_witness:
  "length (filter is_pause [Sent ''channel-0'' (ClassId ''nft'', TokenId ''1'')])
     \<le> length (filter (\<lambda>e. e = Migrated) [Sent ''channel-0'' (ClassId ''nft'', TokenId ''1'')]) + 1"
  using pauses_at_most_migrations [OF sample_init_ok sample_run] by blast

end
