(* ===== verification/Bridge_Transfer.thy ===== *)
theory Bridge_Transfer
  imports Bridge_System
begin

text \<open>
  Whole transfers: what two bridges at the ends of one channel do together. The packet one bridge
  sends is the packet the other receives; proved: the voucher the receiving side makes carries the
  sender's class, token and metadata, the receiving side's callbacks and replies complete its
  creation, and sending the voucher back redeems exactly the original token.
\<close>

section \<open>Packets in transit\<close>

text \<open>The packet the chain makes of a \<^verbatim>\<open>SendPacket\<close> message on a channel between two endpoints.\<close>

definition transit :: "IbcEndpoint \<Rightarrow> IbcEndpoint \<Rightarrow> u64 \<Rightarrow> IbcMsg \<Rightarrow> IbcPacket" where
  "transit from to' seq m =
     \<lparr>pkt_data = sp_data m, src = from, dest = to', sequence = seq, pkt_timeout = sp_timeout m\<rparr>"

text \<open>What one host encodes the other decodes.\<close>

definition packet_codec :: "host \<Rightarrow> host \<Rightarrow> bool" where
  "packet_codec h h' \<longleftrightarrow> (\<forall>d b. to_binary_packet h d = Ok b \<longrightarrow> from_binary_packet h' b = Ok d)"

lemma transit_simps [simp]:
  "src (transit e e' n m) = e" "dest (transit e e' n m) = e'" "pkt_data (transit e e' n m) = sp_data m"
  by (simp_all add: transit_def)

lemma split_items_none: "(\<And>t. \<not> R t) \<Longrightarrow> split_items R xs = ([], xs)"
  by (induction xs) simp_all

lemma created_all:
  assumes "\<And>t. \<not> returning s (packet_local p d) (channel_id (dest p)) t"
  shows "redeemed_tokens s p d = []" and "created_items s p d = packet_items d"
  using split_items_none [OF assms] by (simp_all add: redeemed_tokens_def created_items_def)

lemma outgoing_packet_wf: "class_wf cls \<Longrightarrow> packet_wf (outgoing_packet cls tid uri dat owner og)"
  by (auto simp: packet_wf_def outgoing_packet_def class_wf_def opt_len_ok_def ClassId_eq_iff split: option.splits)

lemma outgoing_packet_items: "packet_items (outgoing_packet cls tid uri dat owner og) = [((tid, uri), dat)]"
  by (cases uri; cases dat) (simp_all add: packet_items_def outgoing_packet_def zip_tokens_spec zip_spec_def)

text \<open>The other host decodes what a delivery sent: one token of the collection's class.\<close>

lemma sent_packet_decodes:
  assumes "execute h env info (ReceiveNft m) s = (Ok r, t)"
    and "class_of_contract (info_sender info) s = (Ok cls, s1)" and "class_wf cls"
    and "from_binary_outgoing h (crm_msg m) = Ok og" and "messages r = [submsg_new (Ibc msg)]"
    and "packet_codec h h'"
  obtains d uri where "query_nft_info h (info_sender info) (crm_token_id m) = Ok (UniversalNftInfoResponse uri ())"
    "from_binary_packet h' (sp_data msg) = Ok d" "packet_wf d" "class_id d = cls_id cls"
    "class_uri d = cls_uri cls" "class_data d = cls_data cls" "receiver d = og_receiver og"
    "packet_items d = [((TokenId (crm_token_id m), uri), stored_data s cls (TokenId (crm_token_id m)))]"
    "class_key_fits (cls_id cls)"
proof -
  let ?tid = "TokenId (crm_token_id m)"
  obtain uri owner bytes where uri: "query_nft_info h (info_sender info) (crm_token_id m) = Ok (UniversalNftInfoResponse uri ())"
    and enc: "to_binary_packet h (outgoing_packet cls ?tid uri (stored_data s cls ?tid) owner og) = Ok bytes"
    and r: "r = sent_response cls ?tid og bytes" and fit: "class_key_fits (cls_id cls)"
    using assms(1,2,4) by (auto simp: execute_Ok_iff execute_receive_nft_Ok_iff receive_nft_Ok_iff)
  have "sp_data msg = bytes" using assms(5) by (auto simp: r sent_response_def submsg_new_def)
  then have "from_binary_packet h' (sp_data msg) = Ok (outgoing_packet cls ?tid uri (stored_data s cls ?tid) owner og)"
    using assms(6) enc by (simp add: packet_codec_def)
  from that [OF uri this outgoing_packet_wf [OF assms(3)] _ _ _ _ outgoing_packet_items fit] show ?thesis
    by (simp add: outgoing_packet_def)
qed

lemma minted_present: "t \<in> set (map tok_id tokens) \<Longrightarrow> TOKEN_METADATA (minted cid tokens s) (cid, t) \<noteq> None"
proof -
  assume "t \<in> set (map tok_id tokens)"
  then have "map_of (rev (map (\<lambda>tok. ((cid, tok_id tok), tok_data tok)) tokens)) (cid, t) \<noteq> None"
    by (auto simp: map_of_eq_None_iff image_image)
  then show ?thesis unfolding minted_look by (auto split: option.splits)
qed

section \<open>Delivery of a voucher\<close>

text \<open>The three calls that complete a creation for a new class: create, the reply, mint.\<close>

lemma creation_completes:
  assumes "paused (PO s) = Some False" and "CLASS_ID_TO_NFT_CONTRACT s (cls_id (vc_class vc)) = None"
    and "CW721_CODE_ID s = Some code" and "execute_encoder h xenc" and "cw721_encoder h enc"
    and "to_binary_cw721_init h \<lparr>ci_name = class_id_str (cls_id (vc_class vc)),
      ci_symbol = class_id_str (cls_id (vc_class vc)), ci_minter = addr_str (env_contract env)\<rparr> = Ok init"
    and "reply_id rp = INSTANTIATE_CW721_REPLY_ID" and "parse_reply_instantiate_data h rp = Ok (addr_str v)"
    and "addr_validate h (addr_str v) = Ok v"
    and "query_contract_info h v = Ok (class_id_str (cls_id (vc_class vc)), symbol)"
    and "addr_validate h recv = Ok a" and "class_key_fits (cls_id (vc_class vc))"
  defines "cid \<equiv> cls_id (vc_class vc)" and "self \<equiv> \<lparr>info_sender = env_contract env\<rparr>"
  defines "s2 \<equiv> contract_class_save v cid (class_contract_save cid v (class_save cid (vc_class vc) s))"
  shows "\<exists>r2 r3 r4 s1.
    execute h env self (Callback (CreateVouchers recv vc)) s = (Ok r2, s1) \<and>
    reply h rp s1 = (Ok r3, s2) \<and>
    execute h env self (Callback (CallbackMint cid recv (vc_tokens vc))) s2 = (Ok r4, minted cid (vc_tokens vc) s2) \<and>
    messages r4 = map (\<lambda>tok. cw721_call enc v (Mint (token_id_str (tok_id tok)) (addr_str a) (tok_uri tok))) (vc_tokens vc)"
proof -
  have "\<exists>r2. execute h env self (Callback (CreateVouchers recv vc)) s = (Ok r2, class_save cid (vc_class vc) s)"
    using assms(1-6)
    by (auto simp: execute_Ok_iff execute_callback_Ok_iff callback_create_vouchers_Ok_iff self_def cid_def
        mint_call_def voucher_collection_def execute_encoder_def)
  moreover have "\<exists>r3. reply h rp (class_save cid (vc_class vc) s) = (Ok r3, s2)"
    using assms(7-10) by (auto simp: reply_def reply_cw721_Ok_iff s2_def cid_def)
  moreover have "PO s2 = PO s" "CLASS_ID_TO_NFT_CONTRACT s2 cid = Some v"
    by (simp_all add: s2_def store_eqs)
  moreover have "list_all2 (\<lambda>x y. mint_msg h v a x = Ok y) (vc_tokens vc)
      (map (\<lambda>tok. WasmExecute (addr_str v) (enc (Mint (token_id_str (tok_id tok)) (addr_str a) (tok_uri tok)))) (vc_tokens vc))"
    using assms(5) by (simp add: list_all2_conv_all_nth mint_msg_def cw721_encoder_def)
  ultimately show ?thesis
    using assms(1,11,12)
    by (fastforce simp: cid_def execute_Ok_iff execute_callback_Ok_iff callback_mint_Ok_iff self_def cw721_call_def)
qed

section \<open>A sample transfer\<close>

definition sample_og :: IbcOutgoingMsg where
  "sample_og = \<lparr>og_receiver = ''bob'', og_channel_id = ''channel-0'', og_timeout = sample_timeout, og_memo = None\<rparr>"

text \<open>A host that encodes the packets of a table, and decodes them.\<close>

definition sample_sent_data :: "Class \<Rightarrow> NonFungibleTokenPacketData" where
  "sample_sent_data cls = outgoing_packet cls (TokenId ''1'') None None (Addr ''alice'') sample_og"

definition voucher_sample_class :: Class where
  "voucher_sample_class = \<lparr>cls_id = ClassId ''wasm.b/channel-0/nft'', cls_uri = None, cls_data = None\<rparr>"

definition codec_host :: host where
  "codec_host = outgoing_host\<lparr>
     from_binary_outgoing := (\<lambda>_. Ok sample_og),
     to_binary_packet := (\<lambda>d.
       if d = sample_sent_data (fresh_class (Addr ''nft'')) then Ok ''packet''
       else if d = sample_sent_data voucher_sample_class then Ok ''back''
       else Err (SerializeErr ''packet'' ''not in the table'')),
     from_binary_packet := (\<lambda>b.
       if b = ''packet'' then Ok (sample_sent_data (fresh_class (Addr ''nft'')))
       else if b = ''back'' then Ok (sample_sent_data voucher_sample_class)
       else Err (ParseErr ''packet'' ''not in the table''))\<rparr>"

lemma sample_codec: "packet_codec codec_host codec_host"
  by (auto simp: packet_codec_def codec_host_def split: if_splits)

lemma codec_send:
  "execute codec_host sample_env \<lparr>info_sender = Addr ''nft''\<rparr>
     (ReceiveNft \<lparr>crm_sender = ''alice'', crm_token_id = ''1'', crm_msg = []\<rparr>) sample_init =
     (Ok (sent_response (fresh_class (Addr ''nft'')) (TokenId ''1'') sample_og ''packet''), sample_locked)"
proof -
  have "receive_nft codec_host \<lparr>info_sender = Addr ''nft''\<rparr> (TokenId ''1'') ''alice'' [] sample_init =
      (Ok (sent_response (fresh_class (Addr ''nft'')) (TokenId ''1'') sample_og ''packet''), sample_locked)"
    unfolding receive_nft_Ok_iff
    by (simp add: sample_class codec_host_def outgoing_host_def sample_locked_def store_eqs stored_data_def
        sample_sent_data_def) (simp add: sample_init_def empty_bridge_def sample_og_def fresh_class_def class_key_fits_def)
  then show ?thesis
    by (simp add: execute_Ok_iff execute_receive_nft_Ok_iff) (simp add: sample_init_def)
qed

lemma codec_sent:
  "messages (sent_response cls tid sample_og bytes) =
     [submsg_new (Ibc (SendPacket ''channel-0'' bytes sample_timeout))]"
  by (simp add: sent_response_def sample_og_def)

text \<open>The two sides before the voucher goes back: one holds the collection of vouchers, for the other the
  original is away.\<close>

definition sample_holding :: Bridge where
  "sample_holding = sample_init\<lparr>
     NFT_CONTRACT_TO_CLASS_ID := [Addr ''v721'' \<mapsto> ClassId ''wasm.b/channel-0/nft''],
     CLASS_ID_TO_CLASS := [ClassId ''wasm.b/channel-0/nft'' \<mapsto> voucher_sample_class]\<rparr>"

definition sample_away :: Bridge where
  "sample_away = sample_init\<lparr>OUTGOING_CLASS_TOKEN_TO_CHANNEL := [(ClassId ''nft'', TokenId ''1'') \<mapsto> ''channel-7'']\<rparr>"

lemma codec_send_back:
  "execute codec_host sample_env \<lparr>info_sender = Addr ''v721''\<rparr>
     (ReceiveNft \<lparr>crm_sender = ''alice'', crm_token_id = ''1'', crm_msg = []\<rparr>) sample_holding =
     (Ok (sent_response voucher_sample_class (TokenId ''1'') sample_og ''back''),
      outgoing_save (cls_id voucher_sample_class, TokenId ''1'') ''channel-0'' sample_holding)"
proof -
  have cot: "class_of_contract (Addr ''v721'') sample_holding = (Ok voucher_sample_class, sample_holding)"
    by (simp add: class_of_contract_run sample_holding_def)
  have "stored_data sample_holding voucher_sample_class (TokenId ''1'') = None"
    by (simp add: stored_data_def sample_holding_def sample_init_def empty_bridge_def)
  moreover have "sample_sent_data voucher_sample_class \<noteq> sample_sent_data (fresh_class (Addr ''nft''))"
    by (simp add: sample_sent_data_def outgoing_packet_def voucher_sample_class_def fresh_class_def)
  ultimately have "receive_nft codec_host \<lparr>info_sender = Addr ''v721''\<rparr> (TokenId ''1'') ''alice'' [] sample_holding =
      (Ok (sent_response voucher_sample_class (TokenId ''1'') sample_og ''back''),
       outgoing_save (cls_id voucher_sample_class, TokenId ''1'') ''channel-0'' sample_holding)"
    unfolding receive_nft_Ok_iff
    by (simp add: cot codec_host_def outgoing_host_def flip: sample_sent_data_def)
      (simp add: sample_og_def class_key_fits_def voucher_sample_class_def)
  then show ?thesis
    by (simp add: execute_Ok_iff execute_receive_nft_Ok_iff) (simp add: sample_holding_def sample_init_def)
qed

section \<open>Properties\<close>

text \<open>C11: A token that one bridge sends becomes a voucher on the other that carries it faithfully. The
  packet a delivery makes is accepted at the other end of the channel, and when the sender's class
  is not one that left from the receiving side, exactly one voucher is created: of the sender's
  class prefixed with the receiving port and channel, with the same class and token metadata, for
  the receiver the message named. (The prefixed class identifier is short enough for a storage key.)\<close>

theorem voucher_carries_token:
  assumes "execute hA envA infoA (ReceiveNft m) a = (Ok rA, a')"
    and "class_of_contract (info_sender infoA) a = (Ok cls, a1)" and "class_wf cls"
    and "from_binary_outgoing hA (crm_msg m) = Ok og"
    and "query_nft_info hA (info_sender infoA) (crm_token_id m) = Ok (UniversalNftInfoResponse uri ())"
    and "messages rA = [submsg_new (Ibc msg)]"
    and "packet_codec hA hB" and "execute_encoder hB enc" and "paused (PO b) = Some False"
    and "addr_validate hB (og_receiver og) = Ok recv"
    and "try_pop_source_prefix eA (class_id_str (cls_id cls)) = None"
    and token: "token = \<lparr>tok_id = TokenId (crm_token_id m), tok_uri = uri,
      tok_data = Option.bind (TOKEN_METADATA a (cls_id cls, TokenId (crm_token_id m))) (\<lambda>v. v)\<rparr>"
    and voucher: "voucher = \<lparr>cls_id = ClassId (get_endpoint_prefix eB @ class_id_str (cls_id cls)),
      cls_uri = cls_uri cls, cls_data = cls_data cls\<rparr>"
    and fits: "class_key_fits (cls_id voucher)"
  shows "\<exists>rB. ibc_packet_receive hB envB (transit eA eB n msg) b =
      (Ok rB :: (ContractError, IbcReceiveResponse) outcome, b\<lparr>INCOMING_CLASS_TOKEN_TO_CHANNEL :=
         (INCOMING_CLASS_TOKEN_TO_CHANNEL b)((cls_id voucher, tok_id token) \<mapsto> channel_id eB)\<rparr>) \<and>
    recv_messages rB =
      [reply_always (self_call enc (env_contract envB)
         (CreateVouchers (addr_str recv) \<lparr>vc_class = voucher, vc_tokens = [token]\<rparr>)) ACK_AND_DO_NOTHING]"
proof -
  let ?p = "transit eA eB n msg"
  obtain d where dec: "from_binary_packet hB (pkt_data ?p) = Ok d" and wf: "packet_wf d"
    and d: "class_id d = cls_id cls" "class_uri d = cls_uri cls" "class_data d = cls_data cls"
      "receiver d = og_receiver og" "packet_items d = [((tok_id token, tok_uri token), tok_data token)]"
    using sent_packet_decodes [OF assms(1-4,6,7)] assms(5) by (auto simp: token stored_data_def)
  have none: "\<not> returning b (packet_local ?p d) (channel_id (dest ?p)) t" for t
    using assms(11) by (simp add: packet_local_def d returning_def)
  have recv: "addr_validate hB (receiver d) = Ok recv" using assms(10) by (simp add: d)
  have fit: "keys_fit b ?p d" using fits by (intro keys_fitI) (simp add: voucher voucher_class_def d)
  note run = ibc_packet_receive_accept [OF receive_ibc_packet_run [OF assms(9) dec wf recv assms(8) fit]]
  have "packet_redemption b ?p d = None" "packet_creation b ?p d = Some \<lparr>vc_class = voucher, vc_tokens = [token]\<rparr>"
    by (simp_all add: packet_redemption_def redemption_for_def packet_creation_def creation_for_def
        created_all [OF none] d item_token_def voucher_class_def voucher)
  moreover have "received ?p d b = b\<lparr>INCOMING_CLASS_TOKEN_TO_CHANNEL :=
      (INCOMING_CLASS_TOKEN_TO_CHANNEL b)((cls_id voucher, tok_id token) \<mapsto> channel_id eB)\<rparr>"
    by (simp add: received_def moved_def created_all [OF none] d voucher_class_def voucher fun_upd_def)
  ultimately show ?thesis by (simp add: run receive_submessage_def callback_for_def)
qed

theorem voucher_carries_token_witness:
  "\<exists>rB b'. ibc_packet_receive codec_host sample_env (transit sample_src sample_dest 1
      (SendPacket ''channel-0'' ''packet'' sample_timeout)) sample_init =
      (Ok rB :: (ContractError, IbcReceiveResponse) outcome, b') \<and>
    INCOMING_CLASS_TOKEN_TO_CHANNEL b' (ClassId ''wasm.b/channel-0/nft'', TokenId ''1'') = Some ''channel-0''"
proof -
  let ?m = "\<lparr>crm_sender = ''alice'', crm_token_id = ''1'', crm_msg = []\<rparr>"
  let ?msg = "SendPacket ''channel-0'' ''packet'' sample_timeout"
  have prem: "class_wf (fresh_class (Addr ''nft''))" "from_binary_outgoing codec_host (crm_msg ?m) = Ok sample_og"
    "query_nft_info codec_host (info_sender \<lparr>info_sender = Addr ''nft''\<rparr>) (crm_token_id ?m) = Ok (UniversalNftInfoResponse None ())"
    "execute_encoder codec_host code_execute" "paused (PO sample_init) = Some False"
    "addr_validate codec_host (og_receiver sample_og) = Ok (Addr ''bob'')"
    "try_pop_source_prefix sample_src (class_id_str (cls_id (fresh_class (Addr ''nft'')))) = None"
    by (simp_all add: class_wf_def fresh_class_def codec_host_def outgoing_host_def sample_og_def execute_encoder_def
        sample_init_def try_pop_source_prefix_def get_endpoint_prefix_def sample_src_def)
  let ?v = "\<lparr>cls_id = ClassId (get_endpoint_prefix sample_dest @ class_id_str (cls_id (fresh_class (Addr ''nft'')))),
      cls_uri = cls_uri (fresh_class (Addr ''nft'')), cls_data = cls_data (fresh_class (Addr ''nft''))\<rparr>"
  have fits: "class_key_fits (cls_id ?v)"
    by (simp add: class_key_fits_def get_endpoint_prefix_def sample_dest_def fresh_class_def)
  have cot: "class_of_contract (info_sender \<lparr>info_sender = Addr ''nft''\<rparr>) sample_init =
      (Ok (fresh_class (Addr ''nft'')), with_class (Addr ''nft'') sample_init)"
    by (simp add: sample_class)
  show ?thesis
    using voucher_carries_token [OF codec_send cot prem(1-3) codec_sent sample_codec prem(4-7) refl refl fits,
        of sample_env 1]
    by (auto simp: fresh_class_def sample_dest_def get_endpoint_prefix_def)
qed

text \<open>C12: The receiving side completes the creation of a new class: packet receipt, the creation callback,
  the reply of the new collection and the mint callback all succeed one after the other; afterwards
  the class and the new collection are registered for each other, the class metadata is stored, every
  token of the packet is recorded as come in on the channel and has its metadata stored, and exactly
  one voucher per token, in order, is minted to the receiver in the new collection. (The class
  identifier is short enough for a storage key.)\<close>

theorem voucher_delivery_completes:
  assumes "paused (PO s) = Some False" and "from_binary_packet h (pkt_data p) = Ok d" and "packet_wf d"
    and "addr_validate h (receiver d) = Ok recv" and "addr_validate h (addr_str recv) = Ok recv"
    and "execute_encoder h xenc" and "cw721_encoder h enc"
    and "try_pop_source_prefix (src p) (class_id_str (class_id d)) = None"
    and "CLASS_ID_TO_NFT_CONTRACT s (voucher_class p d) = None" and "CW721_CODE_ID s = Some code"
    and "to_binary_cw721_init h \<lparr>ci_name = class_id_str (voucher_class p d),
      ci_symbol = class_id_str (voucher_class p d), ci_minter = addr_str (env_contract env)\<rparr> = Ok init"
    and "reply_id rp = INSTANTIATE_CW721_REPLY_ID" and "parse_reply_instantiate_data h rp = Ok (addr_str v)"
    and "addr_validate h (addr_str v) = Ok v"
    and "query_contract_info h v = Ok (class_id_str (voucher_class p d), symbol)"
    and self: "self = \<lparr>info_sender = env_contract env\<rparr>"
    and cls: "cls = \<lparr>cls_id = voucher_class p d, cls_uri = class_uri d, cls_data = class_data d\<rparr>"
    and tokens: "tokens = map item_token (zip_tokens (token_ids d) (token_uris d) (token_data d))"
    and fits: "class_key_fits (voucher_class p d)"
  shows "\<exists>r1 r2 r3 r4 s1 s2 s3 s4.
    ibc_packet_receive h env p s = (Ok r1 :: (ContractError, IbcReceiveResponse) outcome, s1) \<and>
    execute h env self (Callback (CreateVouchers (addr_str recv) \<lparr>vc_class = cls, vc_tokens = tokens\<rparr>)) s1 = (Ok r2, s2) \<and>
    reply h rp s2 = (Ok r3, s3) \<and>
    execute h env self (Callback (CallbackMint (cls_id cls) (addr_str recv) tokens)) s3 = (Ok r4, s4) \<and>
    messages r4 = map (\<lambda>tok. cw721_call enc v (Mint (token_id_str (tok_id tok)) (addr_str recv) (tok_uri tok))) tokens \<and>
    NFT_CONTRACT_TO_CLASS_ID s4 v = Some (cls_id cls) \<and> CLASS_ID_TO_NFT_CONTRACT s4 (cls_id cls) = Some v \<and>
    CLASS_ID_TO_CLASS s4 (cls_id cls) = Some cls \<and>
    (\<forall>t \<in> set (token_ids d). INCOMING_CLASS_TOKEN_TO_CHANNEL s4 (cls_id cls, t) = Some (channel_id (dest p)) \<and>
       TOKEN_METADATA s4 (cls_id cls, t) \<noteq> None)"
proof -
  let ?vc = "\<lparr>vc_class = cls, vc_tokens = tokens\<rparr>" and ?s1 = "received p d s"
  have none: "\<not> returning s (packet_local p d) (channel_id (dest p)) t" for t
    using assms(8) by (simp add: packet_local_def returning_def)
  have s1: "?s1 = s\<lparr>INCOMING_CLASS_TOKEN_TO_CHANNEL :=
      (\<lambda>k. if k \<in> Pair (voucher_class p d) ` set (token_ids d) then Some (channel_id (dest p))
           else INCOMING_CLASS_TOKEN_TO_CHANNEL s k)\<rparr>"
    using map_fst_zip_packet [OF assms(3)] by (simp add: received_def moved_def created_all [OF none])
  have ids: "map tok_id tokens = token_ids d"
    using map_fst_zip_packet [OF assms(3)] by (simp add: tokens item_token_def packet_items_def comp_def)
  have cid: "cls_id cls = voucher_class p d" by (simp add: cls)
  note recv = ibc_packet_receive_accept [OF receive_ibc_packet_run [OF assms(1-4,6) keys_fitI [OF fits]], of env]
  have pre: "paused (PO ?s1) = Some False" "CLASS_ID_TO_NFT_CONTRACT ?s1 (cls_id (vc_class ?vc)) = None"
    "CW721_CODE_ID ?s1 = Some code"
    using assms(1,9,10) by (simp_all add: s1 cid)
  obtain r2 r3 r4 s2 where
    calls: "execute h env self (Callback (CreateVouchers (addr_str recv) ?vc)) ?s1 = (Ok r2, s2)"
      "reply h rp s2 = (Ok r3, contract_class_save v (cls_id cls) (class_contract_save (cls_id cls) v (class_save (cls_id cls) cls ?s1)))"
      "execute h env self (Callback (CallbackMint (cls_id cls) (addr_str recv) tokens))
         (contract_class_save v (cls_id cls) (class_contract_save (cls_id cls) v (class_save (cls_id cls) cls ?s1))) =
         (Ok r4, minted (cls_id cls) tokens
           (contract_class_save v (cls_id cls) (class_contract_save (cls_id cls) v (class_save (cls_id cls) cls ?s1))))"
      "messages r4 = map (\<lambda>tok. cw721_call enc v (Mint (token_id_str (tok_id tok)) (addr_str recv) (tok_uri tok))) tokens"
    using creation_completes [OF pre assms(6,7), of env init rp v symbol "addr_str recv" recv] assms(5,11-15) fits
    by (auto simp: self cid)
  let ?s3 = "contract_class_save v (cls_id cls) (class_contract_save (cls_id cls) v (class_save (cls_id cls) cls ?s1))"
  let ?s4 = "minted (cls_id cls) tokens ?s3"
  have maps: "NFT_CONTRACT_TO_CLASS_ID ?s4 v = Some (cls_id cls)" "CLASS_ID_TO_NFT_CONTRACT ?s4 (cls_id cls) = Some v"
    "CLASS_ID_TO_CLASS ?s4 (cls_id cls) = Some cls"
    by (subst minted_frame, simp add: store_eqs)+
  have "INCOMING_CLASS_TOKEN_TO_CHANNEL ?s4 (cls_id cls, t) = Some (channel_id (dest p))" if "t \<in> set (token_ids d)" for t
    using that by (subst minted_frame) (simp add: store_eqs s1 cid)
  moreover have "TOKEN_METADATA ?s4 (cls_id cls, t) \<noteq> None" if "t \<in> set (token_ids d)" for t
    using that unfolding ids [symmetric] by (rule minted_present)
  ultimately show ?thesis using recv calls maps by blast
qed

theorem voucher_delivery_completes_witness:
  "\<exists>r s1. ibc_packet_receive
      (packet_host (sample_data ''kids'' [''1''])\<lparr>query_contract_info := (\<lambda>_. Ok (''wasm.b/channel-0/kids'', ''k''))\<rparr>)
      sample_env sample_packet sample_init = (Ok r :: (ContractError, IbcReceiveResponse) outcome, s1)"
proof -
  let ?d = "sample_data ''kids'' [''1'']" and ?v = "Addr ''v721''"
  let ?h = "packet_host ?d\<lparr>query_contract_info := (\<lambda>_. Ok (''wasm.b/channel-0/kids'', ''k''))\<rparr>"
  let ?rp = "\<lparr>reply_id = INSTANTIATE_CW721_REPLY_ID, reply_result = SubMsgOk (Some ''v721'')\<rparr>"
  have cid: "voucher_class sample_packet ?d = ClassId ''wasm.b/channel-0/kids''"
    by (simp add: voucher_class_def get_endpoint_prefix_def sample_defs)
  have prem: "paused (PO sample_init) = Some False" "from_binary_packet ?h (pkt_data sample_packet) = Ok ?d"
    "packet_wf ?d" "addr_validate ?h (receiver ?d) = Ok (Addr ''bob'')"
    "addr_validate ?h (addr_str (Addr ''bob'')) = Ok (Addr ''bob'')"
    "execute_encoder ?h code_execute" "cw721_encoder ?h code_cw721"
    "try_pop_source_prefix (src sample_packet) (class_id_str (class_id ?d)) = None"
    "CLASS_ID_TO_NFT_CONTRACT sample_init (voucher_class sample_packet ?d) = None"
    "CW721_CODE_ID sample_init = Some 5"
    "to_binary_cw721_init ?h \<lparr>ci_name = class_id_str (voucher_class sample_packet ?d),
      ci_symbol = class_id_str (voucher_class sample_packet ?d), ci_minter = addr_str (env_contract sample_env)\<rparr> =
      Ok ''wasm.b/channel-0/kids''"
    "reply_id ?rp = INSTANTIATE_CW721_REPLY_ID" "parse_reply_instantiate_data ?h ?rp = Ok (addr_str ?v)"
    "addr_validate ?h (addr_str ?v) = Ok ?v"
    "query_contract_info ?h ?v = Ok (class_id_str (voucher_class sample_packet ?d), ''k'')"
    unfolding cid
    by (simp_all add: sample_init_def sample_defs packet_wf_def opt_len_ok_def execute_encoder_def cw721_encoder_def
        try_pop_source_prefix_def get_endpoint_prefix_def) (simp add: sample_host_def)
  have "class_key_fits (voucher_class sample_packet ?d)" by (simp add: cid class_key_fits_def)
  then show ?thesis
    using voucher_delivery_completes [OF prem refl refl refl] by blast
qed

text \<open>C5: A round trip restores the original. When a voucher of a class that was received on a channel is
  sent back on the same channel, and the original token is still recorded as away on it, the
  first bridge redeems exactly the original: the prefix is stripped to the original class, the only
  action is the redemption of this token for the named receiver, no voucher is made, and the token is
  no longer recorded as away.\<close>

theorem round_trip_redeems_original:
  assumes "execute hB envB infoB (ReceiveNft m) b = (Ok rB, b')"
    and "class_of_contract (info_sender infoB) b = (Ok cls, b1)" and "class_wf cls"
    and "cls_id cls = ClassId (get_endpoint_prefix eB @ c)"
    and "from_binary_outgoing hB (crm_msg m) = Ok og" and "messages rB = [submsg_new (Ibc msg)]"
    and "packet_codec hB hA" and "execute_encoder hA enc" and "paused (PO a) = Some False"
    and "addr_validate hA (og_receiver og) = Ok recv"
    and "OUTGOING_CLASS_TOKEN_TO_CHANNEL a (ClassId c, TokenId (crm_token_id m)) = Some (channel_id eA)"
  shows "\<exists>rA. ibc_packet_receive hA envA (transit eB eA n msg) a =
      (Ok rA :: (ContractError, IbcReceiveResponse) outcome, a\<lparr>OUTGOING_CLASS_TOKEN_TO_CHANNEL :=
         (OUTGOING_CLASS_TOKEN_TO_CHANNEL a)((ClassId c, TokenId (crm_token_id m)) := None)\<rparr>) \<and>
    recv_messages rA =
      [reply_always (self_call enc (env_contract envA)
         (RedeemVouchers (addr_str recv)
           \<lparr>vr_class = \<lparr>cls_id = ClassId c, cls_uri = cls_uri cls, cls_data = cls_data cls\<rparr>,
            vr_token_ids = [TokenId (crm_token_id m)]\<rparr>)) ACK_AND_DO_NOTHING]"
proof -
  let ?tid = "TokenId (crm_token_id m)" and ?p = "transit eB eA n msg"
  obtain d uri where dec: "from_binary_packet hA (pkt_data ?p) = Ok d" and wf: "packet_wf d"
    and d: "class_id d = cls_id cls" "class_uri d = cls_uri cls" "class_data d = cls_data cls"
      "receiver d = og_receiver og" "packet_items d = [((?tid, uri), stored_data b cls ?tid)]" "class_key_fits (cls_id cls)"
    unfolding transit_simps by (rule sent_packet_decodes [OF assms(1-3,5-7)])
  have loc: "packet_local ?p d = Some c" by (simp add: packet_local_def d assms(4))
  have "returning a (Some c) (channel_id eA) ?tid" using assms(11) by (simp add: returning_def)
  then have split: "redeemed_tokens a ?p d = [?tid]" "created_items a ?p d = []"
    by (simp_all add: redeemed_tokens_def created_items_def loc d Let_def)
  have recv: "addr_validate hA (receiver d) = Ok recv" using assms(10) by (simp add: d)
  have fit: "keys_fit a ?p d"
    using d(6) by (simp add: keys_fit_iff split loc local_class_def assms(4) class_key_fits_def)
  note run = ibc_packet_receive_accept [OF receive_ibc_packet_run [OF assms(9) dec wf recv assms(8) fit]]
  have "packet_redemption a ?p d = Some \<lparr>vr_class = \<lparr>cls_id = ClassId c, cls_uri = cls_uri cls, cls_data = cls_data cls\<rparr>,
      vr_token_ids = [?tid]\<rparr>" "packet_creation a ?p d = None"
    by (simp_all add: packet_redemption_def redemption_for_def packet_creation_def creation_for_def split loc
        local_class_def d)
  moreover have "received ?p d a = a\<lparr>OUTGOING_CLASS_TOKEN_TO_CHANNEL :=
      (OUTGOING_CLASS_TOKEN_TO_CHANNEL a)((ClassId c, ?tid) := None)\<rparr>"
    by (simp add: received_def moved_def split loc local_class_def fun_upd_def)
  ultimately show ?thesis by (simp add: run receive_submessage_def callback_for_def)
qed

theorem round_trip_redeems_original_witness:
  "\<exists>rA a'. ibc_packet_receive codec_host sample_env (transit sample_dest sample_src 1
      (SendPacket ''channel-0'' ''back'' sample_timeout)) sample_away =
      (Ok rA :: (ContractError, IbcReceiveResponse) outcome, a') \<and>
    OUTGOING_CLASS_TOKEN_TO_CHANNEL a' (ClassId ''nft'', TokenId ''1'') = None"
proof -
  let ?m = "\<lparr>crm_sender = ''alice'', crm_token_id = ''1'', crm_msg = []\<rparr>"
  have cot: "class_of_contract (info_sender \<lparr>info_sender = Addr ''v721''\<rparr>) sample_holding =
      (Ok voucher_sample_class, sample_holding)"
    by (simp add: class_of_contract_run sample_holding_def)
  have prem: "class_wf voucher_sample_class"
    "cls_id voucher_sample_class = ClassId (get_endpoint_prefix sample_dest @ ''nft'')"
    "from_binary_outgoing codec_host (crm_msg ?m) = Ok sample_og"
    "execute_encoder codec_host code_execute" "paused (PO sample_away) = Some False"
    "addr_validate codec_host (og_receiver sample_og) = Ok (Addr ''bob'')"
    "OUTGOING_CLASS_TOKEN_TO_CHANNEL sample_away (ClassId ''nft'', TokenId (crm_token_id ?m)) = Some (channel_id sample_src)"
    by (simp_all add: class_wf_def voucher_sample_class_def get_endpoint_prefix_def sample_dest_def codec_host_def
        outgoing_host_def execute_encoder_def sample_away_def sample_init_def sample_og_def sample_src_def)
  show ?thesis
    using round_trip_redeems_original [OF codec_send_back cot prem(1-3) codec_sent sample_codec prem(4-7),
        of sample_env 1]
    by auto
qed

end
