(* ===== verification/Bridge_Chain.thy ===== *)
theory Bridge_Chain
  imports Bridge_Transfer
begin

text \<open>
  A bridge on its chain: the contract together with the cw721 collections it talks to. The chain
  runs the messages of a response depth first, gives the reply of a submessage to the contract, and
  rolls a failed submessage back. The collections are not part of the repository: what they do with
  a message is a parameter of the model. Proved: what a whole packet transaction, acknowledgement
  transaction or timeout transaction does to the contract's maps and to the owners of NFTs.
\<close>

section \<open>The chain\<close>

text \<open>
  The encodings all hosts of a chain share, the owner of a token of a collection, what a collection
  does with a message of a sender (nothing when it refuses it), and the birth of a collection.
\<close>

record 'w chain_model =
  xenc :: "ExecuteMsg \<Rightarrow> binary"
  cenc :: "Cw721ExecuteMsg \<Rightarrow> binary"
  ienc :: "Cw721InstantiateMsg \<Rightarrow> binary"
  pdec :: "binary \<Rightarrow> (StdError, NonFungibleTokenPacketData) outcome"
  adec :: "binary \<Rightarrow> (StdError, Ics721Ack) outcome"
  owner_of :: "'w \<Rightarrow> addr \<Rightarrow> string \<Rightarrow> addr option"
  cw721_run :: "addr \<Rightarrow> addr \<Rightarrow> Cw721ExecuteMsg \<Rightarrow> 'w \<Rightarrow> 'w option"
  new_collection :: "addr \<Rightarrow> 'w \<Rightarrow> 'w option"

definition set_owner ::
  "addr \<Rightarrow> string \<Rightarrow> addr option \<Rightarrow> (addr \<Rightarrow> string \<Rightarrow> addr option) \<Rightarrow> addr \<Rightarrow> string \<Rightarrow> addr option" where
  "set_owner c t v f = (\<lambda>c' t'. if c' = c \<and> t' = t then v else f c' t')"

text \<open>
  What is relied on of the collections, as the cw721 standard documents it: a transfer or a burn
  needs an existing token and changes the owner of that token only; a mint needs an identifier
  that is not in use; a new collection is empty.
\<close>

definition collections_ok :: "'w chain_model \<Rightarrow> bool" where
  "collections_ok M \<longleftrightarrow>
     (\<forall>s c r t w w'. cw721_run M s c (TransferNft r t) w = Some w' \<longrightarrow>
        owner_of M w c t \<noteq> None \<and> owner_of M w' = set_owner c t (Some (Addr r)) (owner_of M w)) \<and>
     (\<forall>s c t r u w w'. cw721_run M s c (Mint t r u) w = Some w' \<longrightarrow>
        owner_of M w c t = None \<and> owner_of M w' = set_owner c t (Some (Addr r)) (owner_of M w)) \<and>
     (\<forall>s c t w w'. cw721_run M s c (Burn t) w = Some w' \<longrightarrow>
        owner_of M w c t \<noteq> None \<and> owner_of M w' = set_owner c t None (owner_of M w)) \<and>
     (\<forall>a w w'. new_collection M a w = Some w' \<longrightarrow>
        (\<forall>t. owner_of M w a t = None) \<and> owner_of M w' = owner_of M w)"

text \<open>Encodings determine what was encoded, and a callback never looks like a cw721 message.\<close>

definition chain_ok :: "'w chain_model \<Rightarrow> bool" where
  "chain_ok M \<longleftrightarrow>
     collections_ok M \<and> inj (xenc M) \<and> inj (cenc M) \<and> inj (ienc M) \<and> (\<forall>m m'. xenc M m \<noteq> cenc M m')"

text \<open>The host of a call on this chain; queries may answer differently at every call.\<close>

definition chain_host :: "'w chain_model \<Rightarrow> host \<Rightarrow> bool" where
  "chain_host M h \<longleftrightarrow>
     execute_encoder h (xenc M) \<and> cw721_encoder h (cenc M) \<and> (\<forall>i. to_binary_cw721_init h i = Ok (ienc M i)) \<and>
     from_binary_packet h = pdec M \<and> (\<forall>d b. to_binary_packet h d = Ok b \<longrightarrow> pdec M b = Ok d) \<and>
     from_binary_ack h = adec M \<and> ack_codec_ok h \<and>
     (\<forall>s a. addr_validate h s = Ok a \<longrightarrow> a = Addr s \<and> real_addr a)"

lemma chain_host_ok: "chain_host M h \<Longrightarrow> host_ok h"
  unfolding chain_host_def host_ok_def by blast

section \<open>Running messages\<close>

text \<open>
  The messages of a response run in order, each with everything it sets off before the next: a
  callback to the contract itself, a message to a collection, or the instantiation of a collection
  with its reply. If a message fails, nothing is derived: the whole tree has failed.
\<close>

inductive dispatch :: "'w chain_model \<Rightarrow> addr \<Rightarrow> SubMsg list \<Rightarrow> Bridge \<times> 'w \<Rightarrow> Bridge \<times> 'w \<Rightarrow> bool"
  for M :: "'w chain_model" and self :: addr where
  dispatch_done: "dispatch M self [] z z"
| dispatch_self:
  "chain_host M h \<Longrightarrow> env_contract env = self \<Longrightarrow>
   execute h env \<lparr>info_sender = self\<rparr> (Callback m) b = (Ok resp, b1) \<Longrightarrow>
   dispatch M self (messages resp @ ms) (b1, w) z \<Longrightarrow>
   dispatch M self (submsg_new (Wasm (self_call (xenc M) self m)) # ms) (b, w) z"
| dispatch_cw721:
  "cw721_run M self c m w = Some w1 \<Longrightarrow> dispatch M self ms (b, w1) z \<Longrightarrow>
   dispatch M self (cw721_call (cenc M) c m # ms) (b, w) z"
| dispatch_new:
  "chain_host M h \<Longrightarrow> new_collection M a w = Some w1 \<Longrightarrow> NFT_CONTRACT_TO_CLASS_ID b a = None \<Longrightarrow>
   query_contract_info h a = Ok (ci_name i, symbol) \<Longrightarrow>
   reply_id rp = INSTANTIATE_CW721_REPLY_ID \<Longrightarrow> parse_reply_instantiate_data h rp = Ok (addr_str a) \<Longrightarrow>
   addr_validate h (addr_str a) = Ok a \<Longrightarrow> reply h rp b = (Ok resp, b1) \<Longrightarrow>
   dispatch M self (messages resp @ ms) (b1, w1) z \<Longrightarrow>
   dispatch M self
     (reply_on_success (WasmInstantiate admin code (ienc M i) label) INSTANTIATE_CW721_REPLY_ID # ms) (b, w) z"

inductive_cases dispatch_consE: "dispatch M self (m # ms) (b, w) z"

inductive_simps dispatch_nil_iff [simp]: "dispatch M self [] z z'"

lemma cw721_call_inj:
  assumes "chain_ok M"
  shows "cw721_call (cenc M) c m = cw721_call (cenc M) c' m' \<longleftrightarrow> c = c' \<and> m = m'"
    and "cw721_call (cenc M) c m \<noteq> submsg_new (Wasm (self_call (xenc M) self k))"
    and "submsg_new (Wasm (self_call (xenc M) self k)) = submsg_new (Wasm (self_call (xenc M) self k')) \<longleftrightarrow> k = k'"
  using assms
  by (auto simp: chain_ok_def cw721_call_def submsg_new_def self_call_def inj_eq eq_commute [of "cenc M _" "xenc M _"]
      intro: addr.expand)

lemma reply_on_success_other:
  "reply_on_success x i \<noteq> submsg_new y" "reply_on_success x i \<noteq> cw721_call e c m"
  by (simp_all add: reply_on_success_def submsg_new_def cw721_call_def)

lemma dispatch_cw721D:
  assumes "chain_ok M" and "dispatch M self (cw721_call (cenc M) c m # ms) (b, w) z"
  obtains w1 where "cw721_run M self c m w = Some w1" "dispatch M self ms (b, w1) z"
  using assms(2)
  by (rule dispatch_consE)
    (use that in \<open>auto simp: cw721_call_inj [OF assms(1)] cw721_call_inj(2) [OF assms(1), symmetric]
      reply_on_success_other reply_on_success_other [symmetric]\<close>)

lemma dispatch_selfD:
  assumes "chain_ok M" and "dispatch M self (submsg_new (Wasm (self_call (xenc M) self m)) # ms) (b, w) z"
  obtains h env resp b1 where "chain_host M h" "env_contract env = self"
    "execute h env \<lparr>info_sender = self\<rparr> (Callback m) b = (Ok resp, b1)"
    "dispatch M self (messages resp @ ms) (b1, w) z"
  using assms(2)
  by (rule dispatch_consE)
    (use that in \<open>auto simp: cw721_call_inj [OF assms(1)] cw721_call_inj(2) [OF assms(1), symmetric]
      reply_on_success_other reply_on_success_other [symmetric]\<close>)

lemma dispatch_newD:
  assumes "chain_ok M"
    and "dispatch M self (reply_on_success (WasmInstantiate admin code (ienc M i) label) INSTANTIATE_CW721_REPLY_ID # ms) (b, w) z"
  obtains h a w1 symbol rp resp b1 where "chain_host M h" "new_collection M a w = Some w1"
    "NFT_CONTRACT_TO_CLASS_ID b a = None" "query_contract_info h a = Ok (ci_name i, symbol)"
    "reply_id rp = INSTANTIATE_CW721_REPLY_ID" "parse_reply_instantiate_data h rp = Ok (addr_str a)"
    "addr_validate h (addr_str a) = Ok a" "reply h rp b = (Ok resp, b1)"
    "dispatch M self (messages resp @ ms) (b1, w1) z"
proof -
  have "ienc M i = ienc M j \<longleftrightarrow> i = j" for j using assms(1) by (auto simp: chain_ok_def inj_eq)
  with assms(2) that show thesis
    by (elim dispatch_consE) (auto simp: reply_on_success_def submsg_new_def cw721_call_def)
qed

section \<open>The effect of cw721 messages\<close>

definition give :: "addr \<Rightarrow> TokenId set \<Rightarrow> addr option \<Rightarrow> (addr \<Rightarrow> string \<Rightarrow> addr option) \<Rightarrow> addr \<Rightarrow> string \<Rightarrow> addr option" where
  "give c ts v f = (\<lambda>c' t'. if c' = c \<and> TokenId t' \<in> ts then v else f c' t')"

lemma give_simps [simp]:
  "give c {} v f = f"
  "give c ts v (set_owner c (token_id_str t) v f) = give c (insert t ts) v f"
  by (auto simp: give_def set_owner_def fun_eq_iff)

lemma collections_laws:
  assumes "chain_ok M"
  shows "cw721_run M s c (TransferNft r t) w = Some w' \<Longrightarrow>
      owner_of M w c t \<noteq> None \<and> owner_of M w' = set_owner c t (Some (Addr r)) (owner_of M w)"
    and "cw721_run M s c (Mint t r u) w = Some w' \<Longrightarrow>
      owner_of M w c t = None \<and> owner_of M w' = set_owner c t (Some (Addr r)) (owner_of M w)"
    and "cw721_run M s c (Burn t) w = Some w' \<Longrightarrow>
      owner_of M w c t \<noteq> None \<and> owner_of M w' = set_owner c t None (owner_of M w)"
    and "new_collection M a w = Some w' \<Longrightarrow> (\<forall>t. owner_of M w a t = None) \<and> owner_of M w' = owner_of M w"
  using assms unfolding chain_ok_def collections_ok_def by metis+

lemma dispatch_transfers:
  assumes "chain_ok M" and "dispatch M self (map (transfer_call (cenc M) c a) ts @ ms) (b, w) z"
  obtains w1 where "dispatch M self ms (b, w1) z" "owner_of M w1 = give c (set ts) (Some a) (owner_of M w)"
    "\<forall>t \<in> set ts. owner_of M w c (token_id_str t) \<noteq> None"
  using assms(2)
proof (induction ts arbitrary: w thesis)
  case (Cons t ts)
  have "dispatch M self (transfer_call (cenc M) c a t # map (transfer_call (cenc M) c a) ts @ ms) (b, w) z"
    using Cons.prems(2) by simp
  then obtain w1 where w1: "cw721_run M self c (TransferNft (addr_str a) (token_id_str t)) w = Some w1"
    "dispatch M self (map (transfer_call (cenc M) c a) ts @ ms) (b, w1) z"
    unfolding transfer_call_def [of _ _ _ t] by (rule dispatch_cw721D [OF assms(1)])
  from Cons.IH [OF _ w1(2)] obtain w2 where w2: "dispatch M self ms (b, w2) z"
    "owner_of M w2 = give c (set ts) (Some a) (owner_of M w1)"
    "\<forall>t \<in> set ts. owner_of M w1 c (token_id_str t) \<noteq> None" by blast
  note law = collections_laws(1) [OF assms(1) w1(1)]
  from w2(3) law have "\<forall>u \<in> set ts. owner_of M w c (token_id_str u) \<noteq> None"
    by (metis set_owner_def)
  with w2 law show ?case by (intro Cons.prems(1)) auto
qed simp

definition mint_calls :: "(Cw721ExecuteMsg \<Rightarrow> binary) \<Rightarrow> addr \<Rightarrow> addr \<Rightarrow> Token list \<Rightarrow> SubMsg list" where
  "mint_calls enc c a toks =
     map (\<lambda>tok. cw721_call enc c (Mint (token_id_str (tok_id tok)) (addr_str a) (tok_uri tok))) toks"

lemma dispatch_mints:
  assumes "chain_ok M" and "dispatch M self (mint_calls (cenc M) c a toks @ ms) (b, w) z"
  obtains w1 where "dispatch M self ms (b, w1) z"
    "owner_of M w1 = give c (tok_id ` set toks) (Some a) (owner_of M w)"
    "\<forall>t \<in> tok_id ` set toks. owner_of M w c (token_id_str t) = None"
  using assms(2)
proof (induction toks arbitrary: w thesis)
  case (Cons tok toks)
  then obtain w1 where
    w1: "cw721_run M self c (Mint (token_id_str (tok_id tok)) (addr_str a) (tok_uri tok)) w = Some w1"
      "dispatch M self (mint_calls (cenc M) c a toks @ ms) (b, w1) z"
    by (auto simp: mint_calls_def elim: dispatch_cw721D [OF assms(1)])
  from Cons.IH [OF _ w1(2)] obtain w2 where w2: "dispatch M self ms (b, w2) z"
    "owner_of M w2 = give c (tok_id ` set toks) (Some a) (owner_of M w1)"
    "\<forall>t \<in> tok_id ` set toks. owner_of M w1 c (token_id_str t) = None" by blast
  note law = collections_laws(2) [OF assms(1) w1(1)]
  from w2(3) law have "\<forall>t \<in> tok_id ` set toks. owner_of M w c (token_id_str t) = None"
    by (auto simp: set_owner_def split: if_splits)
  with w2 law show ?case by (intro Cons.prems(1)) auto
qed (simp add: mint_calls_def)

lemma dispatch_burns:
  assumes "chain_ok M"
    and "dispatch M self (map (\<lambda>t. cw721_call (cenc M) c (Burn (token_id_str t))) ts) (b, w) (b', w')"
  shows "b' = b \<and> owner_of M w' = give c (set ts) None (owner_of M w)"
  using assms(2)
proof (induction ts arbitrary: w)
  case (Cons t ts)
  then obtain w1 where w1: "cw721_run M self c (Burn (token_id_str t)) w = Some w1"
    "dispatch M self (map (\<lambda>t. cw721_call (cenc M) c (Burn (token_id_str t))) ts) (b, w1) (b', w')"
    by (auto elim: dispatch_cw721D [OF assms(1)])
  with Cons.IH [OF w1(2)] collections_laws(3) [OF assms(1) w1(1)] show ?case by auto
qed simp

section \<open>Callbacks on the chain\<close>

text \<open>Calls the chain makes, one after the other.\<close>

definition bridge_moves :: "Bridge \<Rightarrow> Bridge \<Rightarrow> bool" where
  "bridge_moves = (\<lambda>s t. \<exists>e. bridge_step s e t)\<^sup>*\<^sup>*"

lemma bridge_moves_refl [simp]: "bridge_moves s s"
  by (simp add: bridge_moves_def)

lemma bridge_moves_step: "bridge_step s e t \<Longrightarrow> bridge_moves s t"
  unfolding bridge_moves_def by blast

lemma bridge_moves_trans: "bridge_moves s t \<Longrightarrow> bridge_moves t u \<Longrightarrow> bridge_moves s u"
  unfolding bridge_moves_def by (rule rtranclp_trans)

lemma bridge_moves_inv: "bridge_moves s t \<Longrightarrow> bridge_inv s \<Longrightarrow> bridge_inv t"
  unfolding bridge_moves_def by (rule bridge_safe.inv_steps)

text \<open>A redemption hands the tokens over and leaves the contract's storage alone.\<close>

lemma dispatch_redeem:
  assumes "chain_ok M"
    and "dispatch M self (submsg_new (Wasm (self_call (xenc M) self (RedeemVouchers r vr))) # ms) (b, w) z"
  obtains c w1 where "CLASS_ID_TO_NFT_CONTRACT b (cls_id (vr_class vr)) = Some c"
    "owner_of M w1 = give c (set (vr_token_ids vr)) (Some (Addr r)) (owner_of M w)"
    "\<forall>t \<in> set (vr_token_ids vr). owner_of M w c (token_id_str t) \<noteq> None" "dispatch M self ms (b, w1) z"
proof -
  obtain h env resp b1 where h: "chain_host M h" and
    run: "execute h env \<lparr>info_sender = self\<rparr> (Callback (RedeemVouchers r vr)) b = (Ok resp, b1)" and
    rest: "dispatch M self (messages resp @ ms) (b1, w) z"
    by (rule dispatch_selfD [OF assms])
  from run obtain c a msgs where c: "CLASS_ID_TO_NFT_CONTRACT b (cls_id (vr_class vr)) = Some c"
    and a: "addr_validate h r = Ok a" and b1: "b1 = b"
    and all: "list_all2 (\<lambda>x y. transfer_msg h c a x = Ok y) (vr_token_ids vr) msgs"
    and resp: "messages resp = map (\<lambda>m. submsg_new (Wasm m)) msgs"
    by (auto simp: execute_Ok_iff execute_callback_Ok_iff callback_redeem_vouchers_Ok_iff)
  have enc: "cw721_encoder h (cenc M)" and "a = Addr r" using h a by (auto simp: chain_host_def)
  moreover have "messages resp = map (transfer_call (cenc M) c a) (vr_token_ids vr)"
    using all unfolding resp transfer_msg_Ok [OF enc]
    by (auto simp: list_all2_conv_all_nth transfer_call_def cw721_call_def intro!: nth_equalityI)
  ultimately show thesis
    using rest that c b1 by (auto elim!: dispatch_transfers [OF assms(1)])
qed

lemma dispatch_mint:
  assumes "chain_ok M" and "own_callback (CallbackMint cid r toks)"
    and "dispatch M self (submsg_new (Wasm (self_call (xenc M) self (CallbackMint cid r toks))) # ms) (b, w) z"
  obtains c w1 where "CLASS_ID_TO_NFT_CONTRACT b cid = Some c"
    "owner_of M w1 = give c (tok_id ` set toks) (Some (Addr r)) (owner_of M w)"
    "\<forall>t \<in> tok_id ` set toks. owner_of M w c (token_id_str t) = None"
    "bridge_moves b (minted cid toks b)" "dispatch M self ms (minted cid toks b, w1) z"
proof -
  obtain h env resp b1 where h: "chain_host M h" and
    run: "execute h env \<lparr>info_sender = self\<rparr> (Callback (CallbackMint cid r toks)) b = (Ok resp, b1)" and
    rest: "dispatch M self (messages resp @ ms) (b1, w) z"
    by (rule dispatch_selfD [OF assms(1,3)])
  from run obtain c a msgs where c: "CLASS_ID_TO_NFT_CONTRACT b cid = Some c"
    and a: "addr_validate h r = Ok a" and b1: "b1 = minted cid toks b"
    and all: "list_all2 (\<lambda>x y. mint_msg h c a x = Ok y) toks msgs"
    and resp: "messages resp = map (\<lambda>m. submsg_new (Wasm m)) msgs"
    by (auto simp: execute_Ok_iff execute_callback_Ok_iff callback_mint_Ok_iff)
  have enc: "cw721_encoder h (cenc M)" and "a = Addr r" using h a by (auto simp: chain_host_def)
  moreover have "messages resp = mint_calls (cenc M) c a toks"
    using all enc unfolding resp mint_calls_def
    by (auto simp: list_all2_conv_all_nth mint_msg_def cw721_encoder_def cw721_call_def intro!: nth_equalityI)
  moreover have "bridge_moves b b1"
    using step_callback [OF chain_host_ok [OF h] assms(2) run] by (auto intro: bridge_moves_step)
  ultimately show thesis
    using rest that c b1 by (auto elim!: dispatch_mints [OF assms(1)])
qed

lemma minted_maps:
  "CLASS_ID_TO_NFT_CONTRACT (minted cid toks b) = CLASS_ID_TO_NFT_CONTRACT b"
  "OUTGOING_CLASS_TOKEN_TO_CHANNEL (minted cid toks b) = OUTGOING_CLASS_TOKEN_TO_CHANNEL b"
  "INCOMING_CLASS_TOKEN_TO_CHANNEL (minted cid toks b) = INCOMING_CLASS_TOKEN_TO_CHANNEL b"
  by (subst minted_frame, simp)+

text \<open>A creation finds or founds the collection of the class and mints every token of it.\<close>

lemma create_response:
  assumes "chain_host M h" and "env_contract env = self"
    and "execute h env \<lparr>info_sender = self\<rparr> (Callback (CreateVouchers r vc)) b = (Ok resp, b0)"
  defines "cid \<equiv> cls_id (vc_class vc)"
  defines "mint \<equiv> submsg_new (Wasm (self_call (xenc M) self (CallbackMint cid r (vc_tokens vc))))"
  shows "b0 = class_save cid (vc_class vc) b"
    and "CLASS_ID_TO_NFT_CONTRACT b cid = Some c \<Longrightarrow> messages resp = [mint]"
    and "CLASS_ID_TO_NFT_CONTRACT b cid = None \<Longrightarrow> \<exists>code. messages resp = [reply_on_success (WasmInstantiate None code
        (ienc M \<lparr>ci_name = class_id_str cid, ci_symbol = class_id_str cid, ci_minter = addr_str self\<rparr>)
        ''ics-721 debt-voucher cw-721'') INSTANTIATE_CW721_REPLY_ID, mint]"
proof -
  have "mint_call h env r vc = Ok mint"
    using assms(1,2) by (simp add: chain_host_def execute_encoder_def mint_call_def self_call_def mint_def cid_def)
  with assms(1-3) show "b0 = class_save cid (vc_class vc) b"
    and "CLASS_ID_TO_NFT_CONTRACT b cid = Some c \<Longrightarrow> messages resp = [mint]"
    and "CLASS_ID_TO_NFT_CONTRACT b cid = None \<Longrightarrow> \<exists>code. messages resp = [reply_on_success (WasmInstantiate None code
        (ienc M \<lparr>ci_name = class_id_str cid, ci_symbol = class_id_str cid, ci_minter = addr_str self\<rparr>)
        ''ics-721 debt-voucher cw-721'') INSTANTIATE_CW721_REPLY_ID, mint]"
    by (auto simp: execute_Ok_iff execute_callback_Ok_iff callback_create_vouchers_Ok_iff voucher_collection_def
        chain_host_def cid_def)
qed

text \<open>The collection is registered by the reply to its instantiation.\<close>

lemma dispatch_found:
  assumes ok: "chain_ok M"
    and run: "dispatch M self (reply_on_success (WasmInstantiate adm code
        (ienc M \<lparr>ci_name = class_id_str cid, ci_symbol = sy, ci_minter = mi\<rparr>) label) INSTANTIATE_CW721_REPLY_ID # ms) (b0, w) z"
  obtains h a w0 symbol rp resp b2 where "chain_host M h" "new_collection M a w = Some w0"
    "NFT_CONTRACT_TO_CLASS_ID b0 a = None" "query_contract_info h a = Ok (class_id_str cid, symbol)"
    "reply_id rp = INSTANTIATE_CW721_REPLY_ID" "parse_reply_instantiate_data h rp = Ok (addr_str a)"
    "addr_validate h (addr_str a) = Ok a" "reply h rp b0 = (Ok resp, b2)"
    "b2 = contract_class_save a cid (class_contract_save cid a b0)" "dispatch M self ms (b2, w0) z"
proof (rule dispatch_newD [OF ok run], unfold Cw721InstantiateMsg.simps)
  fix h a w1 symbol rp resp b1
  assume all: "chain_host M h" "new_collection M a w = Some w1" "NFT_CONTRACT_TO_CLASS_ID b0 a = None"
    "query_contract_info h a = Ok (class_id_str cid, symbol)"
    "reply_id rp = INSTANTIATE_CW721_REPLY_ID" "parse_reply_instantiate_data h rp = Ok (addr_str a)"
    "addr_validate h (addr_str a) = Ok a" "reply h rp b0 = (Ok resp, b1)" "dispatch M self (messages resp @ ms) (b1, w1) z"
  then have "b1 = contract_class_save a cid (class_contract_save cid a b0)" "messages resp = []"
    by (auto simp: reply_def reply_cw721_Ok_iff)
  with all that show thesis by auto
qed

lemma dispatch_create:
  assumes ok: "chain_ok M" and own: "own_callback (CreateVouchers r vc)"
    and run: "dispatch M self (submsg_new (Wasm (self_call (xenc M) self (CreateVouchers r vc))) # ms) (b, w) z"
  obtains c b1 w0 w1 where "CLASS_ID_TO_NFT_CONTRACT b1 (cls_id (vc_class vc)) = Some c"
    "(CLASS_ID_TO_NFT_CONTRACT b (cls_id (vc_class vc)) = Some c \<and>
        CLASS_ID_TO_NFT_CONTRACT b1 = CLASS_ID_TO_NFT_CONTRACT b \<and> w0 = w) \<or>
     (CLASS_ID_TO_NFT_CONTRACT b (cls_id (vc_class vc)) = None \<and>
        CLASS_ID_TO_NFT_CONTRACT b1 = (CLASS_ID_TO_NFT_CONTRACT b)(cls_id (vc_class vc) \<mapsto> c) \<and>
        new_collection M c w = Some w0)"
    "OUTGOING_CLASS_TOKEN_TO_CHANNEL b1 = OUTGOING_CLASS_TOKEN_TO_CHANNEL b"
    "INCOMING_CLASS_TOKEN_TO_CHANNEL b1 = INCOMING_CLASS_TOKEN_TO_CHANNEL b"
    "owner_of M w1 = give c (tok_id ` set (vc_tokens vc)) (Some (Addr r)) (owner_of M w0)"
    "\<forall>t \<in> tok_id ` set (vc_tokens vc). owner_of M w0 c (token_id_str t) = None"
    "bridge_moves b b1" "dispatch M self ms (b1, w1) z"
proof -
  let ?cid = "cls_id (vc_class vc)" and ?toks = "vc_tokens vc"
  let ?mint = "submsg_new (Wasm (self_call (xenc M) self (CallbackMint ?cid r ?toks)))"
  obtain h env resp b0 where h: "chain_host M h" and env: "env_contract env = self" and
    exec: "execute h env \<lparr>info_sender = self\<rparr> (Callback (CreateVouchers r vc)) b = (Ok resp, b0)" and
    rest: "dispatch M self (messages resp @ ms) (b0, w) z"
    by (rule dispatch_selfD [OF ok run])
  note resp = create_response [OF h env exec]
  have maps: "CLASS_ID_TO_NFT_CONTRACT b0 = CLASS_ID_TO_NFT_CONTRACT b"
    "OUTGOING_CLASS_TOKEN_TO_CHANNEL b0 = OUTGOING_CLASS_TOKEN_TO_CHANNEL b"
    "INCOMING_CLASS_TOKEN_TO_CHANNEL b0 = INCOMING_CLASS_TOKEN_TO_CHANNEL b"
    "NFT_CONTRACT_TO_CLASS_ID b0 = NFT_CONTRACT_TO_CLASS_ID b"
    by (simp_all add: resp(1) store_eqs)
  show thesis
  proof (cases "CLASS_ID_TO_NFT_CONTRACT b ?cid")
    case (Some c)
    with rest have "dispatch M self (?mint # ms) (b0, w) z" by (simp add: resp(2))
    then obtain w1 where "owner_of M w1 = give c (tok_id ` set ?toks) (Some (Addr r)) (owner_of M w)"
      "\<forall>t \<in> tok_id ` set ?toks. owner_of M w c (token_id_str t) = None"
      "bridge_moves b0 (minted ?cid ?toks b0)" "dispatch M self ms (minted ?cid ?toks b0, w1) z"
      using Some by (auto simp: maps elim: dispatch_mint [OF ok own_mint [OF own]])
    moreover have "bridge_moves b b0"
      using step_callback [OF chain_host_ok [OF h] own exec] Some by (auto intro: bridge_moves_step)
    ultimately show thesis using that [of "minted ?cid ?toks b0" c w w1] Some
      by (simp add: maps minted_maps bridge_moves_trans)
  next
    case None
    with rest resp(3) obtain h' a w0 symbol rp resp' b2 where h': "chain_host M h'" and new: "new_collection M a w = Some w0"
      and fresh: "NFT_CONTRACT_TO_CLASS_ID b0 a = None"
      and rp: "query_contract_info h' a = Ok (class_id_str ?cid, symbol)" "reply_id rp = INSTANTIATE_CW721_REPLY_ID"
        "parse_reply_instantiate_data h' rp = Ok (addr_str a)" "addr_validate h' (addr_str a) = Ok a"
        "reply h' rp b0 = (Ok resp', b2)"
      and b2: "b2 = contract_class_save a ?cid (class_contract_save ?cid a b0)" and rest2: "dispatch M self (?mint # ms) (b2, w0) z"
      by (auto elim!: dispatch_found [OF ok])
    have maps2: "CLASS_ID_TO_NFT_CONTRACT b2 = (CLASS_ID_TO_NFT_CONTRACT b)(?cid \<mapsto> a)"
      "OUTGOING_CLASS_TOKEN_TO_CHANNEL b2 = OUTGOING_CLASS_TOKEN_TO_CHANNEL b"
      "INCOMING_CLASS_TOKEN_TO_CHANNEL b2 = INCOMING_CLASS_TOKEN_TO_CHANNEL b"
      by (simp_all add: b2 store_eqs maps)
    obtain w1 where "owner_of M w1 = give a (tok_id ` set ?toks) (Some (Addr r)) (owner_of M w0)"
      "\<forall>t \<in> tok_id ` set ?toks. owner_of M w0 a (token_id_str t) = None"
      "bridge_moves b2 (minted ?cid ?toks b2)" "dispatch M self ms (minted ?cid ?toks b2, w1) z"
      using rest2 by (auto simp: maps2 elim: dispatch_mint [OF ok own_mint [OF own]])
    moreover have "bridge_moves b b2"
      using step_create [OF chain_host_ok [OF h] own exec None chain_host_ok [OF h'] rp(5,2,3,4) _ rp(1)] fresh
      by (auto simp: maps intro: bridge_moves_step)
    ultimately show thesis using that [of "minted ?cid ?toks b2" a w0 w1] None new
      by (simp add: maps2 minted_maps bridge_moves_trans)
  qed
qed

section \<open>Transactions\<close>

text \<open>
  A packet transaction: the contract receives the packet; when it asks for a submessage, the chain
  runs it and replies, either with its success or, everything it did undone, with its failure. The
  acknowledgement committed is the one of the response, or the data of the reply.
\<close>

inductive packet_tx ::
  "'w chain_model \<Rightarrow> addr \<Rightarrow> IbcPacket \<Rightarrow> Bridge \<times> 'w \<Rightarrow> binary \<Rightarrow> Bridge \<times> 'w \<Rightarrow> bool"
  for M :: "'w chain_model" and self :: addr and p :: IbcPacket where
  tx_reject:
  "chain_host M h \<Longrightarrow> env_contract env = self \<Longrightarrow>
   ibc_packet_receive h env p b = (Ok r :: (ContractError, IbcReceiveResponse) outcome, b1) \<Longrightarrow>
   recv_messages r = [] \<Longrightarrow> packet_tx M self p (b, w) (acknowledgement r) (b1, w)"
| tx_commit:
  "chain_host M h \<Longrightarrow> env_contract env = self \<Longrightarrow>
   ibc_packet_receive h env p b = (Ok r :: (ContractError, IbcReceiveResponse) outcome, b1) \<Longrightarrow>
   recv_messages r = [reply_always m i] \<Longrightarrow> dispatch M self [submsg_new (Wasm m)] (b1, w) (b2, w2) \<Longrightarrow>
   chain_host M h' \<Longrightarrow> reply h' \<lparr>reply_id = i, reply_result = SubMsgOk dat\<rparr> b2 = (Ok resp, b3) \<Longrightarrow>
   data resp = Some ack \<Longrightarrow> packet_tx M self p (b, w) ack (b3, w2)"
| tx_rollback:
  "chain_host M h \<Longrightarrow> env_contract env = self \<Longrightarrow>
   ibc_packet_receive h env p b = (Ok r :: (ContractError, IbcReceiveResponse) outcome, b1) \<Longrightarrow>
   recv_messages r = [reply_always m i] \<Longrightarrow>
   chain_host M h' \<Longrightarrow> reply h' \<lparr>reply_id = i, reply_result = SubMsgErr e\<rparr> b1 = (Ok resp, b3) \<Longrightarrow>
   data resp = Some ack \<Longrightarrow> packet_tx M self p (b, w) ack (b3, w)"

definition ack_tx ::
  "'w chain_model \<Rightarrow> addr \<Rightarrow> IbcPacketAckMsg \<Rightarrow> Bridge \<times> 'w \<Rightarrow> Bridge \<times> 'w \<Rightarrow> bool" where
  "ack_tx M self a z z' \<longleftrightarrow>
     (\<exists>h r b1. chain_host M h \<and> ibc_packet_ack h a (fst z) = (Ok r, b1) \<and>
        dispatch M self (basic_messages r) (b1, snd z) z')"

definition timeout_tx ::
  "'w chain_model \<Rightarrow> addr \<Rightarrow> IbcPacket \<Rightarrow> Bridge \<times> 'w \<Rightarrow> Bridge \<times> 'w \<Rightarrow> bool" where
  "timeout_tx M self p z z' \<longleftrightarrow>
     (\<exists>h r b1. chain_host M h \<and> ibc_packet_timeout h p (fst z) = (Ok r, b1) \<and>
        dispatch M self (basic_messages r) (b1, snd z) z')"

text \<open>
  A send transaction: the holder of a token sends it to the contract through its collection, which
  makes the contract the owner and then calls it.
\<close>

definition send_tx ::
  "'w chain_model \<Rightarrow> addr \<Rightarrow> addr \<Rightarrow> string \<Rightarrow> Bridge \<times> 'w \<Rightarrow> IbcMsg \<Rightarrow> Bridge \<times> 'w \<Rightarrow> bool" where
  "send_tx M self c t z msg z' \<longleftrightarrow>
     (\<exists>h env m resp u. chain_host M h \<and> real_addr c \<and> crm_token_id m = t \<and>
        owner_of M (snd z) c t = Some u \<and> u \<noteq> self \<and>
        owner_of M (snd z') = set_owner c t (Some self) (owner_of M (snd z)) \<and>
        execute h env \<lparr>info_sender = c\<rparr> (ReceiveNft m) (fst z) = (Ok resp, fst z') \<and>
        messages resp = [submsg_new (Ibc msg)])"

section \<open>The effect of a packet transaction\<close>

text \<open>An acknowledgement reads as a failure unless it decodes to a result.\<close>

definition ack_failed :: "'w chain_model \<Rightarrow> binary \<Rightarrow> bool" where
  "ack_failed M ack \<longleftrightarrow> (\<forall>r. adec M ack \<noteq> Ok (AckResult r))"

lemma chain_host_receive:
  assumes "chain_host M h" and "ibc_packet_receive h env p b = (Ok r :: (ContractError, IbcReceiveResponse) outcome, b1)"
  shows "(recv_messages r = [] \<and> b1 = b \<and> ack_failed M (acknowledgement r)) \<or>
    (\<exists>d. pdec M (pkt_data p) = Ok d \<and> packet_wf d \<and> paused (PO b) = Some False \<and> b1 = received p d b \<and>
       receive_ibc_packet h env p b = (Ok r, b1) \<and>
       recv_messages r = [receive_submessage (xenc M) (env_contract env) (Addr (receiver d)) b p d])"
proof -
  have enc: "execute_encoder h (xenc M)" and dec: "from_binary_packet h = pdec M" and adec: "from_binary_ack h = adec M"
    and av: "\<And>s a. addr_validate h s = Ok a \<Longrightarrow> a = Addr s" and codec: "ack_codec_ok h"
    using assms(1) by (auto simp: chain_host_def)
  obtain q s1 where q: "receive_ibc_packet h env p b = (q, s1)" by fastforce
  show ?thesis
  proof (cases q)
    case (Ok r')
    with assms(2) q have "r' = r" "s1 = b1" by (simp_all add: ibc_packet_receive_def)
    with q Ok have run: "receive_ibc_packet h env p b = (Ok r, b1)" by simp
    from this [unfolded receive_ibc_packet_Ok_iff [OF enc]] run show ?thesis
      by (auto simp: dec dest!: av)
  next
    case (Err e)
    then have "s1 = b" using receive_ibc_packet_fail [OF enc q [unfolded Err]] by simp
    moreover obtain k where "to_binary_ack h (AckError (contract_error_to_string h e)) = Ok k"
      "from_binary_ack h k = Ok (AckError (contract_error_to_string h e))" by (rule ack_codec_okE [OF codec])
    ultimately show ?thesis
      using ibc_packet_receive_reject [OF q [unfolded Err], where ?'a = ContractError] assms(2)
      by (auto simp: ack_failed_def adec)
  next
    case (Panic x)
    with assms(2) q show ?thesis by (simp add: ibc_packet_receive_def)
  qed
qed

lemma packet_moves:
  assumes "chain_ok M" and "chain_host M h"
    and "ibc_packet_receive h env p b = (Ok r :: (ContractError, IbcReceiveResponse) outcome, b1)"
    and "recv_messages r \<noteq> []"
  shows "\<exists>e. bridge_step b e b1"
proof -
  obtain d where "recv_messages r = [receive_submessage (xenc M) (env_contract env) (Addr (receiver d)) b p d]"
    using chain_host_receive [OF assms(2,3)] assms(4) by blast
  then obtain cbs where "asks (xenc M) (env_contract env) (recv_messages r) cbs" using asks_some by metis
  with step_packet [OF chain_host_ok [OF assms(2)] assms(3), of "xenc M" cbs] assms(1,2) show ?thesis
    by (auto simp: chain_ok_def chain_host_def)
qed

lemma chain_reply_ack:
  assumes "chain_host M h"
    and "reply h \<lparr>reply_id = ACK_AND_DO_NOTHING, reply_result = res\<rparr> b = (Ok resp, b')" and "data resp = Some ack"
  shows "b' = b \<and> (case res of SubMsgOk x \<Rightarrow> \<not> ack_failed M ack | SubMsgErr e \<Rightarrow> ack_failed M ack)"
proof -
  have codec: "ack_codec_ok h" and adec: "from_binary_ack h = adec M" using assms(1) by (auto simp: chain_host_def)
  from reply_ack_readback [OF codec, of "\<lparr>reply_id = ACK_AND_DO_NOTHING, reply_result = res\<rparr>" b] assms(2,3)
  show ?thesis
    by (auto simp: try_get_ack_error_def ack_failed_def adec split: SubMsgResult.splits outcome.splits Ics721Ack.splits)
qed

text \<open>
  What a committed packet does to the owners, and to the registry: the redeemed tokens of the local
  class, all of which exist, go to the receiver; the vouchers, none of which existed, are minted to the receiver in the
  collection of the voucher class, an empty new one when the class had none.
\<close>

definition redeem_effect ::
  "Bridge \<Rightarrow> IbcPacket \<Rightarrow> NonFungibleTokenPacketData \<Rightarrow> (addr \<Rightarrow> string \<Rightarrow> addr option) \<Rightarrow>
     (addr \<Rightarrow> string \<Rightarrow> addr option) \<Rightarrow> bool" where
  "redeem_effect b p d f f' \<longleftrightarrow>
     (if redeemed_tokens b p d = [] then f' = f
      else \<exists>c. CLASS_ID_TO_NFT_CONTRACT b (local_class (packet_local p d)) = Some c \<and>
        (\<forall>t \<in> set (redeemed_tokens b p d). f c (token_id_str t) \<noteq> None) \<and>
        f' = give c (set (redeemed_tokens b p d)) (Some (Addr (receiver d))) f)"

definition created_ids :: "Bridge \<Rightarrow> IbcPacket \<Rightarrow> NonFungibleTokenPacketData \<Rightarrow> TokenId set" where
  "created_ids b p d = set (map item_id (created_items b p d))"

definition create_effect ::
  "Bridge \<Rightarrow> Bridge \<Rightarrow> IbcPacket \<Rightarrow> NonFungibleTokenPacketData \<Rightarrow> (addr \<Rightarrow> string \<Rightarrow> addr option) \<Rightarrow>
     (addr \<Rightarrow> string \<Rightarrow> addr option) \<Rightarrow> bool" where
  "create_effect b b' p d f f' \<longleftrightarrow>
     (if created_ids b p d = {} then f' = f \<and> CLASS_ID_TO_NFT_CONTRACT b' = CLASS_ID_TO_NFT_CONTRACT b
      else \<exists>c. CLASS_ID_TO_NFT_CONTRACT b' (voucher_class p d) = Some c \<and>
        (CLASS_ID_TO_NFT_CONTRACT b' = CLASS_ID_TO_NFT_CONTRACT b \<or>
         CLASS_ID_TO_NFT_CONTRACT b (voucher_class p d) = None \<and>
         CLASS_ID_TO_NFT_CONTRACT b' = (CLASS_ID_TO_NFT_CONTRACT b)(voucher_class p d \<mapsto> c) \<and> (\<forall>t. f c t = None)) \<and>
        (\<forall>t. TokenId t \<in> created_ids b p d \<longrightarrow> f c t = None) \<and>
        f' = give c (created_ids b p d) (Some (Addr (receiver d))) f)"

definition packet_effect ::
  "'w chain_model \<Rightarrow> IbcPacket \<Rightarrow> NonFungibleTokenPacketData \<Rightarrow> Bridge \<times> 'w \<Rightarrow> Bridge \<times> 'w \<Rightarrow> bool" where
  "packet_effect M p d z z' \<longleftrightarrow>
     OUTGOING_CLASS_TOKEN_TO_CHANNEL (fst z') = OUTGOING_CLASS_TOKEN_TO_CHANNEL (received p d (fst z)) \<and>
     INCOMING_CLASS_TOKEN_TO_CHANNEL (fst z') = INCOMING_CLASS_TOKEN_TO_CHANNEL (received p d (fst z)) \<and>
     (\<exists>f. redeem_effect (fst z) p d (owner_of M (snd z)) f \<and>
        create_effect (fst z) (fst z') p d f (owner_of M (snd z')))"

lemma received_maps [simp]:
  "CLASS_ID_TO_NFT_CONTRACT (received p d b) = CLASS_ID_TO_NFT_CONTRACT b" "PO (received p d b) = PO b"
  by (simp_all add: received_def moved_def)

text \<open>The two callbacks of a packet, each on its own.\<close>

lemma dispatch_packet_redeem:
  assumes "chain_ok M" and "packet_redemption b p d = Some vr"
    and "dispatch M self (submsg_new (Wasm (self_call (xenc M) self (RedeemVouchers (receiver d) vr))) # ms) (received p d b, w) z"
  obtains w1 where "redeem_effect b p d (owner_of M w) (owner_of M w1)" "dispatch M self ms (received p d b, w1) z"
proof -
  have vr: "cls_id (vr_class vr) = local_class (packet_local p d)" "vr_token_ids vr = redeemed_tokens b p d"
    "redeemed_tokens b p d \<noteq> []"
    using assms(2) by (auto simp: packet_redemption_def redemption_for_def split: if_splits)
  from assms(3) show thesis
    by (rule dispatch_redeem [OF assms(1)]) (rule that, use vr in \<open>auto simp: redeem_effect_def\<close>)
qed

lemma dispatch_packet_create:
  assumes "chain_ok M" and "packet_wf d" and "packet_creation b p d = Some vc"
    and "dispatch M self [submsg_new (Wasm (self_call (xenc M) self (CreateVouchers (receiver d) vc)))] (received p d b, w) (b', w')"
  shows "create_effect b b' p d (owner_of M w) (owner_of M w') \<and> bridge_moves (received p d b) b' \<and>
    OUTGOING_CLASS_TOKEN_TO_CHANNEL b' = OUTGOING_CLASS_TOKEN_TO_CHANNEL (received p d b) \<and>
    INCOMING_CLASS_TOKEN_TO_CHANNEL b' = INCOMING_CLASS_TOKEN_TO_CHANNEL (received p d b)"
proof -
  have vc: "cls_id (vc_class vc) = voucher_class p d" "vc_tokens vc = map item_token (created_items b p d)"
    "created_items b p d \<noteq> []"
    using assms(3) by (auto simp: packet_creation_def creation_for_def split: if_splits)
  have ids: "tok_id ` set (vc_tokens vc) = created_ids b p d" "created_ids b p d \<noteq> {}"
    using vc(3) by (simp_all add: created_ids_def vc(2) image_image item_token_def)
  from assms(4) show ?thesis
  proof (rule dispatch_create [OF assms(1) own_create [OF assms(2,3)]], goal_cases)
    case (1 c b1 w0 w1)
    then have eqs: "b' = b1" "w' = w1" by simp_all
    have "\<forall>t. owner_of M w c t = None" "owner_of M w0 = owner_of M w" if "new_collection M c w = Some w0"
      using collections_laws(4) [OF assms(1) that] by auto
    moreover have "\<forall>t. TokenId t \<in> created_ids b p d \<longrightarrow> owner_of M w0 c t = None"
      using 1(6) unfolding ids by force
    ultimately show ?case using 1 ids(2) by (auto simp: eqs create_effect_def ids(1) vc(1))
  qed
qed

lemma dispatch_packet:
  assumes ok: "chain_ok M" and wf: "packet_wf d"
    and run: "dispatch M self [submsg_new (Wasm (self_call (xenc M) self
       (callback_for (xenc M) self (Addr (receiver d)) (packet_redemption b p d) (packet_creation b p d))))]
       (received p d b, w) (b', w')"
  shows "packet_effect M p d (b, w) (b', w') \<and> bridge_moves (received p d b) b'"
proof -
  let ?R = "packet_redemption b p d" and ?C = "packet_creation b p d"
  have none: "redeemed_tokens b p d = [] \<longleftrightarrow> ?R = None" "created_ids b p d = {} \<longleftrightarrow> ?C = None"
    by (auto simp: packet_redemption_def redemption_for_def packet_creation_def creation_for_def created_ids_def)
  have conj: "dispatch M self (map (\<lambda>m. submsg_new (Wasm m)) ops) (received p d b, w) (b', w')"
    if "dispatch M self [submsg_new (Wasm (self_call (xenc M) self (Conjunction ops)))] (received p d b, w) (b', w')" for ops
    using that by (rule dispatch_selfD [OF ok]) (auto simp: execute_Ok_iff execute_callback_Ok_iff ret_def)
  show ?thesis
  proof (cases ?R)
    case R: None
    show ?thesis
    proof (cases ?C)
      case None
      with R run have "b' = received p d b" "w' = w" using conj [of "[]"] by (auto simp: callback_for_def)
      with R None none show ?thesis by (simp add: packet_effect_def redeem_effect_def create_effect_def)
    next
      case (Some vc)
      with dispatch_packet_create [OF ok wf Some] run R none show ?thesis
        by (auto simp: callback_for_def packet_effect_def redeem_effect_def)
    qed
  next
    case R: (Some vr)
    show ?thesis
    proof (cases ?C)
      case None
      with R run have "dispatch M self [submsg_new (Wasm (self_call (xenc M) self (RedeemVouchers (receiver d) vr)))]
          (received p d b, w) (b', w')" by (simp add: callback_for_def)
      then show ?thesis
        by (rule dispatch_packet_redeem [OF ok R]) (use None none in \<open>auto simp: packet_effect_def create_effect_def\<close>)
    next
      case (Some vc)
      with R run have "dispatch M self [submsg_new (Wasm (self_call (xenc M) self (RedeemVouchers (receiver d) vr))),
          submsg_new (Wasm (self_call (xenc M) self (CreateVouchers (receiver d) vc)))] (received p d b, w) (b', w')"
        using conj [of "[self_call (xenc M) self (RedeemVouchers (receiver d) vr),
          self_call (xenc M) self (CreateVouchers (receiver d) vc)]"] by (simp add: callback_for_def)
      then show ?thesis
      proof (rule dispatch_packet_redeem [OF ok R])
        fix w1
        assume "redeem_effect b p d (owner_of M w) (owner_of M w1)"
          "dispatch M self [submsg_new (Wasm (self_call (xenc M) self (CreateVouchers (receiver d) vc)))]
             (received p d b, w1) (b', w')"
        with dispatch_packet_create [OF ok wf Some] show ?thesis by (auto simp: packet_effect_def)
      qed
    qed
  qed
qed

lemma packet_tx_cases:
  assumes ok: "chain_ok M" and tx: "packet_tx M self p (b, w) ack (b', w')"
  shows "(ack_failed M ack \<and> b' = b \<and> w' = w) \<or>
    (\<exists>d. pdec M (pkt_data p) = Ok d \<and> packet_wf d \<and> bridge_moves b b' \<and>
       (if ack_failed M ack then b' = received p d b \<and> w' = w else packet_effect M p d (b, w) (b', w')))"
  using tx
proof (cases rule: packet_tx.cases)
  case (tx_reject h env r)
  with chain_host_receive [OF tx_reject(3,5)] show ?thesis by (auto simp: receive_submessage_def)
next
  case (tx_commit h env r b1 m i b2 h' dat resp)
  then obtain d where d: "pdec M (pkt_data p) = Ok d" "packet_wf d" "b1 = received p d b"
    and run: "receive_ibc_packet h env p b = (Ok r, b1)"
    and m: "i = ACK_AND_DO_NOTHING" "m = self_call (xenc M) self
       (callback_for (xenc M) self (Addr (receiver d)) (packet_redemption b p d) (packet_creation b p d))"
    using chain_host_receive [OF tx_commit(1,3)] by (auto simp: receive_submessage_def reply_always_def)
  have "bridge_moves b b1"
    using packet_moves [OF ok tx_commit(1,3)] tx_commit(4) by (auto intro: bridge_moves_step)
  moreover have "packet_effect M p d (b, w) (b2, w') \<and> bridge_moves b1 b2"
    using dispatch_packet [OF ok d(2), of self b p w b2 w'] tx_commit(5) by (simp add: m d(3))
  moreover have "b' = b2 \<and> \<not> ack_failed M ack"
    using chain_reply_ack [OF tx_commit(6)] tx_commit(7,8) m(1) by fastforce
  ultimately show ?thesis using d by (auto intro: bridge_moves_trans)
next
  case (tx_rollback h env r b1 m i h' e resp)
  then obtain d where d: "pdec M (pkt_data p) = Ok d" "packet_wf d" "b1 = received p d b" "i = ACK_AND_DO_NOTHING"
    using chain_host_receive [OF tx_rollback(2,4)] by (auto simp: receive_submessage_def reply_always_def)
  have "bridge_moves b b1"
    using packet_moves [OF ok tx_rollback(2,4)] tx_rollback(5) by (auto intro: bridge_moves_step)
  moreover have "b' = b1 \<and> ack_failed M ack"
    using chain_reply_ack [OF tx_rollback(6)] tx_rollback(7,8) d(4) by fastforce
  ultimately show ?thesis using d tx_rollback(1) by auto
qed

section \<open>The effect of acknowledgements, timeouts and sends\<close>

lemma refund_dispatch:
  assumes ok: "chain_ok M" and h: "chain_host M h" and run: "handle_packet_fail h p e b = (Ok r, b1)"
    and disp: "dispatch M self (basic_messages r) (b1, w) (b', w')"
  obtains d c where "pdec M (pkt_data p) = Ok d" "CLASS_ID_TO_NFT_CONTRACT b (class_id d) = Some c" "b' = refunded d b"
    "owner_of M w' = give c (set (token_ids d)) (Some (Addr (sender d))) (owner_of M w)"
proof -
  have enc: "cw721_encoder h (cenc M)" and dec: "from_binary_packet h = pdec M" using h by (auto simp: chain_host_def)
  from run obtain d c owner msgs where d: "pdec M (pkt_data p) = Ok d" "CLASS_ID_TO_NFT_CONTRACT b (class_id d) = Some c"
    "addr_validate h (sender d) = Ok owner" "b1 = refunded d b"
    and all: "list_all2 (\<lambda>x y. transfer_msg h c owner x = Ok y) (token_ids d) msgs"
    and "basic_messages r = map (\<lambda>m. submsg_new (Wasm m)) msgs"
    by (rule handle_packet_fail_Ok) (auto simp: dec)
  moreover from all have "msgs = map (\<lambda>t. WasmExecute (addr_str c) (cenc M (TransferNft (addr_str owner) (token_id_str t)))) (token_ids d)"
    by (simp add: transfer_msg_Ok [OF enc] list_all2_map_eq)
  ultimately have msgs: "basic_messages r = map (transfer_call (cenc M) c owner) (token_ids d) @ []"
    by (simp add: transfer_call_def cw721_call_def)
  have owner: "owner = Addr (sender d)" using h d(3) by (auto simp: chain_host_def)
  from disp [unfolded msgs owner] show thesis
    by (rule dispatch_transfers [OF ok]) (rule that, use d in auto)
qed

lemma timeout_tx_effect:
  assumes "chain_ok M" and "timeout_tx M self p (b, w) (b', w')"
  obtains d c where "pdec M (pkt_data p) = Ok d" "CLASS_ID_TO_NFT_CONTRACT b (class_id d) = Some c" "b' = refunded d b"
    "owner_of M w' = give c (set (token_ids d)) (Some (Addr (sender d))) (owner_of M w)" "bridge_moves b b'"
proof -
  obtain h r b1 where h: "chain_host M h" and run: "ibc_packet_timeout h p b = (Ok r, b1)"
    and disp: "dispatch M self (basic_messages r) (b1, w) (b', w')"
    using assms(2) by (auto simp: timeout_tx_def)
  show thesis
  proof (rule refund_dispatch [OF assms(1) h run [unfolded ibc_packet_timeout_def] disp])
    fix d c
    assume d: "pdec M (pkt_data p) = Ok d" "CLASS_ID_TO_NFT_CONTRACT b (class_id d) = Some c" "b' = refunded d b"
      "owner_of M w' = give c (set (token_ids d)) (Some (Addr (sender d))) (owner_of M w)"
    have "b1 = refunded d b"
      using run h d(1) by (auto simp: ibc_packet_timeout_def chain_host_def elim!: handle_packet_fail_Ok)
    with step_refund_timeout [OF chain_host_ok [OF h] run, of d] h d that show thesis
      by (auto simp: chain_host_def intro: bridge_moves_step)
  qed
qed

lemma ack_tx_effect:
  assumes "chain_ok M" and "ack_tx M self a (b, w) (b', w')"
  obtains d c where "pdec M (pkt_data (original_packet a)) = Ok d" "CLASS_ID_TO_NFT_CONTRACT b (class_id d) = Some c"
    "if ack_failed M (ack_data a)
     then b' = refunded d b \<and> owner_of M w' = give c (set (token_ids d)) (Some (Addr (sender d))) (owner_of M w)
     else let ts = burned_tokens b (class_id d) (channel_id (src (original_packet a))) (token_ids d)
          in b' = forgotten (class_id d) ts b \<and> owner_of M w' = give c (set ts) None (owner_of M w)"
    "bridge_moves b b'"
proof -
  obtain h r b1 where h: "chain_host M h" and run: "ibc_packet_ack h a b = (Ok r, b1)"
    and disp: "dispatch M self (basic_messages r) (b1, w) (b', w')"
    using assms(2) by (auto simp: ack_tx_def)
  have hh: "from_binary_ack h = adec M" "from_binary_packet h = pdec M" "cw721_encoder h (cenc M)"
    using h by (auto simp: chain_host_def)
  obtain err where err: "try_get_ack_error h (ack_data a) = (Ok err :: (ContractError, string option) outcome)"
    using run by (auto simp: ibc_packet_ack_def prog_iffs)
  then have failed: "ack_failed M (ack_data a) \<longleftrightarrow> err \<noteq> None"
    by (auto simp: try_get_ack_error_def hh ack_failed_def split: outcome.splits Ics721Ack.splits)
  show thesis
  proof (cases err)
    case (Some e)
    then have fail: "handle_packet_fail h (original_packet a) e b = (Ok r, b1)"
      using run err by (simp add: ibc_packet_ack_def bnd_def lift_def)
    show thesis
    proof (rule refund_dispatch [OF assms(1) h fail disp])
      fix d c
      assume d: "pdec M (pkt_data (original_packet a)) = Ok d" "CLASS_ID_TO_NFT_CONTRACT b (class_id d) = Some c"
        "b' = refunded d b" "owner_of M w' = give c (set (token_ids d)) (Some (Addr (sender d))) (owner_of M w)"
      have "b1 = refunded d b" using fail d(1) by (auto simp: hh elim!: handle_packet_fail_Ok)
      with step_refund_ack [OF chain_host_ok [OF h] run err [unfolded Some], of d] d that failed Some show thesis
        by (auto simp: hh intro: bridge_moves_step)
    qed
  next
    case None
    obtain d c where d: "pdec M (pkt_data (original_packet a)) = Ok d" "CLASS_ID_TO_NFT_CONTRACT b (class_id d) = Some c"
      using run err None by (auto simp: ibc_packet_ack_def prog_iffs hh)
    let ?ts = "burned_tokens b (class_id d) (channel_id (src (original_packet a))) (token_ids d)"
    have b1: "b1 = forgotten (class_id d) ?ts b"
      and msgs: "basic_messages r = map (\<lambda>t. cw721_call (cenc M) c (Burn (token_id_str t))) ?ts"
      using ibc_packet_ack_success_Ok [OF err [unfolded None] _ hh(3) run, of d] d hh by auto
    have "b' = b1 \<and> owner_of M w' = give c (set ?ts) None (owner_of M w)"
      using dispatch_burns [OF assms(1)] disp by (simp add: msgs)
    with step_ack [OF chain_host_ok [OF h] run err [unfolded None] _ hh(3) _ d(2) msgs] d that [OF d] b1 failed None assms(1)
    show thesis
      by (auto simp: hh chain_ok_def intro: bridge_moves_step)
  qed
qed

lemma send_tx_effect:
  assumes "send_tx M self c t (b, w) msg (b', w')" and "bridge_inv b"
  obtains d u where "pdec M (sp_data msg) = Ok d" "packet_wf d" "token_ids d = [TokenId t]" "real_addr c"
    "CLASS_ID_TO_NFT_CONTRACT b' = (CLASS_ID_TO_NFT_CONTRACT b)(class_id d \<mapsto> c)"
    "CLASS_ID_TO_NFT_CONTRACT b (class_id d) = Some c \<or> CLASS_ID_TO_NFT_CONTRACT b (class_id d) = None \<and> class_id d = ClassId (addr_str c)"
    "OUTGOING_CLASS_TOKEN_TO_CHANNEL b' = (OUTGOING_CLASS_TOKEN_TO_CHANNEL b)((class_id d, TokenId t) \<mapsto> sp_channel_id msg)"
    "INCOMING_CLASS_TOKEN_TO_CHANNEL b' = INCOMING_CLASS_TOKEN_TO_CHANNEL b"
    "owner_of M w c t = Some u" "u \<noteq> self" "owner_of M w' = set_owner c t (Some self) (owner_of M w)"
    "bridge_moves b b'"
proof -
  from assms(1) obtain h env m resp u where h: "chain_host M h" and c: "real_addr c" and m: "crm_token_id m = t"
    and own: "owner_of M w c t = Some u" "u \<noteq> self" "owner_of M w' = set_owner c t (Some self) (owner_of M w)"
    and run: "execute h env \<lparr>info_sender = c\<rparr> (ReceiveNft m) b = (Ok resp, b')"
    and msg: "messages resp = [submsg_new (Ibc msg)]"
    by (auto simp: send_tx_def)
  from run obtain sa og cls b1 uri bytes where cls: "class_of_contract c b = (Ok cls, b1)"
    and enc: "to_binary_packet h (outgoing_packet cls (TokenId t) uri (stored_data b cls (TokenId t)) sa og) = Ok bytes"
    and resp: "resp = sent_response cls (TokenId t) og bytes"
    and b': "b' = outgoing_save (cls_id cls, TokenId t) (og_channel_id og) b1"
    by (auto simp: execute_Ok_iff execute_receive_nft_Ok_iff receive_nft_Ok_iff m)
  let ?d = "outgoing_packet cls (TokenId t) uri (stored_data b cls (TokenId t)) sa og"
  have sent: "sp_data msg = bytes" "sp_channel_id msg = og_channel_id og"
    using msg by (auto simp: resp sent_response_def submsg_new_def)
  have reg: "registry_inv b" "class_inv b" using assms(2) by (simp_all add: bridge_inv_def)
  have "class_wf cls"
    using cls reg(2) c by (auto elim!: class_of_contract_cases simp: class_inv_def class_wf_def fresh_class_def real_addr_def)
  moreover have "CLASS_ID_TO_NFT_CONTRACT b1 = (CLASS_ID_TO_NFT_CONTRACT b)(cls_id cls \<mapsto> c) \<and>
      (CLASS_ID_TO_NFT_CONTRACT b (cls_id cls) = Some c \<or>
       CLASS_ID_TO_NFT_CONTRACT b (cls_id cls) = None \<and> cls_id cls = ClassId (addr_str c))"
    using cls
  proof (cases rule: class_of_contract_cases)
    case first_seen
    with fresh_name_free [OF reg(1) first_seen(1) c] show ?thesis by (simp add: with_class_def fresh_class_def)
  next
    case (known cid)
    then have "CLASS_ID_TO_NFT_CONTRACT b (cls_id cls) = Some c" using reg by (simp add: registry_inv_def class_inv_def)
    with known show ?thesis by (auto simp: fun_upd_idem)
  qed
  moreover have "OUTGOING_CLASS_TOKEN_TO_CHANNEL b1 = OUTGOING_CLASS_TOKEN_TO_CHANNEL b"
    "INCOMING_CLASS_TOKEN_TO_CHANNEL b1 = INCOMING_CLASS_TOKEN_TO_CHANNEL b"
    using cls by (auto elim!: class_of_contract_cases simp: with_class_def)
  moreover have "bridge_moves b b'"
    using step_send [OF chain_host_ok [OF h] _ _ run, of c "TokenId t" cls b1 "og_channel_id og"] cls c
    by (auto simp: b' m outgoing.look_save intro: bridge_moves_step)
  moreover have "pdec M (sp_data msg) = Ok ?d" using h enc by (auto simp: chain_host_def sent)
  ultimately show thesis
    using that [of ?d u] own c outgoing_packet_wf [of cls]
    by (auto simp: b' sent store_eqs) (auto simp: outgoing_packet_def)
qed

end
