(* ===== verification/Bridge_Link.thy ===== *)
theory Bridge_Link
  imports Bridge_Chain
begin

text \<open>
  Two chains, each with its bridge and its collections, joined by one channel. Holders move their
  NFTs as they please and send them through the bridges; a relayer delivers each packet at most once
  or lets it time out, and each acknowledgement at most once, in any order; other channels may bring
  arbitrary packets. Proved: along every history, an NFT of a native collection and its voucher
  on the other chain are never both in the hands of a holder.
\<close>

section \<open>Classes along the channel\<close>

definition native_class :: "addr \<Rightarrow> ClassId" where
  "native_class c = ClassId (addr_str c)"

definition voucher_of :: "IbcEndpoint \<Rightarrow> ClassId \<Rightarrow> ClassId" where
  "voucher_of e c = ClassId (get_endpoint_prefix e @ class_id_str c)"

lemma voucher_of_facts:
  "voucher_of e c = voucher_of e c' \<longleftrightarrow> c = c'"
  "\<not> slash_free (class_id_str (voucher_of e c))"
  "real_addr a \<Longrightarrow> native_class a \<noteq> voucher_of e c"
  "real_addr a \<Longrightarrow> voucher_of e c \<noteq> native_class a"
  by (cases c; cases c'; auto simp: voucher_of_def native_class_def real_addr_def prefixed_not_slash_free
      dest: arg_cong [of _ _ slash_free])+

lemma voucher_of_endpoint:
  "endpoint_ok e \<Longrightarrow> endpoint_ok e' \<Longrightarrow> voucher_of e c = voucher_of e' c' \<longleftrightarrow> e = e' \<and> c = c'"
  by (cases c; cases c') (auto simp: voucher_of_def dest: prefix_unique)

lemma voucher_class_of: "voucher_class p d = voucher_of (dest p) (class_id d)"
  by (simp add: voucher_class_def voucher_of_def)

lemma native_class_inj: "native_class a = native_class a' \<longleftrightarrow> a = a'"
  by (cases a; cases a') (simp add: native_class_def)

text \<open>A packet with a single token either redeems it or makes a voucher of it.\<close>

lemma returning_iff:
  "returning b (packet_local p d) ch t \<longleftrightarrow>
     (\<exists>c. class_id d = voucher_of (src p) c \<and> OUTGOING_CLASS_TOKEN_TO_CHANNEL b (c, t) = Some ch)"
  unfolding returning_packet_iff voucher_of_def by (metis ClassId.collapse ClassId.sel)

lemma returning_local:
  "class_id d = voucher_of (src p) c \<Longrightarrow> local_class (packet_local p d) = c"
  by (cases c) (simp add: voucher_of_def packet_local_def local_class_def)

lemma single_packet:
  assumes "packet_wf d" and "token_ids d = [t]"
  shows "if returning b (packet_local p d) (channel_id (dest p)) t
    then redeemed_tokens b p d = [t] \<and> created_ids b p d = {}
    else redeemed_tokens b p d = [] \<and> created_ids b p d = {t}"
proof -
  have red: "set (redeemed_tokens b p d) = {u. u = t \<and> returning b (packet_local p d) (channel_id (dest p)) u}"
    "distinct (redeemed_tokens b p d)"
    using redeemed_tokens_set [OF assms(1), of b p] by (auto simp: assms(2))
  have all: "mset (redeemed_tokens b p d) + mset (map item_id (created_items b p d)) = {#t#}"
    using redeemed_created_mset [OF assms(1), of b p] by (simp add: assms(2))
  show ?thesis
  proof (cases "returning b (packet_local p d) (channel_id (dest p)) t")
    case True
    then have "set (redeemed_tokens b p d) = {t}" unfolding red(1) by blast
    with red(2) have "redeemed_tokens b p d = [t]" by (rule distinct_set_singleton)
    with all True show ?thesis by (simp add: created_ids_def)
  next
    case False
    then have "set (redeemed_tokens b p d) = {}" unfolding red(1) by blast
    then have "redeemed_tokens b p d = []" by simp
    moreover from this all have "mset (map item_id (created_items b p d)) = {#t#}" by simp
    then have "map item_id (created_items b p d) = [t]" by (simp only: mset_single_iff)
    then have "created_ids b p d = {t}" by (simp only: created_ids_def list.set)
    ultimately show ?thesis using False by simp
  qed
qed

section \<open>The owner of a token of a class\<close>

definition class_owner :: "'w chain_model \<Rightarrow> Bridge \<Rightarrow> 'w \<Rightarrow> ClassId \<Rightarrow> string \<Rightarrow> addr option" where
  "class_owner M b w c t =
     (case CLASS_ID_TO_NFT_CONTRACT b c of None \<Rightarrow> None | Some a \<Rightarrow> owner_of M w a t)"

text \<open>A collection whose class, if it has one, is named after itself.\<close>

definition native :: "Bridge \<Rightarrow> addr \<Rightarrow> bool" where
  "native b a \<longleftrightarrow> (\<forall>c. NFT_CONTRACT_TO_CLASS_ID b a = Some c \<longrightarrow> c = native_class a)"

lemma registry_facts:
  assumes "bridge_inv b"
  shows "NFT_CONTRACT_TO_CLASS_ID b a = Some c \<longleftrightarrow> CLASS_ID_TO_NFT_CONTRACT b c = Some a"
    and "CLASS_ID_TO_NFT_CONTRACT b c = Some a \<Longrightarrow> CLASS_ID_TO_NFT_CONTRACT b c' = Some a \<Longrightarrow> c = c'"
    and "CLASS_ID_TO_NFT_CONTRACT b (native_class a) = Some a' \<Longrightarrow> real_addr a \<Longrightarrow> a' = a"
    and "native b a \<Longrightarrow> CLASS_ID_TO_NFT_CONTRACT b c = Some a \<Longrightarrow> c = native_class a"
proof -
  have reg: "registry_inv b" using assms by (simp add: bridge_inv_def)
  then show *: "NFT_CONTRACT_TO_CLASS_ID b a = Some c \<longleftrightarrow> CLASS_ID_TO_NFT_CONTRACT b c = Some a" for a c
    by (simp add: registry_inv_def)
  show "c = c'" if "CLASS_ID_TO_NFT_CONTRACT b c = Some a" "CLASS_ID_TO_NFT_CONTRACT b c' = Some a"
    using that by (simp flip: *)
  show "a' = a" if "CLASS_ID_TO_NFT_CONTRACT b (native_class a) = Some a'" "real_addr a"
  proof -
    from that(1) have "NFT_CONTRACT_TO_CLASS_ID b a' = Some (native_class a)" by (simp add: *)
    with reg have "native_class a = native_class a' \<or> \<not> slash_free (class_id_str (native_class a))"
      unfolding registry_inv_def native_class_def [of a'] by blast
    with that(2) show ?thesis by (auto simp: native_class_inj real_addr_def) (simp add: native_class_def)
  qed
  show "c = native_class a" if "native b a" "CLASS_ID_TO_NFT_CONTRACT b c = Some a"
    using that by (simp add: native_def flip: *)
qed

lemma class_owner_give:
  assumes "bridge_inv b" and "CLASS_ID_TO_NFT_CONTRACT b cls = Some c" and "CLASS_ID_TO_NFT_CONTRACT b' = CLASS_ID_TO_NFT_CONTRACT b"
    and "owner_of M w' = give c ts v (owner_of M w)"
  shows "class_owner M b' w' C t = (if C = cls \<and> TokenId t \<in> ts then v else class_owner M b w C t)"
proof (cases "CLASS_ID_TO_NFT_CONTRACT b C")
  case None
  with assms(2,3) show ?thesis by (auto simp: class_owner_def)
next
  case (Some a)
  then have "a = c \<longleftrightarrow> C = cls" using registry_facts(2) [OF assms(1)] assms(2) by auto
  with Some assms(3,4) show ?thesis by (simp add: class_owner_def give_def)
qed

lemma native_give:
  assumes "bridge_inv b" and "native b a" and "real_addr a" and "CLASS_ID_TO_NFT_CONTRACT b cls = Some c"
  shows "give c ts v f a t = (if cls = native_class a \<and> TokenId t \<in> ts then v else f a t)"
  using assms registry_facts(3,4) [OF assms(1)] by (auto simp: give_def)

text \<open>What a committed packet does to a token it does not carry, and to one it does.\<close>

lemma commit_frame:
  assumes "bridge_inv b" and "bridge_inv b'" and "packet_effect M p d (b, w) (b', w')"
    and "C = local_class (packet_local p d) \<Longrightarrow> TokenId t \<notin> set (redeemed_tokens b p d)"
    and "C = voucher_class p d \<Longrightarrow> TokenId t \<notin> created_ids b p d"
  shows "class_owner M b' w' C t = class_owner M b w C t"
proof -
  obtain f where red: "redeem_effect b p d (owner_of M w) f" and cre: "create_effect b b' p d f (owner_of M w')"
    using assms(3) by (auto simp: packet_effect_def)
  have f: "f a t = owner_of M w a t" if "CLASS_ID_TO_NFT_CONTRACT b C = Some a" for a
  proof (cases "redeemed_tokens b p d = []")
    case False
    with red obtain c where c: "CLASS_ID_TO_NFT_CONTRACT b (local_class (packet_local p d)) = Some c"
      "f = give c (set (redeemed_tokens b p d)) (Some (Addr (receiver d))) (owner_of M w)"
      by (auto simp: redeem_effect_def)
    have "a = c \<longrightarrow> C = local_class (packet_local p d)" using registry_facts(2) [OF assms(1)] that c(1) by auto
    with assms(4) show ?thesis by (auto simp: c(2) give_def)
  qed (use red in \<open>simp add: redeem_effect_def\<close>)
  have f': "owner_of M w' a t = f a t" if "CLASS_ID_TO_NFT_CONTRACT b' C = Some a" for a
  proof (cases "created_ids b p d = {}")
    case False
    with cre obtain c where c: "CLASS_ID_TO_NFT_CONTRACT b' (voucher_class p d) = Some c"
      "owner_of M w' = give c (created_ids b p d) (Some (Addr (receiver d))) f"
      by (auto simp: create_effect_def)
    have "a = c \<longrightarrow> C = voucher_class p d" using registry_facts(2) [OF assms(2)] that c(1) by auto
    with assms(5) show ?thesis by (auto simp: c(2) give_def)
  qed (use cre in \<open>simp add: create_effect_def\<close>)
  show ?thesis
  proof (cases "CLASS_ID_TO_NFT_CONTRACT b' C = CLASS_ID_TO_NFT_CONTRACT b C")
    case True
    with f f' show ?thesis by (auto simp: class_owner_def split: option.splits)
  next
    case False
    with cre f' show ?thesis by (auto simp: create_effect_def class_owner_def split: if_splits option.splits)
  qed
qed

lemma commit_absent:
  assumes "bridge_inv b" and "bridge_inv b'" and "packet_effect M p d (b, w) (b', w')"
    and "class_owner M b w C t = None" and "C = voucher_class p d \<Longrightarrow> TokenId t \<notin> created_ids b p d"
  shows "class_owner M b' w' C t = None"
proof -
  have "TokenId t \<notin> set (redeemed_tokens b p d)" if "C = local_class (packet_local p d)"
    using assms(3,4) that by (force simp: packet_effect_def redeem_effect_def class_owner_def split: if_splits)
  from commit_frame [OF assms(1-3) this assms(5)] assms(4) show ?thesis by simp
qed

lemma commit_native_frame:
  assumes "bridge_inv b" and "bridge_inv b'" and "native b a" and "native b' a" and "real_addr a"
    and "packet_effect M p d (b, w) (b', w')"
    and "native_class a = local_class (packet_local p d) \<Longrightarrow> TokenId t \<notin> set (redeemed_tokens b p d)"
  shows "owner_of M w' a t = owner_of M w a t"
proof -
  obtain f where red: "redeem_effect b p d (owner_of M w) f" and cre: "create_effect b b' p d f (owner_of M w')"
    using assms(6) by (auto simp: packet_effect_def)
  have "f a t = owner_of M w a t"
    using red assms(7) registry_facts(4) [OF assms(1,3)] by (auto simp: redeem_effect_def give_def split: if_splits)
  moreover have "owner_of M w' a t = f a t"
    using cre registry_facts(4) [OF assms(2,4), of "voucher_class p d"] voucher_of_facts(4) [OF assms(5)]
    by (auto simp: create_effect_def give_def voucher_class_of split: if_splits)
  ultimately show ?thesis by simp
qed

lemma commit_created:
  assumes "packet_effect M p d (b, w) (b', w')" and "redeemed_tokens b p d = []"
    and "TokenId t \<in> created_ids b p d"
  shows "class_owner M b w (voucher_class p d) t = None \<and>
    class_owner M b' w' (voucher_class p d) t = Some (Addr (receiver d))"
  using assms
  by (auto simp: packet_effect_def redeem_effect_def create_effect_def class_owner_def give_def
      split: if_splits option.splits)

lemma commit_redeemed:
  assumes "bridge_inv b" and "real_addr a" and "packet_effect M p d (b, w) (b', w')" and "created_ids b p d = {}"
    and "TokenId t \<in> set (redeemed_tokens b p d)" and "local_class (packet_local p d) = native_class a"
  shows "owner_of M w' a t = Some (Addr (receiver d))"
  using assms registry_facts(3) [OF assms(1) _ assms(2)]
  by (auto simp: packet_effect_def redeem_effect_def create_effect_def give_def split: if_splits)

text \<open>The registry only grows.\<close>

lemma bridge_spec_registry: "bridge_spec s e t \<Longrightarrow> NFT_CONTRACT_TO_CLASS_ID s a = Some c \<Longrightarrow> NFT_CONTRACT_TO_CLASS_ID t a = Some c"
  by (erule bridge_spec.cases) (auto simp: with_class_def)

lemma native_mono:
  assumes "bridge_moves b b'" and "native b' a"
  shows "native b a"
proof -
  have "NFT_CONTRACT_TO_CLASS_ID b a = Some c \<Longrightarrow> NFT_CONTRACT_TO_CLASS_ID b' a = Some c" for c
    using assms(1) unfolding bridge_moves_def
    by (induction rule: rtranclp_induct) (auto dest: step_refines_spec bridge_spec_registry)
  with assms(2) show ?thesis by (auto simp: native_def)
qed

section \<open>The link\<close>

datatype side = SideA | SideB

primrec other :: "side \<Rightarrow> side" where
  "other SideA = SideB"
| "other SideB = SideA"

lemma other_simps [simp]: "other (other x) = x" "other x \<noteq> x" "x \<noteq> other x"
  by (cases x; simp)+

lemma side_cases: "z = x \<or> z = other x"
  by (cases x; cases z) auto

record 'w link =
  bridges :: "side \<Rightarrow> Bridge"
  worlds :: "side \<Rightarrow> 'w"
  flight :: "(side \<times> IbcPacket) multiset"
  acks :: "(side \<times> IbcPacket \<times> binary) multiset"

definition put_chain :: "side \<Rightarrow> Bridge \<times> 'w \<Rightarrow> 'w link \<Rightarrow> 'w link" where
  "put_chain x z s = s\<lparr>bridges := (bridges s)(x := fst z), worlds := (worlds s)(x := snd z)\<rparr>"

text \<open>
  What holders do on their own: they never move a token the bridge owns, and only the bridge mints
  in the collections it has founded for foreign classes.
\<close>

definition holders_move :: "'w chain_model \<Rightarrow> addr \<Rightarrow> Bridge \<Rightarrow> 'w \<Rightarrow> 'w \<Rightarrow> bool" where
  "holders_move M self b w w' \<longleftrightarrow>
     (\<forall>c t. owner_of M w c t = Some self \<longrightarrow> owner_of M w' c t = Some self) \<and>
     (\<forall>c cls t. CLASS_ID_TO_NFT_CONTRACT b cls = Some c \<and> \<not> slash_free (class_id_str cls) \<and> owner_of M w c t = None \<longrightarrow>
        owner_of M w' c t = None)"

definition is_admin :: "bridge_event \<Rightarrow> bool" where
  "is_admin e \<longleftrightarrow> (\<exists>a. e = PausedBy a) \<or> (\<exists>a. e = ProxySet a) \<or> e = Migrated"

inductive link_step ::
  "'w chain_model \<Rightarrow> (side \<Rightarrow> addr) \<Rightarrow> (side \<Rightarrow> IbcEndpoint) \<Rightarrow> 'w link \<Rightarrow> 'w link \<Rightarrow> bool"
  for M :: "'w chain_model" and self :: "side \<Rightarrow> addr" and ends :: "side \<Rightarrow> IbcEndpoint" where
  link_send:
  "send_tx M (self x) c t (bridges s x, worlds s x) msg z \<Longrightarrow> sp_channel_id msg = channel_id (ends x) \<Longrightarrow>
   link_step M self ends s
     ((put_chain x z s)\<lparr>flight := add_mset (x, transit (ends x) (ends (other x)) n msg) (flight s)\<rparr>)"
| link_receive:
  "(x, p) \<in># flight s \<Longrightarrow>
   packet_tx M (self (other x)) p (bridges s (other x), worlds s (other x)) ack z \<Longrightarrow>
   link_step M self ends s
     ((put_chain (other x) z s)\<lparr>flight := flight s - {#(x, p)#}, acks := add_mset (x, p, ack) (acks s)\<rparr>)"
| link_timeout:
  "(x, p) \<in># flight s \<Longrightarrow> timeout_tx M (self x) p (bridges s x, worlds s x) z \<Longrightarrow>
   link_step M self ends s ((put_chain x z s)\<lparr>flight := flight s - {#(x, p)#}\<rparr>)"
| link_ack:
  "(x, p, ack) \<in># acks s \<Longrightarrow>
   ack_tx M (self x) \<lparr>ack_data = ack, original_packet = p\<rparr> (bridges s x, worlds s x) z \<Longrightarrow>
   link_step M self ends s ((put_chain x z s)\<lparr>acks := acks s - {#(x, p, ack)#}\<rparr>)"
| link_foreign:
  "endpoint_ok (dest p) \<Longrightarrow> channel_id (dest p) \<noteq> channel_id (ends x) \<Longrightarrow>
   packet_tx M (self x) p (bridges s x, worlds s x) ack z \<Longrightarrow>
   link_step M self ends s (put_chain x z s)"
| link_holders:
  "holders_move M (self x) (bridges s x) (worlds s x) w \<Longrightarrow>
   link_step M self ends s (put_chain x (bridges s x, w) s)"
| link_admin:
  "bridge_step (bridges s x) e b \<Longrightarrow> is_admin e \<Longrightarrow> link_step M self ends s (put_chain x (b, worlds s x) s)"

definition link_init :: "'w link \<Rightarrow> bool" where
  "link_init s \<longleftrightarrow> (\<forall>x. bridge_init (bridges s x)) \<and> flight s = {#} \<and> acks s = {#}"

definition link_ok :: "'w chain_model \<Rightarrow> (side \<Rightarrow> IbcEndpoint) \<Rightarrow> bool" where
  "link_ok M ends \<longleftrightarrow> chain_ok M \<and> (\<forall>x. endpoint_ok (ends x))"

section \<open>Packets of the link\<close>

definition carries :: "'w chain_model \<Rightarrow> class_token \<Rightarrow> IbcPacket \<Rightarrow> bool" where
  "carries M k p \<longleftrightarrow> (\<exists>d. pdec M (pkt_data p) = Ok d \<and> class_id d = fst k \<and> token_ids d = [snd k])"

definition link_packet :: "'w chain_model \<Rightarrow> (side \<Rightarrow> IbcEndpoint) \<Rightarrow> side \<Rightarrow> IbcPacket \<Rightarrow> bool" where
  "link_packet M ends x p \<longleftrightarrow> src p = ends x \<and> dest p = ends (other x) \<and>
     (\<exists>d t. pdec M (pkt_data p) = Ok d \<and> packet_wf d \<and> token_ids d = [t])"

text \<open>Everything that is the same for all tokens: the bridges are in order, and what is away is away on the link.\<close>

definition link_wf :: "'w chain_model \<Rightarrow> (side \<Rightarrow> IbcEndpoint) \<Rightarrow> 'w link \<Rightarrow> bool" where
  "link_wf M ends s \<longleftrightarrow>
     (\<forall>x. bridge_inv (bridges s x)) \<and>
     (\<forall>x k ch. OUTGOING_CLASS_TOKEN_TO_CHANNEL (bridges s x) k = Some ch \<longrightarrow> ch = channel_id (ends x)) \<and>
     (\<forall>x p. (x, p) \<in># flight s \<longrightarrow> link_packet M ends x p) \<and>
     (\<forall>x p a. (x, p, a) \<in># acks s \<longrightarrow> link_packet M ends x p)"

text \<open>
  Unresolved transfers of a token: packets that carry it and are on their way, and failed ones whose
  acknowledgement is on its way.
\<close>

definition pending ::
  "'w chain_model \<Rightarrow> (side \<times> IbcPacket) multiset \<Rightarrow> (side \<times> IbcPacket \<times> binary) multiset \<Rightarrow> side \<Rightarrow> class_token \<Rightarrow> nat" where
  "pending M F A x k =
     size {#e \<in># F. fst e = x \<and> carries M k (snd e)#} +
     size {#e \<in># A. fst e = x \<and> carries M k (fst (snd e)) \<and> ack_failed M (snd (snd e))#}"

lemma pending_add:
  "pending M (add_mset (z, p) F) A x k = pending M F A x k + (if z = x \<and> carries M k p then 1 else 0)"
  "pending M F (add_mset (z, p, a) A) x k =
     pending M F A x k + (if z = x \<and> carries M k p \<and> ack_failed M a then 1 else 0)"
  by (auto simp: pending_def)

lemma pending_remove:
  "(z, p) \<in># F \<Longrightarrow> pending M F A x k = pending M (F - {#(z, p)#}) A x k + (if z = x \<and> carries M k p then 1 else 0)"
  "(z, p, a) \<in># A \<Longrightarrow> pending M F A x k =
     pending M F (A - {#(z, p, a)#}) x k + (if z = x \<and> carries M k p \<and> ack_failed M a then 1 else 0)"
  by (metis pending_add(1) insert_DiffM) (metis pending_add(2) insert_DiffM)

text \<open>What packet receipt does to the outgoing entry of a native token.\<close>

lemma received_outgoing:
  assumes "packet_wf d" and "token_ids d = [u]"
  shows "OUTGOING_CLASS_TOKEN_TO_CHANNEL (received p d b) (c, t) =
    (if class_id d = voucher_of (src p) c \<and> t = u \<and> OUTGOING_CLASS_TOKEN_TO_CHANNEL b (c, t) = Some (channel_id (dest p))
     then None else OUTGOING_CLASS_TOKEN_TO_CHANNEL b (c, t))"
proof (cases "returning b (packet_local p d) (channel_id (dest p)) u")
  case True
  then obtain c' where c': "class_id d = voucher_of (src p) c'" "OUTGOING_CLASS_TOKEN_TO_CHANNEL b (c', u) = Some (channel_id (dest p))"
    unfolding returning_iff by blast
  with single_packet [OF assms, of b p] True returning_local [OF c'(1)] show ?thesis
    by (auto simp: received_def moved_def in_Pair_image voucher_of_facts(1))
next
  case False
  with single_packet [OF assms, of b p] show ?thesis
    by (auto simp: received_def moved_def returning_iff)
qed

text \<open>
  The packet comes from the native side: it makes the voucher when it carries the native token, and
  leaves the voucher alone unless it carries a voucher of the voucher.
\<close>

lemma commit_at_voucher_side:
  assumes inv: "bridge_inv b" "bridge_inv b'" and eff: "packet_effect M p d (b, w) (b', w')"
    and wf: "packet_wf d" "token_ids d = [u]" and real: "real_addr a"
  defines "vc \<equiv> voucher_of (dest p) (native_class a)"
  shows "class_id d = native_class a \<Longrightarrow> u = TokenId t \<Longrightarrow>
      class_owner M b w vc t = None \<and> class_owner M b' w' vc t = Some (Addr (receiver d))"
    and "\<not> (class_id d = native_class a \<and> u = TokenId t) \<Longrightarrow> \<not> (class_id d = voucher_of (src p) vc \<and> u = TokenId t) \<Longrightarrow>
      class_owner M b' w' vc t = class_owner M b w vc t"
proof -
  note single = single_packet [OF wf, of b p]
  assume "class_id d = native_class a" "u = TokenId t"
  then have "\<not> returning b (packet_local p d) (channel_id (dest p)) u" "voucher_class p d = vc"
    using voucher_of_facts(3) [OF real] by (auto simp: returning_iff voucher_class_of vc_def)
  with single commit_created [OF eff, of t] \<open>u = TokenId t\<close>
  show "class_owner M b w vc t = None \<and> class_owner M b' w' vc t = Some (Addr (receiver d))" by simp
next
  note single = single_packet [OF wf, of b p]
  assume no: "\<not> (class_id d = native_class a \<and> u = TokenId t)" "\<not> (class_id d = voucher_of (src p) vc \<and> u = TokenId t)"
  show "class_owner M b' w' vc t = class_owner M b w vc t"
  proof (rule commit_frame [OF inv eff])
    assume "vc = local_class (packet_local p d)"
    with no(2) single show "TokenId t \<notin> set (redeemed_tokens b p d)"
      by (auto simp: returning_iff dest: returning_local split: if_splits)
  next
    assume "vc = voucher_class p d"
    then have "class_id d = native_class a" by (simp add: vc_def voucher_class_of voucher_of_facts(1))
    with no(1) single show "TokenId t \<notin> created_ids b p d" by (auto split: if_splits)
  qed
qed

text \<open>
  The packet comes from the voucher side: it hands out the native token only when it carries its
  voucher and the token is away on the link, and makes a voucher of the voucher only when it is not.
\<close>

lemma commit_at_native_side:
  fixes t :: string
  assumes inv: "bridge_inv b" "bridge_inv b'" and nat: "native b a" "native b' a" and real: "real_addr a"
    and eff: "packet_effect M p d (b, w) (b', w')" and wf: "packet_wf d" "token_ids d = [u]"
  defines "back \<equiv> class_id d = voucher_of (src p) (native_class a) \<and> u = TokenId t"
    and "away \<equiv> OUTGOING_CLASS_TOKEN_TO_CHANNEL b (native_class a, TokenId t) = Some (channel_id (dest p))"
  shows "owner_of M w' a t = (if back \<and> away then Some (Addr (receiver d)) else owner_of M w a t)"
    and "\<not> back \<or> away \<Longrightarrow> class_owner M b w (voucher_of (dest p) (voucher_of (src p) (native_class a))) t = None \<Longrightarrow>
      class_owner M b' w' (voucher_of (dest p) (voucher_of (src p) (native_class a))) t = None"
proof -
  note single = single_packet [OF wf, of b p]
  have ret: "returning b (packet_local p d) (channel_id (dest p)) u \<Longrightarrow> native_class a = local_class (packet_local p d) \<Longrightarrow>
      u = TokenId t \<Longrightarrow> back \<and> away"
    unfolding returning_iff back_def away_def by (auto dest: returning_local)
  show "owner_of M w' a t = (if back \<and> away then Some (Addr (receiver d)) else owner_of M w a t)"
  proof (cases "back \<and> away")
    case True
    then have "returning b (packet_local p d) (channel_id (dest p)) u" "local_class (packet_local p d) = native_class a"
      by (auto simp: returning_iff back_def away_def intro: returning_local)
    with commit_redeemed [OF inv(1) real eff, of t] single True show ?thesis by (simp add: back_def)
  next
    case False
    have "owner_of M w' a t = owner_of M w a t"
      by (rule commit_native_frame [OF inv nat real eff]) (use ret single False in \<open>auto split: if_splits\<close>)
    with False show ?thesis by auto
  qed
  let ?wc = "voucher_of (dest p) (voucher_of (src p) (native_class a))"
  show "class_owner M b' w' ?wc t = None" if "\<not> back \<or> away" "class_owner M b w ?wc t = None"
  proof (rule commit_absent [OF inv eff that(2)])
    assume "?wc = voucher_class p d"
    then have "class_id d = voucher_of (src p) (native_class a)" by (simp add: voucher_class_of voucher_of_facts(1))
    with that(1) single show "TokenId t \<notin> created_ids b p d"
      by (auto simp: returning_iff back_def away_def split: if_splits)
  qed
qed

section \<open>The link stays well formed\<close>

lemma put_chain_simps [simp]:
  "bridges (put_chain x z s) = (bridges s)(x := fst z)" "worlds (put_chain x z s) = (worlds s)(x := snd z)"
  "flight (put_chain x z s) = flight s" "acks (put_chain x z s) = acks s"
  by (simp_all add: put_chain_def)

text \<open>Apart from sends, no transaction makes an outgoing entry.\<close>

lemma packet_tx_safe:
  assumes "chain_ok M" and "packet_tx M self p (b, w) ack (b', w')" and "bridge_inv b"
  shows "bridge_inv b'" and "OUTGOING_CLASS_TOKEN_TO_CHANNEL b' k = Some ch \<Longrightarrow> OUTGOING_CLASS_TOKEN_TO_CHANNEL b k = Some ch"
    and "bridge_moves b b'"
proof -
  note cases = packet_tx_cases [OF assms(1,2)]
  show "bridge_moves b b'" using cases by auto
  with assms(3) show "bridge_inv b'" by (blast intro: bridge_moves_inv)
  show "OUTGOING_CLASS_TOKEN_TO_CHANNEL b k = Some ch" if "OUTGOING_CLASS_TOKEN_TO_CHANNEL b' k = Some ch"
  proof (cases "b' = b")
    case False
    then obtain d where "OUTGOING_CLASS_TOKEN_TO_CHANNEL b' = OUTGOING_CLASS_TOKEN_TO_CHANNEL (received p d b)"
      using cases by (auto simp: packet_effect_def split: if_splits)
    with that show ?thesis by (simp add: received_def moved_def split: if_splits)
  qed (use that in simp)
qed

lemma timeout_tx_safe:
  assumes "chain_ok M" and "timeout_tx M self p (b, w) (b', w')" and "bridge_inv b"
  shows "bridge_inv b'" and "OUTGOING_CLASS_TOKEN_TO_CHANNEL b' k = Some ch \<Longrightarrow> OUTGOING_CLASS_TOKEN_TO_CHANNEL b k = Some ch"
    and "bridge_moves b b'"
  by (rule timeout_tx_effect [OF assms(1,2)],
      use assms(3) bridge_moves_inv in \<open>auto simp: refunded_def split: if_splits\<close>)+

lemma ack_tx_safe:
  assumes "chain_ok M" and "ack_tx M self a (b, w) (b', w')" and "bridge_inv b"
  shows "bridge_inv b'" and "OUTGOING_CLASS_TOKEN_TO_CHANNEL b' k = Some ch \<Longrightarrow> OUTGOING_CLASS_TOKEN_TO_CHANNEL b k = Some ch"
    and "bridge_moves b b'"
  by (rule ack_tx_effect [OF assms(1,2)],
      use assms(3) bridge_moves_inv in \<open>auto simp: refunded_def forgotten_def Let_def split: if_splits\<close>)+

lemma admin_safe:
  assumes "bridge_step b e b'" and "is_admin e" and "bridge_inv b"
  shows "bridge_inv b'" and "OUTGOING_CLASS_TOKEN_TO_CHANNEL b' = OUTGOING_CLASS_TOKEN_TO_CHANNEL b"
    and "CLASS_ID_TO_NFT_CONTRACT b' = CLASS_ID_TO_NFT_CONTRACT b" and "bridge_moves b b'"
proof -
  note spec = step_refines_spec [OF assms(1)]
  show "bridge_inv b'" using step_inv [OF spec assms(3)] .
  show "bridge_moves b b'" using assms(1) by (rule bridge_moves_step)
  show "OUTGOING_CLASS_TOKEN_TO_CHANNEL b' = OUTGOING_CLASS_TOKEN_TO_CHANNEL b"
    "CLASS_ID_TO_NFT_CONTRACT b' = CLASS_ID_TO_NFT_CONTRACT b"
    using spec assms(2) by (auto simp: is_admin_def elim!: bridge_spec.cases)
qed

lemma bridge_init_maps:
  "bridge_init b \<Longrightarrow> OUTGOING_CLASS_TOKEN_TO_CHANNEL b = Map.empty \<and> CLASS_ID_TO_NFT_CONTRACT b = Map.empty"
  by (auto simp: bridge_init_def instantiate_Ok_iff empty_bridge_def)

lemma link_wf_init: "link_init s \<Longrightarrow> link_wf M ends s"
  by (simp add: link_init_def link_wf_def init_inv bridge_init_maps)

lemma link_wf_update:
  assumes "link_wf M ends s" and "bridge_inv b'"
    and "\<And>k ch. OUTGOING_CLASS_TOKEN_TO_CHANNEL b' k = Some ch \<Longrightarrow>
      OUTGOING_CLASS_TOKEN_TO_CHANNEL (bridges s x) k = Some ch \<or> ch = channel_id (ends x)"
    and "\<And>y p. (y, p) \<in># F \<Longrightarrow> (y, p) \<in># flight s \<or> link_packet M ends y p"
    and "\<And>y p a. (y, p, a) \<in># A \<Longrightarrow> (y, p, a) \<in># acks s \<or> link_packet M ends y p"
  shows "link_wf M ends ((put_chain x (b', w') s)\<lparr>flight := F, acks := A\<rparr>)"
proof -
  have old: "OUTGOING_CLASS_TOKEN_TO_CHANNEL (bridges s z) k = Some ch \<Longrightarrow> ch = channel_id (ends z)" for z k ch
    using assms(1) unfolding link_wf_def by blast
  have "ch = channel_id (ends z)"
    if "OUTGOING_CLASS_TOKEN_TO_CHANNEL (((bridges s)(x := b')) z) k = Some ch" for z k ch
    using that old [of z k ch] assms(3) [of k ch] by (cases "z = x") auto
  moreover have "\<forall>y p. (y, p) \<in># F \<longrightarrow> link_packet M ends y p" "\<forall>y p a. (y, p, a) \<in># A \<longrightarrow> link_packet M ends y p"
    using assms(1,4,5) unfolding link_wf_def by blast+
  ultimately show ?thesis using assms(1,2) by (simp add: link_wf_def)
qed

lemma put_chain_net:
  "(put_chain x z s)\<lparr>flight := F\<rparr> = (put_chain x z s)\<lparr>flight := F, acks := acks s\<rparr>"
  "(put_chain x z s)\<lparr>acks := A\<rparr> = (put_chain x z s)\<lparr>flight := flight s, acks := A\<rparr>"
  "put_chain x z s = (put_chain x z s)\<lparr>flight := flight s, acks := acks s\<rparr>"
  by (simp_all add: put_chain_def)

lemma link_wf_send:
  assumes "send_tx M me c t (bridges s x, worlds s x) msg (b', w')" and "sp_channel_id msg = channel_id (ends x)" and "link_wf M ends s"
  shows "link_wf M ends ((put_chain x (b', w') s)\<lparr>flight := add_mset (x, transit (ends x) (ends (other x)) n msg) (flight s)\<rparr>)"
proof -
  have inv: "bridge_inv (bridges s x)" using assms(3) by (simp add: link_wf_def)
  show ?thesis
  proof (rule send_tx_effect [OF assms(1) inv])
    fix d u
    assume d: "pdec M (sp_data msg) = Ok d" "packet_wf d" "token_ids d = [TokenId t]"
      and out: "OUTGOING_CLASS_TOKEN_TO_CHANNEL b' = (OUTGOING_CLASS_TOKEN_TO_CHANNEL (bridges s x))((class_id d, TokenId t) \<mapsto> sp_channel_id msg)"
      and "bridge_moves (bridges s x) b'"
    then have "bridge_inv b'" using inv by (blast intro: bridge_moves_inv)
    moreover have "link_packet M ends x (transit (ends x) (ends (other x)) n msg)"
      using d by (auto simp: link_packet_def)
    ultimately show ?thesis using assms(2)
      by (subst put_chain_net(1), intro link_wf_update [OF assms(3)]) (auto simp: out split: if_splits)
  qed
qed

lemma link_wf_step:
  assumes "link_ok M ends" and "link_step M self ends s s'" and "link_wf M ends s"
  shows "link_wf M ends s'"
proof -
  have ok: "chain_ok M" using assms(1) by (simp add: link_ok_def)
  have inv: "bridge_inv (bridges s x)" for x using assms(3) by (simp add: link_wf_def)
  have F: "link_packet M ends x p" if "(x, p) \<in># flight s" for x p using that assms(3) by (simp add: link_wf_def)
  note update = link_wf_update [OF assms(3)]
  from assms(2) show ?thesis
  proof (cases rule: link_step.cases)
    case (link_send x c t msg z n)
    then show ?thesis using link_wf_send [OF _ _ assms(3)] by (cases z) auto
  next
    case (link_receive x p ack z)
    then show ?thesis using packet_tx_safe [OF ok _ inv] F
      by (cases z) (auto intro!: update dest: in_diffD)
  next
    case (link_timeout x p z)
    then show ?thesis using timeout_tx_safe [OF ok _ inv]
      by (cases z, simp only:, subst put_chain_net(1)) (auto intro!: update dest: in_diffD)
  next
    case (link_ack x p ack z)
    then show ?thesis using ack_tx_safe [OF ok _ inv]
      by (cases z, simp only:, subst put_chain_net(2)) (auto intro!: update dest: in_diffD)
  next
    case (link_foreign p x ack z)
    then show ?thesis using packet_tx_safe [OF ok _ inv]
      by (cases z, simp only:, subst put_chain_net(3)) (auto intro!: update)
  next
    case (link_holders x w)
    then show ?thesis by (simp only:, subst put_chain_net(3)) (auto intro!: update inv)
  next
    case (link_admin x e b)
    then show ?thesis using admin_safe [OF link_admin(2,3) inv]
      by (simp only:, subst put_chain_net(3)) (auto intro!: update)
  qed
qed

end
