(* ===== verification/Sample_Chain.thy ===== *)
theory Sample_Chain
  imports Bridge_Chain
begin

text \<open>
  A concrete chain, on which the theorems about whole transactions are applied: collections that
  keep the owners of their tokens in a list, and a host for both sides of a transfer. A send of one
  token and the receipt of its packet on another chain are run on it to the end.
\<close>

section \<open>A first delivery runs to its end\<close>

text \<open>
  A packet with one token of a class the bridge has never seen: the collection is founded, the reply
  registers it, the voucher is minted in it, and the success acknowledgement is committed.
\<close>

lemma mint_one:
  fixes env :: Env and tok :: Token
  assumes h: "chain_host M h" and self: "env_contract env = self" and po: "paused (PO b) = Some False"
    and recv: "addr_validate h r = Ok (Addr r)" and known: "CLASS_ID_TO_NFT_CONTRACT b cid = Some a"
    and mint: "cw721_run M self a (Mint (token_id_str (tok_id tok)) r (tok_uri tok)) w = Some w1"
    and fits: "class_key_fits cid"
  shows "dispatch M self [submsg_new (Wasm (self_call (xenc M) self (CallbackMint cid r [tok])))] (b, w)
    (minted cid [tok] b, w1)"
proof -
  have "cw721_encoder h (cenc M)" using h by (simp add: chain_host_def)
  then have "execute h env \<lparr>info_sender = self\<rparr> (Callback (CallbackMint cid r [tok])) b =
      (Ok (response [cw721_call (cenc M) a (Mint (token_id_str (tok_id tok)) r (tok_uri tok))]
        [(''method'', ''callback_mint'')]), minted cid [tok] b)"
    using po recv self known fits
    by (simp add: execute_Ok_iff execute_callback_Ok_iff callback_mint_Ok_iff mint_msg_def cw721_encoder_def cw721_call_def
        list_all2_Cons1)
  then show ?thesis
    by (rule dispatch_self [OF h self]) (auto simp: response_def intro!: dispatch_cw721 [OF mint] dispatch_done)
qed

lemma create_first:
  fixes env :: Env and vc :: VoucherCreation and cls :: Class and tok :: Token
  assumes h: "chain_host M h" and self: "env_contract env = self" and po: "paused (PO b) = Some False"
    and recv: "addr_validate h r = Ok (Addr r)"
    and vc: "vc_class vc = cls" "cls_id cls = cid" "vc_tokens vc = [tok]"
    and fresh: "CLASS_ID_TO_NFT_CONTRACT b cid = None" "CW721_CODE_ID b = Some code"
    and new: "new_collection M a w = Some w0" "NFT_CONTRACT_TO_CLASS_ID b a = None"
      "query_contract_info h a = Ok (class_id_str cid, symbol)" "addr_validate h (addr_str a) = Ok a"
      "parse_reply_instantiate_data h \<lparr>reply_id = INSTANTIATE_CW721_REPLY_ID, reply_result = SubMsgOk dat\<rparr> = Ok (addr_str a)"
    and mint: "cw721_run M self a (Mint (token_id_str (tok_id tok)) r (tok_uri tok)) w0 = Some w1"
    and fits: "class_key_fits cid"
  shows "\<exists>b'. dispatch M self [submsg_new (Wasm (self_call (xenc M) self (CreateVouchers r vc)))] (b, w) (b', w1)"
proof -
  let ?rp = "\<lparr>reply_id = INSTANTIATE_CW721_REPLY_ID, reply_result = SubMsgOk dat\<rparr>"
  let ?i = "\<lparr>ci_name = class_id_str cid, ci_symbol = class_id_str cid, ci_minter = addr_str self\<rparr>"
  let ?b2 = "class_save cid cls b"
  let ?b3 = "contract_class_save a cid (class_contract_save cid a ?b2)"
  let ?inst = "reply_on_success (WasmInstantiate None code (ienc M ?i) ''ics-721 debt-voucher cw-721'') INSTANTIATE_CW721_REPLY_ID"
  let ?mint = "submsg_new (Wasm (self_call (xenc M) self (CallbackMint cid r [tok])))"
  have maps: "PO ?b3 = PO b" "CLASS_ID_TO_NFT_CONTRACT ?b3 cid = Some a" "NFT_CONTRACT_TO_CLASS_ID ?b2 a = None"
    using new(2) by (simp_all add: store_eqs)
  have "reply h ?rp ?b2 = (Ok (response [] [(''method'', ''instantiate_cw721_reply''), (''class_id'', class_id_str cid),
          (''cw721_addr'', addr_str a)]), ?b3)"
    using new by (simp add: reply_def reply_cw721_Ok_iff)
  then have "dispatch M self [?inst, ?mint] (?b2, w) (minted cid [tok] ?b3, w1)"
    by (intro dispatch_new [OF h new(1), where rp = ?rp])
      (use new maps mint_one [OF h self _ recv _ mint fits, of ?b3] po in \<open>auto simp: response_def\<close>)
  moreover have "execute h env \<lparr>info_sender = self\<rparr> (Callback (CreateVouchers r vc)) b =
      (Ok (response [?inst, ?mint] [(''method'', ''callback_create_vouchers'')]), ?b2)"
    using h po self fresh vc
    by (simp add: execute_Ok_iff execute_callback_Ok_iff callback_create_vouchers_Ok_iff mint_call_def voucher_collection_def
        execute_encoder_def self_call_def chain_host_def)
  ultimately show ?thesis
    by (intro exI, intro dispatch_self [OF h self]) (auto simp: response_def)
qed

lemma first_delivery:
  fixes env :: Env and p :: IbcPacket and d :: NonFungibleTokenPacketData
  assumes h: "chain_host M h" and self: "env_contract env = self" and po: "paused (PO b) = Some False"
    and d: "pdec M (pkt_data p) = Ok d" "packet_wf d" "redeemed_tokens b p d = []" "created_items b p d = [it]"
    and recv: "addr_validate h (receiver d) = Ok (Addr (receiver d))"
    and fresh: "CLASS_ID_TO_NFT_CONTRACT b (voucher_class p d) = None" "CW721_CODE_ID b = Some code"
    and new: "new_collection M a w = Some w_new" "NFT_CONTRACT_TO_CLASS_ID b a = None"
      "query_contract_info h a = Ok (class_id_str (voucher_class p d), symbol)" "addr_validate h (addr_str a) = Ok a"
      "parse_reply_instantiate_data h \<lparr>reply_id = INSTANTIATE_CW721_REPLY_ID, reply_result = SubMsgOk dat\<rparr> = Ok (addr_str a)"
    and mint: "cw721_run M self a (Mint (token_id_str (item_id it)) (receiver d) (tok_uri (item_token it))) w_new = Some w_end"
    and fits: "class_key_fits (voucher_class p d)"
  shows "\<exists>ack b'. packet_tx M self p (b, w) ack (b', w_end) \<and> \<not> ack_failed M ack"
proof -
  let ?vc = "\<lparr>vc_class = \<lparr>cls_id = voucher_class p d, cls_uri = class_uri d, cls_data = class_data d\<rparr>, vc_tokens = [item_token it]\<rparr>"
  let ?m = "self_call (xenc M) self (CreateVouchers (receiver d) ?vc)"
  have enc: "execute_encoder h (xenc M)" "from_binary_packet h = pdec M" "ack_codec_ok h" using h by (auto simp: chain_host_def)
  have sub: "receive_submessage (xenc M) self (Addr (receiver d)) b p d = reply_always ?m ACK_AND_DO_NOTHING"
    by (simp add: receive_submessage_def packet_redemption_def redemption_for_def packet_creation_def creation_for_def
        callback_for_def d)
  have "receive_ibc_packet h env p b =
      (Ok (receive_response [reply_always ?m ACK_AND_DO_NOTHING] (receive_attributes p d)), received p d b)"
    unfolding receive_ibc_packet_Ok_iff [OF enc(1)] using po d recv self keys_fitI [OF fits] by (simp add: enc(2) sub)
  then have run: "ibc_packet_receive h env p b =
      (Ok (receive_response [reply_always ?m ACK_AND_DO_NOTHING] (receive_attributes p d)) ::
        (ContractError, IbcReceiveResponse) outcome, received p d b)"
    by (simp add: ibc_packet_receive_def)
  have maps: "PO (received p d b) = PO b" "CW721_CODE_ID (received p d b) = CW721_CODE_ID b"
    "NFT_CONTRACT_TO_CLASS_ID (received p d b) = NFT_CONTRACT_TO_CLASS_ID b"
    by (simp_all add: received_def moved_def)
  have tok: "tok_id (item_token it) = item_id it" by (simp add: item_token_def)
  obtain b' where disp: "dispatch M self [submsg_new (Wasm ?m)] (received p d b, w) (b', w_end)"
    using create_first [OF h self _ recv _ _ _ _ _ new(1) _ new(3,4,5) mint [folded tok], of "received p d b" ?vc
        "vc_class ?vc" code] fits po fresh new(2) by (auto simp: maps)
  obtain resp ack where "reply h \<lparr>reply_id = ACK_AND_DO_NOTHING, reply_result = SubMsgOk None\<rparr> b' = (Ok resp, b')"
    "data resp = Some ack"
    using reply_ack_readback [OF enc(3), of "\<lparr>reply_id = ACK_AND_DO_NOTHING, reply_result = SubMsgOk None\<rparr>" b'] by auto
  with tx_commit [OF h self run _ disp h] chain_reply_ack [OF h] show ?thesis
    by (fastforce simp: receive_response_def)
qed

section \<open>A chain\<close>

text \<open>Every collection lists its tokens with their owners; only the owner of a token moves or burns it.\<close>

type_synonym sample_world = "addr \<rightharpoonup> (string \<times> addr) list"

definition sample_owner :: "sample_world \<Rightarrow> addr \<Rightarrow> string \<Rightarrow> addr option" where
  "sample_owner w c t = (case w c of None \<Rightarrow> None | Some ts \<Rightarrow> map_of ts t)"

definition sample_put :: "addr \<Rightarrow> string \<Rightarrow> addr option \<Rightarrow> sample_world \<Rightarrow> sample_world" where
  "sample_put c t v w =
     (case w c of
        None \<Rightarrow> w
      | Some ts \<Rightarrow> w(c \<mapsto> (case v of None \<Rightarrow> [] | Some a \<Rightarrow> [(t, a)]) @ filter (\<lambda>e. fst e \<noteq> t) ts))"

primrec sample_cw721_run :: "addr \<Rightarrow> addr \<Rightarrow> Cw721ExecuteMsg \<Rightarrow> sample_world \<Rightarrow> sample_world option" where
  "sample_cw721_run s c (TransferNft r t) w =
     (if sample_owner w c t = Some s then Some (sample_put c t (Some (Addr r)) w) else None)"
| "sample_cw721_run s c (SendNft r t b) w = None"
| "sample_cw721_run s c (Burn t) w = (if sample_owner w c t = Some s then Some (sample_put c t None w) else None)"
| "sample_cw721_run s c (Mint t r u) w =
     (if w c \<noteq> None \<and> sample_owner w c t = None then Some (sample_put c t (Some (Addr r)) w) else None)"

definition sample_new :: "addr \<Rightarrow> sample_world \<Rightarrow> sample_world option" where
  "sample_new a w = (if w a = None then Some (w(a \<mapsto> [])) else None)"

definition trip_data :: NonFungibleTokenPacketData where
  "trip_data = sample_data ''nft'' [''1'']"

definition trip_dec :: "binary \<Rightarrow> (StdError, NonFungibleTokenPacketData) outcome" where
  "trip_dec b = (if b = ''packet'' then Ok trip_data else Err (ParseErr ''NonFungibleTokenPacketData'' ''not a packet''))"

definition sample_chain :: "sample_world chain_model" where
  "sample_chain = \<lparr>xenc = code_execute, cenc = code_cw721, ienc = code_init, pdec = trip_dec, adec = sample_dec_ack,
     owner_of = sample_owner, cw721_run = sample_cw721_run, new_collection = sample_new\<rparr>"

lemma map_of_without: "map_of (filter (\<lambda>e. fst e \<noteq> t) ts) u = (if u = t then None else map_of ts u)"
  by (induction ts) auto

lemma sample_put_owner:
  "w c \<noteq> None \<Longrightarrow> sample_owner (sample_put c t v w) = set_owner c t v (sample_owner w)"
  by (cases v) (auto simp: sample_owner_def sample_put_def set_owner_def fun_eq_iff map_of_without)

lemma sample_new_owner: "w a = None \<Longrightarrow> sample_owner (w(a \<mapsto> [])) = sample_owner w"
  by (auto simp: sample_owner_def fun_eq_iff)

lemma sample_chain_ok: "chain_ok sample_chain"
proof -
  have here: "w c \<noteq> None" if "sample_owner w c t = Some u" for w c t u
    using that by (simp add: sample_owner_def split: option.splits)
  have none: "w a = None \<Longrightarrow> sample_owner w a t = None" for w a t by (simp add: sample_owner_def)
  have "collections_ok sample_chain"
    unfolding collections_ok_def sample_chain_def
    by (auto simp: sample_new_def none sample_new_owner split: if_splits intro!: sample_put_owner dest: here)
  then show ?thesis by (simp add: chain_ok_def) (simp add: sample_chain_def code_messages)
qed

section \<open>A transfer on the chain\<close>

text \<open>Alice sends token 1 of the collection \<^verbatim>\<open>nft\<close> from one chain; the packet arrives on another, fresh one.\<close>

definition home_end :: IbcEndpoint where
  "home_end = \<lparr>port_id = ''wasm.a'', channel_id = ''channel-0''\<rparr>"

definition away_end :: IbcEndpoint where
  "away_end = \<lparr>port_id = ''wasm.b'', channel_id = ''channel-7''\<rparr>"

definition trip_outgoing :: IbcOutgoingMsg where
  "trip_outgoing = \<lparr>og_receiver = ''bob'', og_channel_id = ''channel-0'', og_timeout = sample_timeout, og_memo = None\<rparr>"

definition trip_msg :: IbcMsg where
  "trip_msg = SendPacket ''channel-0'' ''packet'' sample_timeout"

definition trip_packet :: IbcPacket where
  "trip_packet = transit home_end away_end 1 trip_msg"

definition trip_host :: host where
  "trip_host = sample_host\<lparr>to_binary_execute := (\<lambda>m. Ok (code_execute m)), to_binary_cw721 := (\<lambda>m. Ok (code_cw721 m)),
     to_binary_cw721_init := (\<lambda>i. Ok (code_init i)), from_binary_packet := trip_dec,
     to_binary_packet := (\<lambda>d. if d = trip_data then Ok ''packet'' else Err (SerializeErr ''NonFungibleTokenPacketData'' ''unknown'')),
     from_binary_outgoing := (\<lambda>_. Ok trip_outgoing),
     query_contract_info := (\<lambda>_. Ok (''wasm.b/channel-7/nft'', ''wasm.b/channel-7/nft''))\<rparr>"

definition home_world :: sample_world where
  "home_world = [Addr ''nft'' \<mapsto> [(''1'', Addr ''alice'')]]"

lemma trip_chain_host: "chain_host sample_chain trip_host"
proof -
  have "ack_codec_ok trip_host" using sample_host_ack_codec by (simp add: ack_codec_ok_def trip_host_def)
  then show ?thesis
    by (auto simp: chain_host_def execute_encoder_def cw721_encoder_def)
      (auto simp: trip_host_def sample_chain_def trip_dec_def real_addr_def slash_free_def split: if_splits)
qed

lemma trip_send_tx:
  "\<exists>w. send_tx sample_chain (Addr ''bridge'') (Addr ''nft'') ''1'' (sample_init, home_world) trip_msg (sample_locked, w)"
proof -
  let ?m = "\<lparr>crm_sender = ''alice'', crm_token_id = ''1'', crm_msg = []\<rparr>"
  let ?r = "sent_response (fresh_class (Addr ''nft'')) (TokenId ''1'') trip_outgoing ''packet''"
  let ?w = "sample_put (Addr ''nft'') ''1'' (Some (Addr ''bridge'')) home_world"
  have pkt: "outgoing_packet (fresh_class (Addr ''nft'')) (TokenId ''1'') None None (Addr ''alice'') trip_outgoing = trip_data"
    by (simp add: outgoing_packet_def fresh_class_def trip_outgoing_def trip_data_def sample_data_def)
  have "stored_data sample_init (fresh_class (Addr ''nft'')) (TokenId ''1'') = None"
    by (simp add: stored_data_def sample_init_def empty_bridge_def)
  then have "receive_nft trip_host \<lparr>info_sender = Addr ''nft''\<rparr> (TokenId ''1'') ''alice'' [] sample_init = (Ok ?r, sample_locked)"
    unfolding receive_nft_Ok_iff
    by (simp add: sample_class trip_host_def pkt sample_locked_def store_eqs)
      (simp add: sample_init_def empty_bridge_def fresh_class_def trip_outgoing_def class_key_fits_def)
  then have run: "execute trip_host sample_env \<lparr>info_sender = Addr ''nft''\<rparr> (ReceiveNft ?m) sample_init = (Ok ?r, sample_locked)"
    by (simp add: execute_Ok_iff execute_receive_nft_Ok_iff) (simp add: sample_init_def)
  have own: "sample_owner ?w = set_owner (Addr ''nft'') ''1'' (Some (Addr ''bridge'')) (sample_owner home_world)"
    by (rule sample_put_owner) (simp add: home_world_def)
  have "messages ?r = [submsg_new (Ibc trip_msg)]"
    by (simp add: sent_response_def response_def trip_outgoing_def trip_msg_def)
  with run own trip_chain_host show ?thesis unfolding send_tx_def
    by (intro exI [of _ ?w] exI [of _ trip_host] exI [of _ sample_env] exI [of _ ?m] exI [of _ ?r] exI [of _ "Addr ''alice''"])
      (simp add: sample_chain_def real_addr_def slash_free_def, simp add: home_world_def sample_owner_def)
qed

lemma trip_items:
  "redeemed_tokens sample_init trip_packet trip_data = []"
  "created_items sample_init trip_packet trip_data = [((TokenId ''1'', None), None)]"
proof -
  have "\<not> returning sample_init l ch t" for l ch t
    by (simp add: returning_def sample_init_def empty_bridge_def split: option.splits)
  then show "redeemed_tokens sample_init trip_packet trip_data = []"
    "created_items sample_init trip_packet trip_data = [((TokenId ''1'', None), None)]"
    by (simp_all add: redeemed_tokens_def created_items_def packet_items_def trip_data_def sample_data_def
        zip_tokens_spec zip_spec_def)
qed

lemma trip_packet_facts:
  "packet_wf trip_data" "receiver trip_data = ''bob''"
  "voucher_class trip_packet trip_data = ClassId ''wasm.b/channel-7/nft''"
  "pdec sample_chain (pkt_data trip_packet) = Ok trip_data"
proof -
  show "packet_wf trip_data" "receiver trip_data = ''bob''"
    by (simp_all add: trip_data_def sample_data_def packet_wf_def opt_len_ok_def)
  show "voucher_class trip_packet trip_data = ClassId ''wasm.b/channel-7/nft''"
    by (simp add: voucher_class_def trip_packet_def transit_def away_end_def get_endpoint_prefix_def trip_data_def sample_data_def)
  show "pdec sample_chain (pkt_data trip_packet) = Ok trip_data"
    by (simp add: sample_chain_def trip_packet_def transit_def trip_msg_def trip_dec_def)
qed

lemma trip_delivery:
  "\<exists>ack z. packet_tx sample_chain (Addr ''bridge'') trip_packet (sample_init, Map.empty) ack z \<and> \<not> ack_failed sample_chain ack"
proof -
  have maps: "CLASS_ID_TO_NFT_CONTRACT sample_init = Map.empty" "NFT_CONTRACT_TO_CLASS_ID sample_init = Map.empty"
    "CW721_CODE_ID sample_init = Some 5" "paused (PO sample_init) = Some False"
    by (simp_all add: sample_init_def empty_bridge_def)
  let ?a = "Addr ''voucher''"
  have "\<exists>ack b'. packet_tx sample_chain (Addr ''bridge'') trip_packet (sample_init, Map.empty) ack
      (b', sample_put ?a ''1'' (Some (Addr ''bob'')) [?a \<mapsto> []]) \<and> \<not> ack_failed sample_chain ack"
    by (rule first_delivery [where M = sample_chain and h = trip_host and env = sample_env and d = trip_data and a = ?a and
          w_new = "[?a \<mapsto> []]" and dat = "Some ''voucher''", OF trip_chain_host])
      (simp_all add: maps trip_items trip_packet_facts, simp_all add: sample_chain_def trip_host_def sample_new_def sample_owner_def
        sample_host_def item_token_def class_key_fits_def)
  then show ?thesis by blast
qed

end
