(* ===== verification/Bridge_Journey.thy ===== *)
theory Bridge_Journey
  imports Bridge_Link Sample_Chain
begin

text \<open>
  The journey of one token of a native collection along the link of two chains: at home, going,
  away, or stranded at its bridge. Every step of the link takes a turn of the journey, so
  that along every history the token and its voucher are never both in the hands of a holder.
\<close>

section \<open>The journey of a token\<close>

text \<open>
  All that matters for one token of a native collection: whether the bridge of its chain holds it,
  its outgoing entry, the unresolved transfers of the token, of its voucher on the other chain and
  of the voucher of that voucher back on its own chain, and the owners of the two vouchers.
\<close>

record trip =
  held :: bool
  out_ch :: "string option"
  pend_o :: nat
  pend_v :: nat
  pend_w :: nat
  w_owner :: "addr option"
  v_owner :: "addr option"

definition trip_of ::
  "'w chain_model \<Rightarrow> (side \<Rightarrow> addr) \<Rightarrow> (side \<Rightarrow> IbcEndpoint) \<Rightarrow> side \<Rightarrow> addr \<Rightarrow> string \<Rightarrow> 'w link \<Rightarrow> trip" where
  "trip_of M self ends x a t s =
     (let y = other x; oc = native_class a; vc = voucher_of (ends y) oc; wc = voucher_of (ends x) vc in
      \<lparr>held = (owner_of M (worlds s x) a t = Some (self x)),
       out_ch = OUTGOING_CLASS_TOKEN_TO_CHANNEL (bridges s x) (oc, TokenId t),
       pend_o = pending M (flight s) (acks s) x (oc, TokenId t),
       pend_v = pending M (flight s) (acks s) y (vc, TokenId t),
       pend_w = pending M (flight s) (acks s) x (wc, TokenId t),
       w_owner = class_owner M (bridges s x) (worlds s x) wc t,
       v_owner = class_owner M (bridges s y) (worlds s y) vc t\<rparr>)"

text \<open>The voucher is kept when it does not exist or the bridge holds it.\<close>

definition kept :: "addr \<Rightarrow> trip \<Rightarrow> bool" where
  "kept me T \<longleftrightarrow> v_owner T = None \<or> v_owner T = Some me"

definition at_home :: "addr \<Rightarrow> trip \<Rightarrow> bool" where
  "at_home me T \<longleftrightarrow> \<not> held T \<and> out_ch T = None \<and> pend_o T = 0 \<and> pend_v T = 0 \<and> pend_w T = 0 \<and>
     w_owner T = None \<and> kept me T"

definition going :: "string \<Rightarrow> addr \<Rightarrow> trip \<Rightarrow> bool" where
  "going ch me T \<longleftrightarrow> held T \<and> out_ch T = Some ch \<and> pend_o T = 1 \<and> pend_v T = 0 \<and> pend_w T = 0 \<and>
     w_owner T = None \<and> kept me T"

definition away :: "string \<Rightarrow> addr \<Rightarrow> trip \<Rightarrow> bool" where
  "away ch me T \<longleftrightarrow> held T \<and> out_ch T = Some ch \<and> pend_o T = 0 \<and> pend_w T = 0 \<and> w_owner T = None \<and>
     (pend_v T = 0 \<or> pend_v T = 1 \<and> kept me T)"

text \<open>Held, but with no entry under which it could be redeemed.\<close>

definition stranded :: "trip \<Rightarrow> bool" where
  "stranded T \<longleftrightarrow> held T \<and> out_ch T = None \<and> pend_o T = 0"

definition trip_inv :: "string \<Rightarrow> addr \<Rightarrow> trip \<Rightarrow> bool" where
  "trip_inv ch me T \<longleftrightarrow> at_home me T \<or> going ch me T \<or> away ch me T \<or> stranded T"

lemmas trip_defs = trip_inv_def at_home_def going_def away_def stranded_def kept_def

text \<open>
  The turns the journey can take; in all of them the invariant holds on. The flags say which
  key a packet carries: the token itself (\<open>A\<close>), its voucher (\<open>V\<close>) or the voucher of its voucher (\<open>W\<close>).
\<close>

lemma trip_sent:
  assumes "trip_inv ch me T" and "A \<Longrightarrow> \<not> held T" and "W \<Longrightarrow> w_owner T \<noteq> None" and "\<not> (A \<and> W)"
  shows "trip_inv ch me (T\<lparr>held := A \<or> held T, out_ch := (if A then Some ch else out_ch T),
    pend_o := pend_o T + (if A then 1 else 0), pend_w := pend_w T + (if W then 1 else 0),
    w_owner := (if W then q else w_owner T)\<rparr>)"
  using assms by (cases T; cases A; cases W) (auto simp: trip_defs)

lemma trip_returned:
  assumes "trip_inv ch me T" and "V \<Longrightarrow> \<not> kept me T"
  shows "trip_inv ch me (T\<lparr>pend_v := pend_v T + (if V then 1 else 0), v_owner := (if V then Some me else v_owner T)\<rparr>)"
  using assms by (cases T; cases V) (auto simp: trip_defs)

lemma trip_refunded:
  assumes "trip_inv ch me T" and "A \<Longrightarrow> pend_o T > 0" and "W \<Longrightarrow> pend_w T > 0" and "\<not> (A \<and> W)"
  shows "trip_inv ch me (T\<lparr>held := (if A then f else held T), out_ch := (if A then None else out_ch T),
    pend_o := pend_o T - (if A then 1 else 0), pend_w := pend_w T - (if W then 1 else 0),
    w_owner := (if W then q else w_owner T)\<rparr>)"
  using assms by (cases T; cases A; cases W) (auto simp: trip_defs)

lemma trip_voucher_refunded:
  assumes "trip_inv ch me T" and "V \<Longrightarrow> pend_v T > 0"
  shows "trip_inv ch me (T\<lparr>pend_v := pend_v T - (if V then 1 else 0), v_owner := (if V then q else v_owner T)\<rparr>)"
  using assms by (cases T; cases V) (auto simp: trip_defs)

lemma trip_arrived:
  assumes "trip_inv ch me T" and "A \<Longrightarrow> pend_o T > 0" and "W \<Longrightarrow> pend_w T > 0" and "\<not> A \<Longrightarrow> \<not> W \<Longrightarrow> q = v_owner T"
    and "\<not> (A \<and> W)"
  shows "trip_inv ch me (T\<lparr>pend_o := pend_o T - (if A then 1 else 0), pend_w := pend_w T - (if W then 1 else 0), v_owner := q\<rparr>)"
  using assms by (cases T; cases A; cases W) (auto simp: trip_defs)

text \<open>
  The voucher comes back: it redeems the token if that is away on the channel, and otherwise
  becomes a voucher itself; when the redemption is rolled back, the token strands.
\<close>

lemma trip_rolled_back:
  assumes "trip_inv ch me T" and "V \<Longrightarrow> pend_v T > 0"
  shows "trip_inv ch me (T\<lparr>out_ch := (if V \<and> out_ch T = Some ch then None else out_ch T)\<rparr>)"
  using assms by (cases T; cases V) (auto simp: trip_defs)

lemma trip_came_back:
  assumes "trip_inv ch me T" and "V \<Longrightarrow> pend_v T > 0" and "\<not> (V \<and> out_ch T = Some ch) \<Longrightarrow> f = held T"
    and "w_owner T = None \<Longrightarrow> \<not> V \<or> out_ch T = Some ch \<Longrightarrow> q = None"
  shows "trip_inv ch me (T\<lparr>held := f, out_ch := (if V \<and> out_ch T = Some ch then None else out_ch T),
    pend_v := pend_v T - (if V then 1 else 0), w_owner := q\<rparr>)"
  using assms by (cases T; cases V) (auto simp: trip_defs)

lemma trip_w_burned:
  "trip_inv ch me T \<Longrightarrow> trip_inv ch me (T\<lparr>w_owner := None\<rparr>)"
  unfolding trip_defs by (elim disjE) simp_all

lemma trip_v_burned:
  "trip_inv ch me T \<Longrightarrow> trip_inv ch me (T\<lparr>v_owner := None\<rparr>)"
  unfolding trip_defs by (elim disjE) auto

text \<open>A send moves the token it carries, and no other, to the bridge.\<close>

lemma send_native:
  assumes "bridge_inv b'" and "native b' a" and "real_addr a" and "CLASS_ID_TO_NFT_CONTRACT b' cls = Some c"
    and "owner_of M w' = set_owner c u v (owner_of M w)"
  shows "owner_of M w' a t = (if cls = native_class a \<and> u = t then v else owner_of M w a t)"
    and "cls = native_class a \<Longrightarrow> c = a"
proof -
  have "c = a \<longleftrightarrow> cls = native_class a"
    using registry_facts(3) [OF assms(1) _ assms(3)] registry_facts(4) [OF assms(1,2)] assms(4) by auto
  then show "owner_of M w' a t = (if cls = native_class a \<and> u = t then v else owner_of M w a t)"
    and "cls = native_class a \<Longrightarrow> c = a"
    by (auto simp: assms(5) set_owner_def)
qed

lemma send_class:
  assumes "bridge_inv b'" and "CLASS_ID_TO_NFT_CONTRACT b' = (CLASS_ID_TO_NFT_CONTRACT b)(cls \<mapsto> c)"
    and "CLASS_ID_TO_NFT_CONTRACT b cls = Some c \<or> CLASS_ID_TO_NFT_CONTRACT b cls = None \<and> cls = ClassId (addr_str c)"
    and "real_addr c" and "owner_of M w' = set_owner c u v (owner_of M w)" and "\<not> slash_free (class_id_str C)"
  shows "class_owner M b' w' C t = (if cls = C \<and> u = t then v else class_owner M b w C t)"
    and "cls = C \<Longrightarrow> class_owner M b w C t = owner_of M w c t"
proof -
  have known: "CLASS_ID_TO_NFT_CONTRACT b cls = Some c" if "cls = C"
    using assms(3,4,6) that by (auto simp: real_addr_def)
  then show "cls = C \<Longrightarrow> class_owner M b w C t = owner_of M w c t" by (simp add: class_owner_def)
  show "class_owner M b' w' C t = (if cls = C \<and> u = t then v else class_owner M b w C t)"
  proof (cases "cls = C")
    case True
    with known show ?thesis by (auto simp: class_owner_def assms(2,5) set_owner_def)
  next
    case False
    then have "CLASS_ID_TO_NFT_CONTRACT b C \<noteq> Some c"
      using registry_facts(2) [OF assms(1), of C c cls] by (auto simp: assms(2))
    with False show ?thesis by (auto simp: class_owner_def assms(2,5) set_owner_def split: option.splits)
  qed
qed

lemma trip_of_simps:
  "held (trip_of M self ends x a t s) \<longleftrightarrow> owner_of M (worlds s x) a t = Some (self x)"
  "out_ch (trip_of M self ends x a t s) = OUTGOING_CLASS_TOKEN_TO_CHANNEL (bridges s x) (native_class a, TokenId t)"
  "pend_o (trip_of M self ends x a t s) = pending M (flight s) (acks s) x (native_class a, TokenId t)"
  "pend_v (trip_of M self ends x a t s) = pending M (flight s) (acks s) (other x) (voucher_of (ends (other x)) (native_class a), TokenId t)"
  "pend_w (trip_of M self ends x a t s) =
     pending M (flight s) (acks s) x (voucher_of (ends x) (voucher_of (ends (other x)) (native_class a)), TokenId t)"
  "w_owner (trip_of M self ends x a t s) =
     class_owner M (bridges s x) (worlds s x) (voucher_of (ends x) (voucher_of (ends (other x)) (native_class a))) t"
  "v_owner (trip_of M self ends x a t s) =
     class_owner M (bridges s (other x)) (worlds s (other x)) (voucher_of (ends (other x)) (native_class a)) t"
  by (simp_all add: trip_of_def Let_def)

lemma trip_eqI:
  "held T = held T' \<Longrightarrow> out_ch T = out_ch T' \<Longrightarrow> pend_o T = pend_o T' \<Longrightarrow> pend_v T = pend_v T' \<Longrightarrow> pend_w T = pend_w T' \<Longrightarrow>
   w_owner T = w_owner T' \<Longrightarrow> v_owner T = v_owner T' \<Longrightarrow> T = (T' :: trip)"
  by (rule trip.equality) simp_all

lemma carries_iff:
  "pdec M (pkt_data p) = Ok d \<Longrightarrow> token_ids d = [u] \<Longrightarrow> carries M k p \<longleftrightarrow> k = (class_id d, u)"
  by (cases k) (auto simp: carries_def)

text \<open>What follows when a token changes place; the keys of the three classes of a journey are different.\<close>

lemma journey_keys:
  assumes "real_addr a"
  shows "native_class a \<noteq> voucher_of e c" "voucher_of e c \<noteq> native_class a"
    "\<not> slash_free (class_id_str (voucher_of e c))" "slash_free (class_id_str (native_class a))"
  using voucher_of_facts(2,3,4) assms by (auto simp: real_addr_def native_class_def)

lemma trip_send:
  assumes "bridge_inv (bridges s z)" and "send_tx M (self z) c u (bridges s z, worlds s z) msg (b', w')"
    and "sp_channel_id msg = channel_id (ends z)" and "real_addr a" and "z = x \<Longrightarrow> native b' a"
    and "trip_inv (channel_id (ends x)) (self (other x)) (trip_of M self ends x a t s)"
  shows "trip_inv (channel_id (ends x)) (self (other x)) (trip_of M self ends x a t
    ((put_chain z (b', w') s)\<lparr>flight := add_mset (z, transit (ends z) (ends (other z)) n msg) (flight s)\<rparr>))"
    (is "trip_inv _ _ ?T'")
proof (rule send_tx_effect [OF assms(2,1)])
  let ?T = "trip_of M self ends x a t s"
  let ?oc = "native_class a" and ?vc = "voucher_of (ends (other x)) (native_class a)"
  let ?wc = "voucher_of (ends x) ?vc"
  fix d q
  assume d: "pdec M (sp_data msg) = Ok d" "token_ids d = [TokenId u]" and c: "real_addr c"
    and reg: "CLASS_ID_TO_NFT_CONTRACT b' = (CLASS_ID_TO_NFT_CONTRACT (bridges s z))(class_id d \<mapsto> c)"
      "CLASS_ID_TO_NFT_CONTRACT (bridges s z) (class_id d) = Some c \<or>
       CLASS_ID_TO_NFT_CONTRACT (bridges s z) (class_id d) = None \<and> class_id d = ClassId (addr_str c)"
    and out: "OUTGOING_CLASS_TOKEN_TO_CHANNEL b' = (OUTGOING_CLASS_TOKEN_TO_CHANNEL (bridges s z))((class_id d, TokenId u) \<mapsto> sp_channel_id msg)"
    and own: "owner_of M (worlds s z) c u = Some q" "q \<noteq> self z"
      "owner_of M w' = set_owner c u (Some (self z)) (owner_of M (worlds s z))"
    and moves: "bridge_moves (bridges s z) b'"
  have inv': "bridge_inv b'" using moves assms(1) by (rule bridge_moves_inv)
  have carries: "carries M k (transit e e' n msg) \<longleftrightarrow> k = (class_id d, TokenId u)" for k e e'
    by (rule carries_iff) (use d in simp_all)
  note keys = journey_keys [OF assms(4)]
  note cls = send_class [OF inv' reg c own(3)]
  note put = trip_of_simps pending_add carries out assms(3)
  show ?thesis
  proof (cases "z = x")
    case True
    note nat = send_native [OF inv' assms(5) [OF True] assms(4) _ own(3), of "class_id d"]
    have T': "?T' = ?T\<lparr>held := (class_id d = ?oc \<and> u = t \<or> held ?T),
        out_ch := (if class_id d = ?oc \<and> u = t then Some (channel_id (ends x)) else out_ch ?T),
        pend_o := pend_o ?T + (if class_id d = ?oc \<and> u = t then 1 else 0),
        pend_w := pend_w ?T + (if class_id d = ?wc \<and> u = t then 1 else 0),
        w_owner := (if class_id d = ?wc \<and> u = t then Some (self x) else w_owner ?T)\<rparr>"
      by (rule trip_eqI) (use True in \<open>auto simp: put reg(1) nat(1) cls(1) keys(3)\<close>)
    show ?thesis unfolding T'
    proof (rule trip_sent [OF assms(6)])
      show "\<not> held ?T" if "class_id d = ?oc \<and> u = t"
        using that nat(2) own True reg(1) by (auto simp: trip_of_simps)
      show "w_owner ?T \<noteq> None" if "class_id d = ?wc \<and> u = t"
        using that cls(2) [OF keys(3)] own True by (auto simp: trip_of_simps)
    qed (use keys in auto)
  next
    case False
    then have z: "z = other x" using side_cases [of z x] by simp
    have T': "?T' = ?T\<lparr>pend_v := pend_v ?T + (if class_id d = ?vc \<and> u = t then 1 else 0),
        v_owner := (if class_id d = ?vc \<and> u = t then Some (self (other x)) else v_owner ?T)\<rparr>"
      by (rule trip_eqI) (use z in \<open>auto simp: put cls(1) keys(3)\<close>)
    show ?thesis unfolding T'
      by (rule trip_returned [OF assms(6)]) (use cls(2) [OF keys(3)] own z in \<open>auto simp: trip_of_simps kept_def\<close>)
  qed
qed

text \<open>A refund gives the token it carries back, and no other, and settles its transfer.\<close>

lemma trip_refund:
  assumes inv: "bridge_inv (bridges s z)" and p: "pdec M (pkt_data p) = Ok d" "token_ids d = [u]"
    and c: "CLASS_ID_TO_NFT_CONTRACT (bridges s z) (class_id d) = Some c"
    and own: "owner_of M w' = give c (set (token_ids d)) (Some q) (owner_of M (worlds s z))"
    and a: "real_addr a" "z = x \<Longrightarrow> native (bridges s z) a"
    and pend: "\<And>y k. pending M (flight s) (acks s) y k = pending M F A y k + (if z = y \<and> carries M k p then 1 else 0)"
    and T: "trip_inv (channel_id (ends x)) (self (other x)) (trip_of M self ends x a t s)"
  shows "trip_inv (channel_id (ends x)) (self (other x)) (trip_of M self ends x a t
    ((put_chain z (refunded d (bridges s z), w') s)\<lparr>flight := F, acks := A\<rparr>))" (is "trip_inv _ _ ?T'")
proof -
  let ?T = "trip_of M self ends x a t s"
  let ?oc = "native_class a" and ?vc = "voucher_of (ends (other x)) (native_class a)"
  let ?wc = "voucher_of (ends x) ?vc"
  have carries: "carries M k p \<longleftrightarrow> k = (class_id d, u)" for k by (rule carries_iff [OF p])
  have maps: "CLASS_ID_TO_NFT_CONTRACT (refunded d (bridges s z)) = CLASS_ID_TO_NFT_CONTRACT (bridges s z)"
    "OUTGOING_CLASS_TOKEN_TO_CHANNEL (refunded d (bridges s z)) = (OUTGOING_CLASS_TOKEN_TO_CHANNEL (bridges s z))((class_id d, u) := None)"
    by (auto simp: refunded_def p(2))
  note keys = journey_keys [OF a(1)]
  note cls = class_owner_give [OF inv c maps(1) own, unfolded p(2)]
  show ?thesis
  proof (cases "z = x")
    case True
    note nat = native_give [OF inv a(2) [OF True] a(1) c]
    have T': "?T' = ?T\<lparr>held := (if class_id d = ?oc \<and> u = TokenId t then q = self x else held ?T),
        out_ch := (if class_id d = ?oc \<and> u = TokenId t then None else out_ch ?T),
        pend_o := pend_o ?T - (if class_id d = ?oc \<and> u = TokenId t then 1 else 0),
        pend_w := pend_w ?T - (if class_id d = ?wc \<and> u = TokenId t then 1 else 0),
        w_owner := (if class_id d = ?wc \<and> u = TokenId t then Some q else w_owner ?T)\<rparr>"
      by (rule trip_eqI) (use True in \<open>auto simp: trip_of_simps pend carries maps [unfolded True] own [unfolded True] nat cls [unfolded True] p(2)\<close>)
    show ?thesis unfolding T'
      by (rule trip_refunded [OF T]) (use keys in \<open>auto simp: trip_of_simps pend carries True\<close>)
  next
    case False
    then have z: "z = other x" using side_cases [of z x] by simp
    have T': "?T' = ?T\<lparr>pend_v := pend_v ?T - (if class_id d = ?vc \<and> u = TokenId t then 1 else 0),
        v_owner := (if class_id d = ?vc \<and> u = TokenId t then Some q else v_owner ?T)\<rparr>"
      by (rule trip_eqI) (use z in \<open>auto simp: trip_of_simps pend carries cls [unfolded z]\<close>)
    show ?thesis unfolding T'
      by (rule trip_voucher_refunded [OF T]) (auto simp: trip_of_simps pend carries z)
  qed
qed

text \<open>A burn after a successful transfer removes the vouchers it names and settles nothing.\<close>

lemma trip_burn:
  assumes inv: "bridge_inv (bridges s z)" and c: "CLASS_ID_TO_NFT_CONTRACT (bridges s z) cls = Some c"
    and own: "owner_of M w' = give c ts None (owner_of M (worlds s z))"
    and maps: "CLASS_ID_TO_NFT_CONTRACT b' = CLASS_ID_TO_NFT_CONTRACT (bridges s z)"
      "OUTGOING_CLASS_TOKEN_TO_CHANNEL b' = OUTGOING_CLASS_TOKEN_TO_CHANNEL (bridges s z)"
    and foreign: "ts \<noteq> {} \<Longrightarrow> \<not> slash_free (class_id_str cls)"
    and a: "real_addr a" "z = x \<Longrightarrow> native (bridges s z) a"
    and pend: "\<And>y k. pending M F A y k = pending M (flight s) (acks s) y k"
    and T: "trip_inv (channel_id (ends x)) (self (other x)) (trip_of M self ends x a t s)"
  shows "trip_inv (channel_id (ends x)) (self (other x)) (trip_of M self ends x a t
    ((put_chain z (b', w') s)\<lparr>flight := F, acks := A\<rparr>))" (is "trip_inv _ _ ?T'")
proof -
  let ?T = "trip_of M self ends x a t s"
  let ?vc = "voucher_of (ends (other x)) (native_class a)"
  let ?wc = "voucher_of (ends x) ?vc"
  note keys = journey_keys [OF a(1)]
  note cls = class_owner_give [OF inv c maps(1) own]
  show ?thesis
  proof (cases "z = x")
    case True
    have "\<not> (cls = native_class a \<and> TokenId t \<in> ts)" using foreign keys(4) by auto
    with native_give [OF inv a(2) [OF True] a(1) c] have "owner_of M w' a t = owner_of M (worlds s z) a t"
      by (simp add: own if_not_P)
    then have "?T' = ?T\<lparr>w_owner := (if cls = ?wc \<and> TokenId t \<in> ts then None else w_owner ?T)\<rparr>"
      by (intro trip_eqI) (use True in \<open>auto simp: trip_of_simps pend maps cls [unfolded True] eq_commute [of ?wc]\<close>)
    with trip_w_burned [OF T] T show ?thesis by (cases "cls = ?wc \<and> TokenId t \<in> ts") (simp_all add: if_not_P)
  next
    case False
    then have z: "z = other x" using side_cases [of z x] by simp
    have "?T' = ?T\<lparr>v_owner := (if cls = ?vc \<and> TokenId t \<in> ts then None else v_owner ?T)\<rparr>"
      by (intro trip_eqI) (use z in \<open>auto simp: trip_of_simps pend cls [unfolded z] eq_commute [of ?vc]\<close>)
    with trip_v_burned [OF T] T show ?thesis by (cases "cls = ?vc \<and> TokenId t \<in> ts") (simp_all add: if_not_P)
  qed
qed

lemma incoming_not_native:
  assumes "bridge_inv b" and "INCOMING_CLASS_TOKEN_TO_CHANNEL b (c, t) = Some ch"
  shows "\<not> slash_free (class_id_str c)"
proof -
  have "foreign_class ch c" using assms by (fastforce simp: bridge_inv_def token_inv_def)
  then show ?thesis by (auto simp: foreign_class_def prefixed_not_slash_free)
qed

lemma pending_receive:
  assumes "(z, p) \<in># F"
  shows "ack_failed M a \<Longrightarrow> pending M (F - {#(z, p)#}) (add_mset (z, p, a) A) y k = pending M F A y k"
    and "\<not> ack_failed M a \<Longrightarrow> pending M F A y k =
      pending M (F - {#(z, p)#}) (add_mset (z, p, a) A) y k + (if z = y \<and> carries M k p then 1 else 0)"
  using pending_remove(1) [OF assms, of M A y k] by (simp_all add: pending_add)

text \<open>The native token, or a voucher of the voucher, arrives on the other chain.\<close>

lemma trip_receive_voucher_side:
  assumes ok: "chain_ok M" and inv: "bridge_inv (bridges s (other x))" and p: "link_packet M ends x p" "(x, p) \<in># flight s"
    and tx: "packet_tx M (self (other x)) p (bridges s (other x), worlds s (other x)) ack (b', w')" and a: "real_addr a"
    and T: "trip_inv (channel_id (ends x)) (self (other x)) (trip_of M self ends x a t s)"
  shows "trip_inv (channel_id (ends x)) (self (other x)) (trip_of M self ends x a t
    ((put_chain (other x) (b', w') s)\<lparr>flight := flight s - {#(x, p)#}, acks := add_mset (x, p, ack) (acks s)\<rparr>))"
    (is "trip_inv _ _ ?T'")
proof -
  let ?T = "trip_of M self ends x a t s"
  let ?oc = "native_class a" and ?vc = "voucher_of (ends (other x)) (native_class a)"
  let ?wc = "voucher_of (ends x) ?vc"
  note keys = journey_keys [OF a]
  note pend = pending_receive [OF p(2), where M = M and a = ack and A = "acks s"]
  obtain d u where d: "pdec M (pkt_data p) = Ok d" "packet_wf d" "token_ids d = [u]"
    and e: "src p = ends x" "dest p = ends (other x)" using p(1) by (auto simp: link_packet_def)
  have carries: "carries M k p \<longleftrightarrow> k = (class_id d, u)" for k by (rule carries_iff [OF d(1,3)])
  note split = packet_tx_cases [OF ok tx]
  show ?thesis
  proof (cases "ack_failed M ack")
    case True
    then have "class_owner M b' w' ?vc t = class_owner M (bridges s (other x)) (worlds s (other x)) ?vc t"
      using split by (auto simp: class_owner_def)
    then have "?T' = ?T" by (intro trip_eqI) (simp_all add: trip_of_simps pend(1) [OF True])
    with T show ?thesis by simp
  next
    case False
    with split d(1) have eff: "packet_effect M p d (bridges s (other x), worlds s (other x)) (b', w')" by auto
    note commit = commit_at_voucher_side [OF inv packet_tx_safe(1) [OF ok tx inv] eff d(2,3) a, unfolded e, of t]
    have T': "?T' = ?T\<lparr>pend_o := pend_o ?T - (if class_id d = ?oc \<and> u = TokenId t then 1 else 0),
        pend_w := pend_w ?T - (if class_id d = ?wc \<and> u = TokenId t then 1 else 0),
        v_owner := class_owner M b' w' ?vc t\<rparr>"
      by (rule trip_eqI) (auto simp: trip_of_simps pend(2) [OF False] carries)
    show ?thesis unfolding T'
      by (rule trip_arrived [OF T]) (use keys commit(2) in \<open>auto simp: trip_of_simps pend(2) [OF False] carries\<close>)
  qed
qed

text \<open>A packet of the other chain arrives at home: the voucher comes back, or something else comes.\<close>

lemma trip_receive_native_side:
  assumes ok: "chain_ok M" and inv: "bridge_inv (bridges s x)" and p: "link_packet M ends (other x) p" "(other x, p) \<in># flight s"
    and tx: "packet_tx M (self x) p (bridges s x, worlds s x) ack (b', w')" and a: "real_addr a" "native b' a"
    and T: "trip_inv (channel_id (ends x)) (self (other x)) (trip_of M self ends x a t s)"
  shows "trip_inv (channel_id (ends x)) (self (other x)) (trip_of M self ends x a t
    ((put_chain x (b', w') s)\<lparr>flight := flight s - {#(other x, p)#}, acks := add_mset (other x, p, ack) (acks s)\<rparr>))"
    (is "trip_inv _ _ ?T'")
proof -
  let ?T = "trip_of M self ends x a t s"
  let ?oc = "native_class a" and ?vc = "voucher_of (ends (other x)) (native_class a)"
  let ?wc = "voucher_of (ends x) ?vc"
  note keys = journey_keys [OF a(1)]
  note pend = pending_receive [OF p(2), where M = M and a = ack and A = "acks s"]
  note safe = packet_tx_safe [OF ok tx inv]
  obtain d u where d: "pdec M (pkt_data p) = Ok d" "packet_wf d" "token_ids d = [u]"
    and e: "src p = ends (other x)" "dest p = ends x" using p(1) by (auto simp: link_packet_def)
  have carries: "carries M k p \<longleftrightarrow> k = (class_id d, u)" for k by (rule carries_iff [OF d(1,3)])
  let ?returns = "class_id d = ?vc \<and> u = TokenId t"
  have coming: "?returns \<Longrightarrow> pend_v ?T > 0"
    using pending_remove(1) [OF p(2), of M "acks s" "other x" "(?vc, TokenId t)"] by (simp add: trip_of_simps carries)
  have out: "OUTGOING_CLASS_TOKEN_TO_CHANNEL (received p d (bridges s x)) (?oc, TokenId t) =
      (if ?returns \<and> out_ch ?T = Some (channel_id (ends x)) then None else out_ch ?T)"
    using received_outgoing [OF d(2,3)] by (auto simp: e trip_of_simps)
  note split = packet_tx_cases [OF ok tx]
  consider (reject) "ack_failed M ack" "b' = bridges s x" "w' = worlds s x"
    | (rollback) "ack_failed M ack" "b' = received p d (bridges s x)" "w' = worlds s x"
    | (commit) "\<not> ack_failed M ack" "packet_effect M p d (bridges s x, worlds s x) (b', w')"
    using split d(1) by (auto split: if_splits)
  then show ?thesis
  proof cases
    case reject
    then have "?T' = ?T" by (intro trip_eqI) (simp_all add: trip_of_simps pend(1))
    with T show ?thesis by simp
  next
    case rollback
    then have T': "?T' = ?T\<lparr>out_ch := (if ?returns \<and> out_ch ?T = Some (channel_id (ends x)) then None else out_ch ?T)\<rparr>"
      by (intro trip_eqI) (simp_all add: trip_of_simps pend(1) out [unfolded trip_of_simps] class_owner_def)
    show ?thesis unfolding T' by (rule trip_rolled_back [OF T coming])
  next
    case commit
    note eff = commit_at_native_side [OF inv safe(1) native_mono [OF safe(3) a(2)] a(2,1) commit(2) d(2,3), unfolded e, of t]
    have out': "OUTGOING_CLASS_TOKEN_TO_CHANNEL b' = OUTGOING_CLASS_TOKEN_TO_CHANNEL (received p d (bridges s x))"
      using commit(2) by (simp add: packet_effect_def)
    have T': "?T' = ?T\<lparr>held := owner_of M w' a t = Some (self x),
        out_ch := (if ?returns \<and> out_ch ?T = Some (channel_id (ends x)) then None else out_ch ?T),
        pend_v := pend_v ?T - (if ?returns then 1 else 0), w_owner := class_owner M b' w' ?wc t\<rparr>"
      by (rule trip_eqI) (auto simp: trip_of_simps out' out [unfolded trip_of_simps] pend(2) [OF commit(1)] carries)
    show ?thesis unfolding T'
      by (rule trip_came_back [OF T coming]) (use eff in \<open>auto simp: trip_of_simps\<close>)
  qed
qed

text \<open>A packet of another channel redeems nothing and makes vouchers of other classes only.\<close>

lemma foreign_frame:
  assumes ok: "chain_ok M" and tx: "packet_tx M self p (b, w) ack (b', w')" and inv: "bridge_inv b"
    and out: "\<And>k. OUTGOING_CLASS_TOKEN_TO_CHANNEL b k \<noteq> Some (channel_id (dest p))"
  shows "OUTGOING_CLASS_TOKEN_TO_CHANNEL b' = OUTGOING_CLASS_TOKEN_TO_CHANNEL b"
    and "endpoint_ok (dest p) \<Longrightarrow> endpoint_ok e \<Longrightarrow> e \<noteq> dest p \<Longrightarrow>
      class_owner M b' w' (voucher_of e c) t = class_owner M b w (voucher_of e c) t"
    and "native b' a \<Longrightarrow> real_addr a \<Longrightarrow> owner_of M w' a t = owner_of M w a t"
proof -
  note safe = packet_tx_safe [OF ok tx inv]
  have none: "redeemed_tokens b p d = []" if "packet_wf d" for d
  proof -
    have "set (redeemed_tokens b p d) = {}"
      using redeemed_tokens_set [OF that, of b p] out by (auto simp: returning_iff)
    then show ?thesis by simp
  qed
  consider (same) "OUTGOING_CLASS_TOKEN_TO_CHANNEL b' = OUTGOING_CLASS_TOKEN_TO_CHANNEL b"
      "CLASS_ID_TO_NFT_CONTRACT b' = CLASS_ID_TO_NFT_CONTRACT b" "w' = w"
    | (commit) d where "packet_wf d" "packet_effect M p d (b, w) (b', w')"
    using packet_tx_cases [OF ok tx] by (auto simp: received_def moved_def none split: if_splits)
  note split = this
  show "OUTGOING_CLASS_TOKEN_TO_CHANNEL b' = OUTGOING_CLASS_TOKEN_TO_CHANNEL b"
    by (rule split) (auto simp: packet_effect_def received_def moved_def none)
  show "class_owner M b' w' (voucher_of e c) t = class_owner M b w (voucher_of e c) t"
    if "endpoint_ok (dest p)" "endpoint_ok e" "e \<noteq> dest p"
  proof (rule split)
    fix d
    assume d: "packet_wf d" "packet_effect M p d (b, w) (b', w')"
    show ?thesis
      by (rule commit_frame [OF inv safe(1) d(2)])
        (use that none [OF d(1)] in \<open>auto simp: voucher_class_of voucher_of_endpoint\<close>)
  qed (simp add: class_owner_def)
  show "owner_of M w' a t = owner_of M w a t" if "native b' a" "real_addr a"
  proof (rule split)
    fix d
    assume d: "packet_wf d" "packet_effect M p d (b, w) (b', w')"
    show ?thesis
      by (rule commit_native_frame [OF inv safe(1) native_mono [OF safe(3) that(1)] that d(2)]) (simp add: none [OF d(1)])
  qed simp
qed

lemma trip_foreign:
  assumes ok: "link_ok M ends" and wf: "link_wf M ends s" and p: "endpoint_ok (dest p)" "channel_id (dest p) \<noteq> channel_id (ends z)"
    and tx: "packet_tx M (self z) p (bridges s z, worlds s z) ack (b', w')" and a: "real_addr a" "z = x \<Longrightarrow> native b' a"
  shows "trip_of M self ends x a t (put_chain z (b', w') s) = trip_of M self ends x a t s"
proof -
  have ok': "chain_ok M" "endpoint_ok (ends z)" using ok by (simp_all add: link_ok_def)
  have wf': "bridge_inv (bridges s z)" "OUTGOING_CLASS_TOKEN_TO_CHANNEL (bridges s z) k \<noteq> Some (channel_id (dest p))" for k
    using wf p(2) unfolding link_wf_def by metis+
  have "ends z \<noteq> dest p" using p(2) by auto
  note frame = foreign_frame(1) [OF ok'(1) tx wf'] foreign_frame(2) [OF ok'(1) tx wf' p(1) ok'(2) this]
    foreign_frame(3) [OF ok'(1) tx wf' a(2) a(1)]
  show ?thesis
  proof (cases "z = x")
    case True
    show ?thesis by (rule trip_eqI) (use True in \<open>simp_all add: trip_of_simps frame [unfolded True]\<close>)
  next
    case False
    then have z: "z = other x" using side_cases [of z x] by simp
    show ?thesis by (rule trip_eqI) (simp_all add: trip_of_simps z frame(2) [unfolded z])
  qed
qed

text \<open>Holders may hand the token to the bridge, where it strands, and may move or burn what is theirs.\<close>

lemma trip_holders_native:
  "trip_inv ch me T \<Longrightarrow> (held T \<longrightarrow> f) \<Longrightarrow> (w_owner T = None \<longrightarrow> q = None) \<Longrightarrow> trip_inv ch me (T\<lparr>held := f, w_owner := q\<rparr>)"
  unfolding trip_defs by (cases f) (elim disjE; simp)+

lemma trip_holders_voucher:
  "trip_inv ch me T \<Longrightarrow> (kept me T \<longrightarrow> r = None \<or> r = Some me) \<Longrightarrow> trip_inv ch me (T\<lparr>v_owner := r\<rparr>)"
  unfolding trip_defs by (elim disjE) auto

lemma holders_class:
  assumes "holders_move M me b w w'"
  shows "owner_of M w a t = Some me \<Longrightarrow> owner_of M w' a t = Some me"
    and "class_owner M b w c t = Some me \<Longrightarrow> class_owner M b w' c t = Some me"
    and "\<not> slash_free (class_id_str c) \<Longrightarrow> class_owner M b w c t = None \<Longrightarrow> class_owner M b w' c t = None"
  using assms by (auto simp: holders_move_def class_owner_def split: option.splits)

lemma trip_holders:
  assumes move: "holders_move M (self z) (bridges s z) (worlds s z) w'" and a: "real_addr a"
    and T: "trip_inv (channel_id (ends x)) (self (other x)) (trip_of M self ends x a t s)"
  shows "trip_inv (channel_id (ends x)) (self (other x)) (trip_of M self ends x a t (put_chain z (bridges s z, w') s))"
    (is "trip_inv _ _ ?T'")
proof (cases "z = x")
  case True
  let ?T = "trip_of M self ends x a t s"
  note hold = holders_class [OF move [unfolded True]]
  have "?T' = ?T\<lparr>held := held ?T', w_owner := w_owner ?T'\<rparr>"
    by (rule trip_eqI) (simp_all add: trip_of_simps True)
  moreover have "trip_inv (channel_id (ends x)) (self (other x)) (?T\<lparr>held := held ?T', w_owner := w_owner ?T'\<rparr>)"
    by (rule trip_holders_native [OF T]) (simp_all add: trip_of_simps True hold journey_keys(3) [OF a])
  ultimately show ?thesis by simp
next
  case False
  then have z: "z = other x" using side_cases [of z x] by simp
  let ?T = "trip_of M self ends x a t s"
  note hold = holders_class [OF move [unfolded z]]
  have "?T' = ?T\<lparr>v_owner := v_owner ?T'\<rparr>"
    by (rule trip_eqI) (simp_all add: trip_of_simps z)
  moreover have "trip_inv (channel_id (ends x)) (self (other x)) (?T\<lparr>v_owner := v_owner ?T'\<rparr>)"
    by (rule trip_holders_voucher [OF T]) (use hold journey_keys(3) [OF a] in \<open>auto simp: trip_of_simps z kept_def\<close>)
  ultimately show ?thesis by simp
qed

text \<open>Timeouts and acknowledgements as the link makes them.\<close>

lemma trip_timeout:
  assumes ok: "chain_ok M" and inv: "bridge_inv (bridges s z)" and p: "link_packet M ends z p" "(z, p) \<in># flight s"
    and tx: "timeout_tx M (self z) p (bridges s z, worlds s z) (b', w')" and a: "real_addr a" "z = x \<Longrightarrow> native b' a"
    and T: "trip_inv (channel_id (ends x)) (self (other x)) (trip_of M self ends x a t s)"
  shows "trip_inv (channel_id (ends x)) (self (other x)) (trip_of M self ends x a t
    ((put_chain z (b', w') s)\<lparr>flight := flight s - {#(z, p)#}\<rparr>))"
proof (rule timeout_tx_effect [OF ok tx])
  fix d c
  assume d: "pdec M (pkt_data p) = Ok d" "CLASS_ID_TO_NFT_CONTRACT (bridges s z) (class_id d) = Some c"
    "b' = refunded d (bridges s z)"
    "owner_of M w' = give c (set (token_ids d)) (Some (Addr (sender d))) (owner_of M (worlds s z))"
    and moves: "bridge_moves (bridges s z) b'"
  obtain u where u: "token_ids d = [u]" using p(1) d(1) by (auto simp: link_packet_def)
  have nat: "z = x \<Longrightarrow> native (bridges s z) a" using a(2) native_mono [OF moves] by blast
  show ?thesis
    by (subst put_chain_net(1), unfold d(3), rule trip_refund [OF inv d(1) u d(2,4) a(1) nat _ T]) (simp_all add: pending_remove(1) [OF p(2)])
qed

lemma trip_ack:
  assumes ok: "chain_ok M" and inv: "bridge_inv (bridges s z)" and p: "link_packet M ends z p" "(z, p, ack) \<in># acks s"
    and tx: "ack_tx M (self z) \<lparr>ack_data = ack, original_packet = p\<rparr> (bridges s z, worlds s z) (b', w')"
    and a: "real_addr a" "z = x \<Longrightarrow> native b' a"
    and T: "trip_inv (channel_id (ends x)) (self (other x)) (trip_of M self ends x a t s)"
  shows "trip_inv (channel_id (ends x)) (self (other x)) (trip_of M self ends x a t
    ((put_chain z (b', w') s)\<lparr>acks := acks s - {#(z, p, ack)#}\<rparr>))"
proof (rule ack_tx_effect [OF ok tx], unfold IbcPacketAckMsg.simps)
  fix d :: NonFungibleTokenPacketData and c
  let ?ts = "burned_tokens (bridges s z) (class_id d) (channel_id (src p)) (token_ids d)"
  assume d: "pdec M (pkt_data p) = Ok d" "CLASS_ID_TO_NFT_CONTRACT (bridges s z) (class_id d) = Some c"
    and eff: "if ack_failed M ack
     then b' = refunded d (bridges s z) \<and>
       owner_of M w' = give c (set (token_ids d)) (Some (Addr (sender d))) (owner_of M (worlds s z))
     else let ts = ?ts in b' = forgotten (class_id d) ts (bridges s z) \<and> owner_of M w' = give c (set ts) None (owner_of M (worlds s z))"
    and moves: "bridge_moves (bridges s z) b'"
  obtain u where u: "token_ids d = [u]" using p(1) d(1) by (auto simp: link_packet_def)
  have nat: "z = x \<Longrightarrow> native (bridges s z) a" using a(2) native_mono [OF moves] by blast
  note pend = pending_remove(2) [OF p(2)]
  show ?thesis
  proof (cases "ack_failed M ack")
    case True
    with eff have b': "b' = refunded d (bridges s z)"
      "owner_of M w' = give c (set (token_ids d)) (Some (Addr (sender d))) (owner_of M (worlds s z))" by simp_all
    show ?thesis by (subst put_chain_net(2), unfold b'(1), rule trip_refund [OF inv d(1) u d(2) b'(2) a(1) nat _ T]) (simp_all add: pend True)
  next
    case False
    with eff have b': "b' = forgotten (class_id d) ?ts (bridges s z)"
      "owner_of M w' = give c (set ?ts) None (owner_of M (worlds s z))" by (simp_all add: Let_def)
    have foreign: "\<not> slash_free (class_id_str (class_id d))" if "set ?ts \<noteq> {}"
      using that incoming_not_native [OF inv] burned_tokens_set [of "bridges s z" "class_id d" "channel_id (src p)" "token_ids d"]
      by auto
    show ?thesis
      by (subst put_chain_net(2), rule trip_burn [OF inv d(2) b'(2) _ _ foreign a(1) nat _ T]) (simp_all add: pend False b'(1) forgotten_def)
  qed
qed

lemma trip_admin:
  assumes "bridge_step (bridges s z) e b" and "is_admin e" and "bridge_inv (bridges s z)"
  shows "trip_of M self ends x a t (put_chain z (b, worlds s z) s) = trip_of M self ends x a t s"
proof -
  note safe = admin_safe [OF assms]
  have "class_owner M b = class_owner M (bridges s z)" by (simp add: class_owner_def fun_eq_iff safe(3))
  then show ?thesis by (intro trip_eqI) (auto simp: trip_of_simps safe(2))
qed

section \<open>The invariant of the link\<close>

definition link_inv ::
  "'w chain_model \<Rightarrow> (side \<Rightarrow> addr) \<Rightarrow> (side \<Rightarrow> IbcEndpoint) \<Rightarrow> 'w link \<Rightarrow> bool" where
  "link_inv M self ends s \<longleftrightarrow>
     link_wf M ends s \<and>
     (\<forall>x a t. real_addr a \<and> native (bridges s x) a \<longrightarrow>
        trip_inv (channel_id (ends x)) (self (other x)) (trip_of M self ends x a t s))"

lemma link_inv_init:
  assumes "link_init s"
  shows "link_inv M self ends s"
proof -
  have "trip_inv ch me (trip_of M self ends x a t s)" for ch me x a t
    using assms bridge_init_maps [of "bridges s x"] bridge_init_maps [of "bridges s (other x)"]
    by (cases "held (trip_of M self ends x a t s)")
      (auto simp: link_init_def trip_defs trip_of_simps pending_def class_owner_def)
  with link_wf_init [OF assms] show ?thesis by (simp add: link_inv_def)
qed

text \<open>Every step of the link takes a turn of the journey.\<close>

lemma native_put:
  assumes "native (((bridges s)(z := b')) x) a" and "bridge_moves (bridges s z) b'"
  shows "native (bridges s x) a" and "z = x \<Longrightarrow> native b' a"
  using assms native_mono by (cases "z = x"; auto)+

lemma trip_received:
  assumes ok: "chain_ok M" and wf: "link_wf M ends s" and p: "(z, p) \<in># flight s"
    and tx: "packet_tx M (self (other z)) p (bridges s (other z), worlds s (other z)) ack (b', w')"
    and a: "real_addr a" "other z = x \<Longrightarrow> native b' a"
    and T: "trip_inv (channel_id (ends x)) (self (other x)) (trip_of M self ends x a t s)"
  shows "trip_inv (channel_id (ends x)) (self (other x)) (trip_of M self ends x a t
    ((put_chain (other z) (b', w') s)\<lparr>flight := flight s - {#(z, p)#}, acks := add_mset (z, p, ack) (acks s)\<rparr>))"
proof -
  have bi: "bridge_inv (bridges s y)" and fl: "link_packet M ends z p" for y using wf p by (simp_all add: link_wf_def)
  show ?thesis
  proof (cases "z = x")
    case True
    show ?thesis unfolding True
      by (rule trip_receive_voucher_side [OF ok bi fl [unfolded True] p [unfolded True] tx [unfolded True] a(1) T])
  next
    case False
    then have zx: "z = other x" using side_cases [of z x] by simp
    note z = zx [THEN arg_cong [of _ _ other], unfolded other_simps]
    show ?thesis unfolding z unfolding zx
      by (rule trip_receive_native_side [OF ok bi fl [unfolded zx] p [unfolded zx] tx [unfolded z] a(1) a(2) [OF z] T])
  qed
qed

lemma trip_step:
  assumes ok: "link_ok M ends" and step: "link_step M self ends s s'" and wf: "link_wf M ends s"
    and a: "real_addr a" "native (bridges s' x) a"
    and T: "native (bridges s x) a \<Longrightarrow> trip_inv (channel_id (ends x)) (self (other x)) (trip_of M self ends x a t s)"
  shows "trip_inv (channel_id (ends x)) (self (other x)) (trip_of M self ends x a t s')"
proof -
  have ok': "chain_ok M" using ok by (simp add: link_ok_def)
  have bi: "bridge_inv (bridges s z)" for z using wf by (simp add: link_wf_def)
  from step show ?thesis
  proof (cases rule: link_step.cases)
    case (link_send z c u msg zz n)
    moreover obtain b' w' where z: "zz = (b', w')" by fastforce
    moreover have "bridge_moves (bridges s z) b'" by (rule send_tx_effect [OF link_send(2) [unfolded z] bi])
    ultimately show ?thesis using a native_put [of s z b' x a] T by (auto intro!: trip_send [OF bi])
  next
    case (link_receive z p ack zz)
    moreover obtain b' w' where z: "zz = (b', w')" by fastforce
    moreover note packet_tx_safe(3) [OF ok' link_receive(3) [unfolded z] bi]
    ultimately show ?thesis using a native_put [of s "other z" b' x a] T by (auto intro!: trip_received [OF ok' wf])
  next
    case (link_timeout z p zz)
    moreover obtain b' w' where z: "zz = (b', w')" by fastforce
    moreover note timeout_tx_safe(3) [OF ok' link_timeout(3) [unfolded z] bi]
    moreover have "link_packet M ends z p" using wf link_timeout(2) by (simp add: link_wf_def)
    ultimately show ?thesis using a native_put [of s z b' x a] T by (auto intro!: trip_timeout [OF ok' bi])
  next
    case (link_ack z p ack zz)
    moreover obtain b' w' where z: "zz = (b', w')" by fastforce
    moreover note ack_tx_safe(3) [OF ok' link_ack(3) [unfolded z] bi]
    moreover have "link_packet M ends z p" using wf link_ack(2) unfolding link_wf_def by blast
    ultimately show ?thesis using a native_put [of s z b' x a] T by (auto intro!: trip_ack [OF ok' bi])
  next
    case (link_foreign p z ack zz)
    moreover obtain b' w' where z: "zz = (b', w')" by fastforce
    moreover note packet_tx_safe(3) [OF ok' link_foreign(4) [unfolded z] bi]
    ultimately show ?thesis
      using a native_put [of s z b' x a] T trip_foreign [where self = self and z = z and x = x, OF ok wf link_foreign(2,3) link_foreign(4) [unfolded z] a(1)] by (cases "z = x") simp_all
  next
    case (link_holders z w)
    with a T show ?thesis by (auto intro!: trip_holders)
  next
    case (link_admin z e b)
    with a T native_put [of s z b x a] admin_safe(4) [OF link_admin(2,3) bi] trip_admin [OF link_admin(2,3) bi]
    show ?thesis by simp
  qed
qed

lemma link_inv_step:
  assumes "link_ok M ends" and "link_step M self ends s s'" and "link_inv M self ends s"
  shows "link_inv M self ends s'"
  using assms link_wf_step [OF assms(1,2)] trip_step [OF assms(1,2)] by (simp add: link_inv_def)

interpretation link_safe: inductive_invariant link_init "\<lambda>s t. link_ok M ends \<and> link_step M self ends s t" "link_inv M self ends"
  for M :: "'w chain_model" and self ends
  by unfold_locales (auto intro: link_inv_init link_inv_step)

definition link_reachable :: "'w chain_model \<Rightarrow> (side \<Rightarrow> addr) \<Rightarrow> (side \<Rightarrow> IbcEndpoint) \<Rightarrow> 'w link \<Rightarrow> bool" where
  "link_reachable M self ends = reach link_init (link_step M self ends)"

lemma link_reachable_inv:
  assumes "link_ok M ends" and "link_reachable M self ends s"
  shows "link_inv M self ends s"
  using link_safe.inv_reach [of M ends self s] assms by (simp add: link_reachable_def)

section \<open>Properties\<close>

text \<open>C1: A token and its voucher are never both in circulation. Two chains, each with its bridge and its
  cw721 collections, are joined by a channel; in any history of sends, packet receipts (accepted,
  rejected or rolled back), acknowledgements, timeouts, packets of other channels, moves of the
  holders, pauses, migrations and proxy changes, a token of a collection that is at home on its
  chain is owned by the bridge of that chain, or its voucher on the other chain does not
  exist or is owned by the bridge there.\<close>

theorem token_in_one_place:
  assumes "link_ok M ends" and "link_reachable M self ends s" and "real_addr a" and "native (bridges s x) a"
  shows "owner_of M (worlds s x) a t = Some (self x) \<or>
    class_owner M (bridges s (other x)) (worlds s (other x)) (voucher_of (ends (other x)) (native_class a)) t
      \<in> {None, Some (self (other x))}"
proof -
  have "trip_inv (channel_id (ends x)) (self (other x)) (trip_of M self ends x a t s)"
    using link_reachable_inv [OF assms(1,2)] assms(3,4) by (simp add: link_inv_def)
  then show ?thesis by (auto simp: trip_defs trip_of_simps)
qed

text \<open>
  The history of one transfer: after the send and the receipt of the packet, bob owns the voucher
  and the bridge owns the token.
\<close>

primrec trip_ends :: "side \<Rightarrow> IbcEndpoint" where
  "trip_ends SideA = home_end"
| "trip_ends SideB = away_end"

definition trip_start :: "sample_world link" where
  "trip_start = \<lparr>bridges = (\<lambda>_. sample_init), worlds = (\<lambda>_. Map.empty)(SideA := home_world), flight = {#}, acks = {#}\<rparr>"

abbreviation trip_self :: "side \<Rightarrow> addr" where
  "trip_self \<equiv> \<lambda>_. Addr ''bridge''"

lemma trip_link_ok: "link_ok sample_chain trip_ends"
proof -
  have "endpoint_ok (trip_ends x)" for x by (cases x) (simp_all add: endpoint_ok_def home_end_def away_end_def slash_free_def)
  with sample_chain_ok show ?thesis by (simp add: link_ok_def)
qed

lemma trip_history:
  "\<exists>s. link_reachable sample_chain trip_self trip_ends s \<and> native (bridges s SideA) (Addr ''nft'') \<and>
     class_owner sample_chain (bridges s SideB) (worlds s SideB) (ClassId ''wasm.b/channel-7/nft'') ''1'' = Some (Addr ''bob'')"
proof -
  have init: "link_init trip_start" by (simp add: link_init_def trip_start_def sample_init_ok)
  obtain w where send: "send_tx sample_chain (Addr ''bridge'') (Addr ''nft'') ''1'' (sample_init, home_world) trip_msg (sample_locked, w)"
    using trip_send_tx by blast
  obtain ack b' w' where recv: "packet_tx sample_chain (Addr ''bridge'') trip_packet (sample_init, Map.empty) ack (b', w')"
    and ok: "\<not> ack_failed sample_chain ack" using trip_delivery by auto
  let ?s1 = "(put_chain SideA (sample_locked, w) trip_start)\<lparr>flight := {#(SideA, trip_packet)#}\<rparr>"
  let ?s2 = "(put_chain SideB (b', w') ?s1)\<lparr>flight := {#}, acks := {#(SideA, trip_packet, ack)#}\<rparr>"
  have "link_step sample_chain trip_self trip_ends trip_start ?s1"
    using link_send [of sample_chain trip_self SideA "Addr ''nft''" "''1''" trip_start trip_msg "(sample_locked, w)" trip_ends 1] send
    by (simp add: trip_start_def trip_packet_def trip_msg_def home_end_def)
  moreover have "link_step sample_chain trip_self trip_ends ?s1 ?s2"
    using link_receive [of SideA trip_packet ?s1 sample_chain trip_self ack "(b', w')" trip_ends] recv
    by (simp add: trip_start_def put_chain_def)
  ultimately have "link_reachable sample_chain trip_self trip_ends ?s2"
    using init unfolding link_reachable_def by (blast intro: reach.intros)
  moreover have "native (bridges ?s2 SideA) (Addr ''nft'')"
    by (simp add: native_def native_class_def sample_locked_def with_class_def sample_init_def empty_bridge_def)
  moreover have "packet_effect sample_chain trip_packet trip_data (sample_init, Map.empty) (b', w')"
    using packet_tx_cases [OF sample_chain_ok recv] ok by (auto simp: trip_packet_facts)
  then have "class_owner sample_chain b' w' (voucher_class trip_packet trip_data) ''1'' = Some (Addr (receiver trip_data))"
    using commit_created [of sample_chain trip_packet trip_data] by (simp add: trip_items created_ids_def)
  ultimately show ?thesis by (intro exI [of _ ?s2]) (simp add: trip_packet_facts)
qed

theorem token_in_one_place_witness:
  "\<exists>s. link_reachable sample_chain trip_self trip_ends s \<and>
     owner_of sample_chain (worlds s SideA) (Addr ''nft'') ''1'' = Some (Addr ''bridge'') \<and>
     class_owner sample_chain (bridges s SideB) (worlds s SideB) (ClassId ''wasm.b/channel-7/nft'') ''1'' = Some (Addr ''bob'')"
proof -
  obtain s where s: "link_reachable sample_chain trip_self trip_ends s" "native (bridges s SideA) (Addr ''nft'')"
    "class_owner sample_chain (bridges s SideB) (worlds s SideB) (ClassId ''wasm.b/channel-7/nft'') ''1'' = Some (Addr ''bob'')"
    using trip_history by blast
  have "real_addr (Addr ''nft'')" by (simp add: real_addr_def slash_free_def)
  from token_in_one_place [OF trip_link_ok s(1) this s(2), of "''1''"] s
  show ?thesis by (auto simp: voucher_of_def native_class_def away_end_def get_endpoint_prefix_def)
qed

text \<open>What a committed packet does to the tokens, said for each token.\<close>

lemma redeem_effect_tokens:
  assumes "redeem_effect b p d f f'"
  shows "t \<in> set (redeemed_tokens b p d) \<Longrightarrow>
      \<exists>c. CLASS_ID_TO_NFT_CONTRACT b (local_class (packet_local p d)) = Some c \<and> f' c (token_id_str t) = Some (Addr (receiver d))"
    and "f' c u \<noteq> f c u \<Longrightarrow> TokenId u \<in> set (redeemed_tokens b p d) \<and> f' c u = Some (Addr (receiver d))"
  using assms by (auto simp: redeem_effect_def give_def split: if_splits)

lemma create_effect_tokens:
  assumes "create_effect b b' p d f f'"
  shows "t \<in> created_ids b p d \<Longrightarrow>
      \<exists>c. CLASS_ID_TO_NFT_CONTRACT b' (voucher_class p d) = Some c \<and> f' c (token_id_str t) = Some (Addr (receiver d))"
    and "f' c u \<noteq> f c u \<Longrightarrow> TokenId u \<in> created_ids b p d \<and> f' c u = Some (Addr (receiver d))"
    and "CLASS_ID_TO_NFT_CONTRACT b k = Some c \<Longrightarrow> CLASS_ID_TO_NFT_CONTRACT b' k = Some c"
  using assms by (auto simp: create_effect_def give_def split: if_splits)

lemma packet_effect_tokens:
  assumes "packet_wf d" and "packet_effect M p d (b, w) (b', w')"
  shows "\<forall>t \<in> set (token_ids d). \<exists>c.
      CLASS_ID_TO_NFT_CONTRACT b'
        (if t \<in> set (redeemed_tokens b p d) then local_class (packet_local p d) else voucher_class p d) = Some c \<and>
      owner_of M w' c (token_id_str t) = Some (Addr (receiver d))"
    and "owner_of M w' c u \<noteq> owner_of M w c u \<Longrightarrow>
      TokenId u \<in> set (token_ids d) \<and> owner_of M w' c u = Some (Addr (receiver d))"
proof -
  obtain f where red: "redeem_effect b p d (owner_of M w) f" and cre: "create_effect b b' p d f (owner_of M w')"
    using assms(2) by (auto simp: packet_effect_def)
  have all: "set (token_ids d) = set (redeemed_tokens b p d) \<union> created_ids b p d"
    using arg_cong [OF redeemed_created_mset [OF assms(1), of b p], of set_mset] by (auto simp: created_ids_def)
  have kept: "owner_of M w' c u = Some (Addr (receiver d))" if "f c u = Some (Addr (receiver d))" for c u
    using that create_effect_tokens(2) [OF cre, of c u] by fastforce
  show "\<forall>t \<in> set (token_ids d). \<exists>c.
      CLASS_ID_TO_NFT_CONTRACT b'
        (if t \<in> set (redeemed_tokens b p d) then local_class (packet_local p d) else voucher_class p d) = Some c \<and>
      owner_of M w' c (token_id_str t) = Some (Addr (receiver d))"
  proof
    fix t
    assume "t \<in> set (token_ids d)"
    then consider (old) "t \<in> set (redeemed_tokens b p d)" | (new) "t \<notin> set (redeemed_tokens b p d)" "t \<in> created_ids b p d"
      using all by blast
    then show "\<exists>c. CLASS_ID_TO_NFT_CONTRACT b'
        (if t \<in> set (redeemed_tokens b p d) then local_class (packet_local p d) else voucher_class p d) = Some c \<and>
      owner_of M w' c (token_id_str t) = Some (Addr (receiver d))"
    proof cases
      case old
      with redeem_effect_tokens(1) [OF red old] create_effect_tokens(3) [OF cre] kept show ?thesis by auto
    next
      case new
      with create_effect_tokens(1) [OF cre new(2)] show ?thesis by simp
    qed
  qed
  show "TokenId u \<in> set (token_ids d) \<and> owner_of M w' c u = Some (Addr (receiver d))" if "owner_of M w' c u \<noteq> owner_of M w c u"
    using that redeem_effect_tokens(2) [OF red, of c u] create_effect_tokens(2) [OF cre, of c u] all
    by (cases "owner_of M w' c u = f c u") auto
qed

text \<open>C2: A packet transaction is all or nothing. Whatever messages the packet sets off, across callbacks,
  replies and cw721 collections, when the acknowledgement the chain commits reads as a failure then
  no token has changed hands and no collection was registered; when it reads as a success, every token of the packet
  belongs to the receiver, as the original token of the local class when it was redeemed and as a token
  of the voucher class otherwise, and no other token has changed hands.\<close>

theorem packet_transaction_atomic:
  assumes "chain_ok M" and "packet_tx M self p (b, w) ack (b', w')"
  shows "if ack_failed M ack
    then owner_of M w' = owner_of M w \<and> CLASS_ID_TO_NFT_CONTRACT b' = CLASS_ID_TO_NFT_CONTRACT b
    else \<exists>d. pdec M (pkt_data p) = Ok d \<and>
      (\<forall>t \<in> set (token_ids d). \<exists>c.
         CLASS_ID_TO_NFT_CONTRACT b'
           (if t \<in> set (redeemed_tokens b p d) then local_class (packet_local p d) else voucher_class p d) = Some c \<and>
         owner_of M w' c (token_id_str t) = Some (Addr (receiver d))) \<and>
      (\<forall>c t. owner_of M w' c t \<noteq> owner_of M w c t \<longrightarrow>
         TokenId t \<in> set (token_ids d) \<and> owner_of M w' c t = Some (Addr (receiver d)))"
proof (cases "ack_failed M ack")
  case True
  with packet_tx_cases [OF assms] show ?thesis by auto
next
  case False
  with packet_tx_cases [OF assms] obtain d where d: "pdec M (pkt_data p) = Ok d" "packet_wf d"
    "packet_effect M p d (b, w) (b', w')" by auto
  show ?thesis unfolding if_not_P [OF False]
    by (intro exI [of _ d] conjI d(1) packet_effect_tokens(1) [OF d(2,3)] allI impI packet_effect_tokens(2) [OF d(2,3)])
qed

theorem packet_transaction_atomic_witness:
  "\<exists>ack b' w' c. packet_tx sample_chain (Addr ''bridge'') trip_packet (sample_init, Map.empty) ack (b', w') \<and>
     \<not> ack_failed sample_chain ack \<and> CLASS_ID_TO_NFT_CONTRACT b' (ClassId ''wasm.b/channel-7/nft'') = Some c \<and>
     owner_of sample_chain w' c ''1'' = Some (Addr ''bob'')"
proof -
  obtain ack b' w' where tx: "packet_tx sample_chain (Addr ''bridge'') trip_packet (sample_init, Map.empty) ack (b', w')"
    and ok: "\<not> ack_failed sample_chain ack" using trip_delivery by auto
  have "token_ids trip_data = [TokenId ''1'']" by (simp add: trip_data_def sample_data_def)
  with packet_transaction_atomic [OF sample_chain_ok tx] ok tx show ?thesis
    by (auto simp: trip_packet_facts trip_items)
qed

end
