(* ===== verification/Cw721_Base.thy ===== *)
theory Cw721_Base
  imports Bridge_Types
begin

text \<open>
  What the two test collections use of the crate \<^verbatim>\<open>cw721_base\<close>: its messages as far as the
  collections look into them, and its entry points and storage helpers as the fields of a record,
  over a storage type \<open>'b\<close> and an error type \<open>'e\<close> of its own. The crate is not part of the
  repository, so nothing is defined here beyond the types.
\<close>

text \<open>Transfers and extension messages are told apart; the other variants are passed on unseen.\<close>

datatype ('x, 'o) BaseExecuteMsg =
    BaseTransferNft string string
  | BaseExtension 'x
  | BaseOther 'o

record MintMsg =
  mint_token_id :: string
  mint_owner :: string
  mint_token_uri :: "string option"

record ('b, 'e, 'x, 'o) base_ops =
  base_instantiate :: "Env \<Rightarrow> MessageInfo \<Rightarrow> Cw721InstantiateMsg \<Rightarrow> ('b, 'e, Response) prog"
  base_execute :: "Env \<Rightarrow> MessageInfo \<Rightarrow> ('x, 'o) BaseExecuteMsg \<Rightarrow> ('b, 'e, Response) prog"
  token_count :: "('b, StdError, u64) prog"
  minter_save :: "addr \<Rightarrow> ('b, StdError, unit) prog"
  base_mint :: "Env \<Rightarrow> MessageInfo \<Rightarrow> MintMsg \<Rightarrow> ('b, 'e, Response) prog"
  base_std :: "StdError \<Rightarrow> 'e"

end
