(* ===== verification/Cw721_Virus.thy ===== *)
theory Cw721_Virus
  imports Cw721_Base Sample_Host
begin

text \<open>
  The contract \<^verbatim>\<open>contracts/cw721-virus\<close>: a malicious collection that answers a transfer request not by
  transferring but by minting fresh tokens to the bridge and asking the bridge to send them away.
  Modelled with all its state and messages; proved: how many messages a transfer request makes,
  what they are, that the tokens it mints did not exist before, have distinct identifiers and belong
  to the bridge, and how its timeouts are ordered. The loops are total: the padding loop has a termination proof.
\<close>

section \<open>State and messages\<close>

datatype ExtensionMsg =
  UpdateSpikeProteins (usp_src: "string option") (usp_dst: "string option")
    (usp_channel: "string option") (usp_bridge: "string option")

record VirusInstantiateMsg =
  vim_name :: string
  vim_symbol :: string
  vim_minter :: string

record 'b Virus =
  virus_base :: 'b
  ACCOMPLICE_SRC :: "string option"
  ACCOMPLICE_DST :: "addr option"
  BRIDGE_CONTRACT :: "addr option"
  CHANNEL_ID :: "string option"
  virus_version :: "(string \<times> string) option"

text \<open>
  The calls into crates and the chain that are not in the record of \<^verbatim>\<open>cw721_base\<close>: address validation,
  the query for the tokens of an owner (with its limit), JSON encodings, the wrapping of a receive
  message, and the addition of seconds to a timestamp, which panics on overflow.
\<close>

record virus_host =
  vh_addr_validate :: "string \<Rightarrow> (StdError, addr) outcome"
  query_tokens :: "addr \<Rightarrow> string \<Rightarrow> nat \<Rightarrow> (StdError, string list) outcome"
  to_binary_outgoing :: "IbcOutgoingMsg \<Rightarrow> (StdError, binary) outcome"
  vh_to_binary_cw721 :: "Cw721ExecuteMsg \<Rightarrow> (StdError, binary) outcome"
  into_cosmos_msg :: "Cw721ReceiveMsg \<Rightarrow> addr \<Rightarrow> (StdError, CosmosMsg) outcome"
  plus_seconds :: "u64 \<Rightarrow> nat \<Rightarrow> (StdError, u64) outcome"

definition in_virus_base :: "('b, 'e, 'a) prog \<Rightarrow> ('b Virus, 'e, 'a) prog" where
  "in_virus_base = zoom virus_base (\<lambda>b. virus_base_update (\<lambda>_. b))"

section \<open>Operations\<close>

definition virus_instantiate ::
  "('b, 'e, 'x, 'o) base_ops \<Rightarrow> Env \<Rightarrow> MessageInfo \<Rightarrow> VirusInstantiateMsg \<Rightarrow> ('b Virus, 'e, Response) prog" where
  "virus_instantiate ops env info msg =
     bnd (in_virus_base (base_instantiate ops env info
       \<lparr>ci_name = vim_name msg, ci_symbol = vim_symbol msg, ci_minter = vim_minter msg\<rparr>)) (\<lambda>resp.
     bnd (writes (virus_version_update (\<lambda>_. Some (''crates.io:cw721-virus'', ''0.0.1'')))) (\<lambda>_.
     ret resp))"

definition save_if :: "'v option \<Rightarrow> ('v \<Rightarrow> ('s, 'e, unit) prog) \<Rightarrow> ('s, 'e, unit) prog" where
  "save_if v f = (case v of None \<Rightarrow> ret () | Some x \<Rightarrow> f x)"

definition update_spike_proteins :: "virus_host \<Rightarrow> ExtensionMsg \<Rightarrow> ('b Virus, StdError, Response) prog" where
  "update_spike_proteins h msg =
     bnd (save_if (usp_src msg) (\<lambda>v. writes (ACCOMPLICE_SRC_update (\<lambda>_. Some v)))) (\<lambda>_.
     bnd (save_if (usp_dst msg) (\<lambda>v.
       bnd (lift (vh_addr_validate h v)) (\<lambda>a. writes (ACCOMPLICE_DST_update (\<lambda>_. Some a))))) (\<lambda>_.
     bnd (save_if (usp_channel msg) (\<lambda>v. writes (CHANNEL_ID_update (\<lambda>_. Some v)))) (\<lambda>_.
     bnd (save_if (usp_bridge msg) (\<lambda>v.
       bnd (lift (vh_addr_validate h v)) (\<lambda>a. writes (BRIDGE_CONTRACT_update (\<lambda>_. Some a))))) (\<lambda>_.
     ret (response [] [])))))"

text \<open>The identifier of a clone: token count, block height, transaction index and a running number.\<close>

definition clone_id :: "u64 \<Rightarrow> Env \<Rightarrow> nat \<Rightarrow> string" where
  "clone_id count env i =
     show_nat (unat count) @ '':'' @ show_nat (unat (env_height env)) @ '':'' @
     show_nat (map_or 0 unat (env_tx_index env)) @ '':'' @ show_nat i"

text \<open>The part both loops share: count, become minter, mint a clone to the bridge.\<close>

definition mint_clone ::
  "('b, 'e, 'x, 'o) base_ops \<Rightarrow> Env \<Rightarrow> MessageInfo \<Rightarrow> addr \<Rightarrow> nat \<Rightarrow> ('b Virus, StdError, string) prog" where
  "mint_clone ops env info bridge i =
     bnd (in_virus_base (token_count ops)) (\<lambda>count.
     let tid = clone_id count env i in
     bnd (in_virus_base (minter_save ops (info_sender info))) (\<lambda>_.
     bnd (err_into (\<lambda>_. GenericErr ''mint failed'') (in_virus_base (base_mint ops env info
       \<lparr>mint_token_id = tid, mint_owner = addr_str bridge,
        mint_token_uri = Some (''https://virus.com/'' @ tid)\<rparr>))) (\<lambda>_.
     ret tid)))"

definition send_clone ::
  "virus_host \<Rightarrow> Env \<Rightarrow> addr \<Rightarrow> IbcOutgoingMsg \<Rightarrow> string \<Rightarrow> (StdError, CosmosMsg) outcome" where
  "send_clone h env bridge ibc tid =
     (case to_binary_outgoing h ibc of
        Ok bytes \<Rightarrow>
          into_cosmos_msg h \<lparr>crm_sender = addr_str (env_contract env), crm_token_id = tid, crm_msg = bytes\<rparr> bridge
      | Err e \<Rightarrow> Err e
      | Panic p \<Rightarrow> Panic p)"

definition accomplice_send ::
  "virus_host \<Rightarrow> addr \<Rightarrow> addr \<Rightarrow> IbcOutgoingMsg \<Rightarrow> string \<Rightarrow> ('s, StdError, CosmosMsg) prog" where
  "accomplice_send h accomplice bridge ibc token =
     bnd (lift (to_binary_outgoing h ibc)) (\<lambda>inner.
     bnd (lift (vh_to_binary_cw721 h (SendNft (addr_str bridge) token inner))) (\<lambda>bytes.
     ret (Wasm (WasmExecute (addr_str accomplice) bytes))))"

definition interleave ::
  "('b, 'e, 'x, 'o) base_ops \<Rightarrow> virus_host \<Rightarrow> Env \<Rightarrow> MessageInfo \<Rightarrow> addr \<Rightarrow> IbcOutgoingMsg \<Rightarrow>
     CosmosMsg list \<Rightarrow> ('b Virus, StdError, CosmosMsg list) prog" where
  "interleave ops h env info bridge ibc msgs =
     bnd (traverse (\<lambda>(i, msg).
       bnd (mint_clone ops env info bridge i) (\<lambda>tid.
       bnd (lift (send_clone h env bridge ibc tid)) (\<lambda>send.
       ret [send, msg])))
       (List.enumerate 0 msgs)) (\<lambda>vs.
     ret (concat vs))"

definition min_length :: nat where
  "min_length = 10"

text \<open>The padding loop; every round adds one message.\<close>

function pad_with_clones ::
  "('b, 'e, 'x, 'o) base_ops \<Rightarrow> virus_host \<Rightarrow> Env \<Rightarrow> MessageInfo \<Rightarrow> addr \<Rightarrow> u64 \<Rightarrow> IbcOutgoingMsg \<Rightarrow>
     CosmosMsg list \<Rightarrow> ('b Virus, StdError, CosmosMsg list) prog" where
  "pad_with_clones ops h env info bridge tstamp ibc msgs =
     (if length msgs < min_length then
        bnd (mint_clone ops env info bridge (length msgs)) (\<lambda>tid.
        bnd (lift (plus_seconds h tstamp 60)) (\<lambda>t1.
        bnd (lift (plus_seconds h t1 (length msgs * 60))) (\<lambda>t2.
        bnd (lift (send_clone h env bridge
              (ibc\<lparr>og_memo := Some (show_nat (length msgs)), og_timeout := with_timestamp t2\<rparr>) tid)) (\<lambda>send.
        pad_with_clones ops h env info bridge tstamp
          (ibc\<lparr>og_memo := Some (show_nat (length msgs)), og_timeout := with_timestamp t2\<rparr>)
          (msgs @ [send])))))
      else ret msgs)"
  by pat_completeness auto
termination
  by (relation "measure (\<lambda>(_, _, _, _, _, _, _, msgs). min_length - length msgs)") auto

declare pad_with_clones.simps [simp del]

definition execute_transfer_nft ::
  "('b, 'e, 'x, 'o) base_ops \<Rightarrow> virus_host \<Rightarrow> Env \<Rightarrow> MessageInfo \<Rightarrow> ('b Virus, StdError, Response) prog" where
  "execute_transfer_nft ops h env info =
     bnd (reads ACCOMPLICE_DST) (\<lambda>accomplice_dst.
     bnd (load ''String'' ACCOMPLICE_SRC) (\<lambda>accomplice_src.
     bnd (load ''String'' CHANNEL_ID) (\<lambda>channel.
     bnd (load ''Addr'' BRIDGE_CONTRACT) (\<lambda>bridge.
     bnd (lift (plus_seconds h (env_time env) (60 * 60))) (\<lambda>tstamp.
     let ibc = \<lparr>og_receiver = accomplice_src, og_channel_id = channel,
                og_timeout = with_timestamp tstamp, og_memo = None\<rparr> in
     bnd (case accomplice_dst of
            Some accomplice \<Rightarrow>
              bnd (lift (query_tokens h accomplice (addr_str (env_contract env)) 6)) (\<lambda>tokens.
              traverse (accomplice_send h accomplice bridge ibc) tokens)
          | None \<Rightarrow> ret []) (\<lambda>msgs.
     bnd (lift (plus_seconds h tstamp 60)) (\<lambda>t1.
     let ibc' = ibc\<lparr>og_timeout := with_timestamp t1\<rparr> in
     bnd (interleave ops h env info bridge ibc' msgs) (\<lambda>msgs'.
     bnd (pad_with_clones ops h env info bridge tstamp ibc' msgs') (\<lambda>all.
     ret (response (map submsg_new all)
       [(''action'', ''send_nft''), (''sender'', addr_str (info_sender info)),
        (''recipient'', addr_str bridge)]))))))))))"

definition virus_execute ::
  "('b, 'e, ExtensionMsg, 'o) base_ops \<Rightarrow> virus_host \<Rightarrow> Env \<Rightarrow> MessageInfo \<Rightarrow> (ExtensionMsg, 'o) BaseExecuteMsg \<Rightarrow>
     ('b Virus, 'e, Response) prog" where
  "virus_execute ops h env info msg =
     (case msg of
        BaseTransferNft _ _ \<Rightarrow> err_into (base_std ops) (execute_transfer_nft ops h env info)
      | BaseExtension ext \<Rightarrow> err_into (base_std ops) (update_spike_proteins h ext)
      | BaseOther _ \<Rightarrow> in_virus_base (base_execute ops env info msg))"

text \<open>Queries: the extension query always answers one; the others go to the base contract.\<close>

datatype ExtensionQuery = Count

definition virus_query ::
  "(nat option \<Rightarrow> (StdError, binary) outcome) \<Rightarrow> ('q \<Rightarrow> ('b, StdError, binary) prog) \<Rightarrow> ExtensionQuery + 'q \<Rightarrow>
     ('b Virus, StdError, binary) prog" where
  "virus_query enc base_query msg =
     (case msg of
        Inl Count \<Rightarrow> lift (enc (Some 1))
      | Inr q \<Rightarrow> in_virus_base (base_query q))"

section \<open>Behaviour\<close>

lemma clone_id_inj:
  assumes "clone_id c env i = clone_id c' env i'"
  shows "i = i'"
proof -
  have colon: "CHR '':'' \<notin> set (show_nat n)" for n
    using show_nat_digits [of "CHR '':''" n] by auto
  let ?pre = "\<lambda>c. show_nat (unat c) @ '':'' @ show_nat (unat (env_height env)) @ '':'' @
      show_nat (map_or 0 unat (env_tx_index env))"
  have "?pre c @ CHR '':'' # show_nat i = ?pre c' @ CHR '':'' # show_nat i'"
    using assms by (simp add: clone_id_def)
  from split_at_last_sep_unique [OF this colon colon] show ?thesis by simp
qed

lemma mint_clone_Ok: "mint_clone ops env info bridge i s = (Ok tid, t) \<Longrightarrow> \<exists>c. tid = clone_id c env i"
  by (auto simp: mint_clone_def Let_def prog_iffs)

text \<open>
  What minting a clone does, as a relation \<open>le\<close> between the states before and after (which the loops
  carry along) and a fact \<open>fresh\<close> about the clone that stays true between an earlier and a later state.
\<close>

definition clones_by ::
  "('b, 'e, 'x, 'o) base_ops \<Rightarrow> Env \<Rightarrow> MessageInfo \<Rightarrow> addr \<Rightarrow> ('b Virus \<Rightarrow> 'b Virus \<Rightarrow> bool) \<Rightarrow>
     (string \<Rightarrow> 'b Virus \<Rightarrow> 'b Virus \<Rightarrow> bool) \<Rightarrow> bool" where
  "clones_by ops env info bridge le fresh \<longleftrightarrow>
     (\<forall>s. le s s) \<and> (\<forall>s t u. le s t \<longrightarrow> le t u \<longrightarrow> le s u) \<and>
     (\<forall>i s tid t. mint_clone ops env info bridge i s = (Ok tid, t) \<longrightarrow> le s t \<and> fresh tid s t) \<and>
     (\<forall>tid s u v t. le s u \<longrightarrow> fresh tid u v \<longrightarrow> le v t \<longrightarrow> fresh tid s t)"

lemma clones_by_any: "clones_by ops env info bridge (\<lambda>_ _. True) (\<lambda>_ _ _. True)"
  by (simp add: clones_by_def)

lemma clones_byD:
  assumes "clones_by ops env info bridge le fresh"
  shows "le s s" and "le s t \<Longrightarrow> le t u \<Longrightarrow> le s u"
    and "mint_clone ops env info bridge i s = (Ok tid, t) \<Longrightarrow> le s t"
    and "mint_clone ops env info bridge i s = (Ok tid, t) \<Longrightarrow> fresh tid s t"
    and "le s u \<Longrightarrow> fresh tid u v \<Longrightarrow> le v t \<Longrightarrow> fresh tid s t"
  using assms unfolding clones_by_def by blast+

lemma interleave_Ok:
  assumes run: "interleave ops h env info bridge ibc msgs s = (Ok out, t)"
    and cl: "clones_by ops env info bridge le fresh"
  shows "\<exists>ids sends. length ids = length msgs \<and> length sends = length msgs \<and>
    (\<forall>i < length msgs. (\<exists>c. ids ! i = clone_id c env i) \<and> send_clone h env bridge ibc (ids ! i) = Ok (sends ! i) \<and>
       fresh (ids ! i) s t) \<and>
    out = concat (map2 (\<lambda>x y. [x, y]) sends msgs) \<and> le s t"
proof -
  let ?f = "\<lambda>(i, msg). bnd (mint_clone ops env info bridge i) (\<lambda>tid.
       bnd (lift (send_clone h env bridge ibc tid)) (\<lambda>send. ret [send, msg]))"
  let ?P = "\<lambda>i msg v. \<exists>tid send. (\<exists>c. tid = clone_id c env i) \<and> send_clone h env bridge ibc tid = Ok send \<and>
      fresh tid s t \<and> v = [send, msg]"
  note cl = clones_byD [OF cl]
  obtain vs where trav: "traverse ?f (List.enumerate 0 msgs) s = (Ok vs, t)" and out: "out = concat vs"
    using run by (auto simp: interleave_def prog_iffs)
  have step: "le u v" if "?f x u = (Ok y, v)" for x y u v
    using that cl(3) by (cases x) (auto simp: prog_iffs)
  have elem: "?P (fst x) (snd x) y" if "\<exists>u v. ?f x u = (Ok y, v) \<and> le s u \<and> le v t" for x y
  proof -
    from that obtain u v tid send where m: "mint_clone ops env info bridge (fst x) u = (Ok tid, v)" "le s u" "le v t"
      and y: "send_clone h env bridge ibc tid = Ok send" "y = [send, snd x]"
      by (cases x) (auto simp: prog_iffs)
    have "fresh tid s t" by (rule cl(5) [OF m(2) cl(4) [OF m(1)] m(3)])
    with y mint_clone_Ok [OF m(1)] show ?thesis by auto
  qed
  have btw: "list_all2 (\<lambda>x y. \<exists>u v. ?f x u = (Ok y, v) \<and> le s u \<and> le v t) (List.enumerate 0 msgs) vs \<and> le s t"
    by (rule traverse_between [OF trav]) (erule step, rule cl(1), erule (1) cl(2))
  then have le: "le s t" by blast
  have "list_all2 (\<lambda>x y. ?P (fst x) (snd x) y) (List.enumerate 0 msgs) vs"
    using conjunct1 [OF btw] by (rule list_all2_mono) (rule elem)
  then have len: "length vs = length msgs" and all: "\<forall>i < length msgs. ?P i (msgs ! i) (vs ! i)"
    by (auto simp: list_all2_conv_all_nth nth_enumerate_eq)
  from all obtain tid send where ts: "\<And>i. i < length msgs \<Longrightarrow> (\<exists>c. tid i = clone_id c env i) \<and>
      send_clone h env bridge ibc (tid i) = Ok (send i) \<and> fresh (tid i) s t \<and> vs ! i = [send i, msgs ! i]"
    by metis
  have "vs = map2 (\<lambda>x y. [x, y]) (map send [0..<length msgs]) msgs"
    by (rule nth_equalityI) (use len ts in auto)
  with out ts le show ?thesis
    by (intro exI [of _ "map tid [0..<length msgs]"] exI [of _ "map send [0..<length msgs]"]) simp
qed

lemma pad_with_clones_Ok:
  assumes "clones_by ops env info bridge le fresh"
    and "pad_with_clones ops h env info bridge tstamp ibc msgs s = (Ok out, t)"
  shows "length out = max min_length (length msgs) \<and> take (length msgs) out = msgs \<and> le s t \<and>
   (\<forall>j. length msgs \<le> j \<and> j < length out \<longrightarrow>
      (\<exists>c ibc'. og_receiver ibc' = og_receiver ibc \<and> og_channel_id ibc' = og_channel_id ibc \<and>
         send_clone h env bridge ibc' (clone_id c env j) = Ok (out ! j) \<and> fresh (clone_id c env j) s t))"
  using assms
proof (induction ops h env info bridge tstamp ibc msgs arbitrary: s rule: pad_with_clones.induct)
  case (1 ops h env info bridge tstamp ibc msgs)
  note cl = clones_byD [OF "1.prems"(1)]
  show ?case
  proof (cases "length msgs < min_length")
    case False
    with "1.prems"(2) cl(1) show ?thesis by (auto simp: pad_with_clones.simps [of ops] prog_iffs)
  next
    case True
    with "1.prems"(2) obtain tid s1 t1 t2 send where
      mint: "mint_clone ops env info bridge (length msgs) s = (Ok tid, s1)" and
      snd: "send_clone h env bridge (ibc\<lparr>og_memo := Some (show_nat (length msgs)), og_timeout := with_timestamp t2\<rparr>) tid = Ok send" and
      rec: "pad_with_clones ops h env info bridge tstamp
          (ibc\<lparr>og_memo := Some (show_nat (length msgs)), og_timeout := with_timestamp t2\<rparr>) (msgs @ [send]) s1 = (Ok out, t)"
      by (subst (asm) pad_with_clones.simps) (auto simp: prog_iffs)
    obtain c where tid: "tid = clone_id c env (length msgs)" using mint_clone_Ok [OF mint] by blast
    note ih = "1.IH" [OF True "1.prems"(1) rec]
    have le: "le s t" using cl(2) [OF cl(3) [OF mint]] ih by blast
    have at: "out ! length msgs = send"
      using ih by (metis (no_types, lifting) length_append_singleton lessI nth_append_length nth_take)
    have "take (length msgs) out = msgs"
      using ih by (metis append_eq_conv_conj length_append_singleton take_take min.absorb1 Suc_n_not_le_n le_SucI order_refl)
    moreover have "\<exists>c ibc'. og_receiver ibc' = og_receiver ibc \<and> og_channel_id ibc' = og_channel_id ibc \<and>
         send_clone h env bridge ibc' (clone_id c env j) = Ok (out ! j) \<and> fresh (clone_id c env j) s t"
      if "length msgs \<le> j \<and> j < length out" for j
    proof (cases "j = length msgs")
      case True
      have "fresh tid s t" using cl(5) [OF cl(1) cl(4) [OF mint]] ih by blast
      with True at snd tid show ?thesis
        by (intro exI [of _ c] exI [of _ "ibc\<lparr>og_memo := Some (show_nat (length msgs)), og_timeout := with_timestamp t2\<rparr>"])
          simp
    next
      case False
      with that have "length (msgs @ [send]) \<le> j \<and> j < length out" by simp
      with ih obtain c' ibc' where c': "og_receiver ibc' = og_receiver ibc" "og_channel_id ibc' = og_channel_id ibc"
        "send_clone h env bridge ibc' (clone_id c' env j) = Ok (out ! j)" "fresh (clone_id c' env j) s1 t" by auto
      then show ?thesis using cl(5) [OF cl(3) [OF mint] c'(4) cl(1)] by blast
    qed
    ultimately show ?thesis using ih True le by auto
  qed
qed

text \<open>Two lists of equal length, laid out alternately.\<close>

lemma concat_pairs_nth:
  assumes "length xs = length ys"
  shows "length (concat (map2 (\<lambda>x y. [x, y]) xs ys)) = 2 * length ys"
    and "i < length ys \<Longrightarrow> concat (map2 (\<lambda>x y. [x, y]) xs ys) ! (2 * i) = xs ! i"
    and "i < length ys \<Longrightarrow> concat (map2 (\<lambda>x y. [x, y]) xs ys) ! Suc (2 * i) = ys ! i"
proof -
  show "length (concat (map2 (\<lambda>x y. [x, y]) xs ys)) = 2 * length ys"
    using assms by (induction xs ys rule: list_induct2) auto
  show "concat (map2 (\<lambda>x y. [x, y]) xs ys) ! (2 * i) = xs ! i" if "i < length ys"
    using assms that
  proof (induction xs ys arbitrary: i rule: list_induct2)
    case (Cons x xs y ys)
    then show ?case by (cases i) auto
  qed simp
  show "concat (map2 (\<lambda>x y. [x, y]) xs ys) ! Suc (2 * i) = ys ! i" if "i < length ys"
    using assms that
  proof (induction xs ys arbitrary: i rule: list_induct2)
    case (Cons x xs y ys)
    then show ?case by (cases i) auto
  qed simp
qed

text \<open>The running number of the clone at a position: half of it while alternating, the position after that.\<close>

definition clone_index :: "nat \<Rightarrow> nat \<Rightarrow> nat" where
  "clone_index k j = (if j < 2 * k then j div 2 else j)"

definition clone_positions :: "nat \<Rightarrow> nat \<Rightarrow> nat set" where
  "clone_positions k n = {j. j < n \<and> (even j \<or> 2 * k \<le> j)}"

lemma clone_index_inj: "inj_on (clone_index k) (clone_positions k n)"
  unfolding inj_on_def clone_index_def clone_positions_def by (auto elim!: evenE)

lemma alternate_and_pad:
  assumes "interleave ops h env info bridge ibc msgs s = (Ok mid, s1)"
    and "pad_with_clones ops h env info bridge tstamp ibc mid s1 = (Ok out, t)"
    and cl: "clones_by ops env info bridge le fresh"
  shows "length out = max min_length (2 * length msgs)"
    and "i < length msgs \<Longrightarrow> out ! Suc (2 * i) = msgs ! i"
    and "j \<in> clone_positions (length msgs) (length out) \<Longrightarrow>
      \<exists>c ibc'. og_receiver ibc' = og_receiver ibc \<and> og_channel_id ibc' = og_channel_id ibc \<and>
        send_clone h env bridge ibc' (clone_id c env (clone_index (length msgs) j)) = Ok (out ! j) \<and>
        fresh (clone_id c env (clone_index (length msgs) j)) s t"
proof -
  obtain ids sends where len: "length ids = length msgs" "length sends = length msgs"
    and ids: "\<And>i. i < length msgs \<Longrightarrow> (\<exists>c. ids ! i = clone_id c env i) \<and> send_clone h env bridge ibc (ids ! i) = Ok (sends ! i) \<and>
      fresh (ids ! i) s s1"
    and mid: "mid = concat (map2 (\<lambda>x y. [x, y]) sends msgs)" and le: "le s s1"
    using interleave_Ok [OF assms(1) cl] by blast
  note pairs = concat_pairs_nth [OF len(2), folded mid]
  note pad = pad_with_clones_Ok [OF cl assms(2)] and cl = clones_byD [OF cl]
  have low: "out ! j = mid ! j" if "j < 2 * length msgs" for j
    using pad that pairs(1) by (metis nth_take)
  show "length out = max min_length (2 * length msgs)" using pad pairs(1) by simp
  show "out ! Suc (2 * i) = msgs ! i" if "i < length msgs"
    using low [of "Suc (2 * i)"] pairs(3) [OF that] that by simp
  assume j: "j \<in> clone_positions (length msgs) (length out)"
  show "\<exists>c ibc'. og_receiver ibc' = og_receiver ibc \<and> og_channel_id ibc' = og_channel_id ibc \<and>
        send_clone h env bridge ibc' (clone_id c env (clone_index (length msgs) j)) = Ok (out ! j) \<and>
        fresh (clone_id c env (clone_index (length msgs) j)) s t"
  proof (cases "j < 2 * length msgs")
    case True
    with j obtain i where i: "j = 2 * i" "i < length msgs" by (auto simp: clone_positions_def elim!: evenE)
    have "fresh (ids ! i) s t" using cl(5) [OF cl(1)] ids [OF i(2)] pad by blast
    with i low [OF True] pairs(2) [of i] ids [of i] show ?thesis
      by (auto simp: clone_index_def intro!: exI [of _ ibc])
  next
    case False
    with j pairs(1) have "length mid \<le> j \<and> j < length out" by (auto simp: clone_positions_def)
    with pad obtain c ibc' where "og_receiver ibc' = og_receiver ibc" "og_channel_id ibc' = og_channel_id ibc"
      "send_clone h env bridge ibc' (clone_id c env j) = Ok (out ! j)" "fresh (clone_id c env j) s1 t"
      by blast
    with False show ?thesis using cl(5) [OF le _ cl(1), of _ t] by (auto simp: clone_index_def)
  qed
qed

lemma execute_transfer_nft_Ok:
  assumes "execute_transfer_nft ops h env info s = (Ok resp, t)"
  obtains rcv ch bridge tstamp msgs s1 s2 mid out t1 tokens where
    "ACCOMPLICE_SRC s = Some rcv" "CHANNEL_ID s = Some ch" "BRIDGE_CONTRACT s = Some bridge"
    "case ACCOMPLICE_DST s of None \<Rightarrow> tokens = []
      | Some a \<Rightarrow> query_tokens h a (addr_str (env_contract env)) 6 = Ok tokens"
    "case ACCOMPLICE_DST s of None \<Rightarrow> msgs = [] \<and> s1 = s
      | Some a \<Rightarrow> traverse (accomplice_send h a bridge \<lparr>og_receiver = rcv, og_channel_id = ch,
          og_timeout = with_timestamp tstamp, og_memo = None\<rparr>) tokens s = (Ok msgs, s1)"
    "interleave ops h env info bridge \<lparr>og_receiver = rcv, og_channel_id = ch,
          og_timeout = with_timestamp t1, og_memo = None\<rparr> msgs s1 = (Ok mid, s2)"
    "pad_with_clones ops h env info bridge tstamp \<lparr>og_receiver = rcv, og_channel_id = ch,
          og_timeout = with_timestamp t1, og_memo = None\<rparr> mid s2 = (Ok out, t)"
    "messages resp = map submsg_new out"
  using assms by (cases "ACCOMPLICE_DST s") (auto simp: execute_transfer_nft_def Let_def prog_iffs)

lemma accomplice_messages:
  assumes "case dst of None \<Rightarrow> tokens = [] | Some a \<Rightarrow> query_tokens h a own 6 = Ok tokens"
    and "case dst of None \<Rightarrow> msgs = [] \<and> s1 = s
      | Some a \<Rightarrow> traverse (accomplice_send h a bridge ibc) tokens s = (Ok msgs, s1)"
  shows "length msgs = length tokens" and "s1 = s"
    and "i < length tokens \<Longrightarrow> \<exists>a. dst = Some a \<and> accomplice_send h a bridge ibc (tokens ! i) s = (Ok (msgs ! i), s)"
proof -
  have send: "accomplice_send h a bridge ibc tk u = (Ok m, v) \<Longrightarrow> accomplice_send h a bridge ibc tk s = (Ok m, s)" for a tk u m v
    by (auto simp: accomplice_send_def prog_iffs)
  have "list_all2 (\<lambda>tk m. \<exists>a. dst = Some a \<and> accomplice_send h a bridge ibc tk s = (Ok m, s)) tokens msgs"
    using assms by (cases dst) (auto intro: traverse_all2 send)
  moreover have keep: "v = u" if "accomplice_send h a bridge ibc tk u = (Ok m, v)" for a tk u m v
    using that by (auto simp: accomplice_send_def prog_iffs)
  have "s1 = s"
  proof (cases dst)
    case (Some a)
    then have "traverse (accomplice_send h a bridge ibc) tokens s = (Ok msgs, s1)" using assms(2) by simp
    from conjunct2 [OF traverse_between [where le = "\<lambda>u v. v = u", OF this]] show ?thesis by (simp add: keep)
  qed (use assms(2) in simp)
  ultimately show "length msgs = length tokens" "s1 = s"
    "i < length tokens \<Longrightarrow> \<exists>a. dst = Some a \<and> accomplice_send h a bridge ibc (tokens ! i) s = (Ok (msgs ! i), s)"
    by (auto simp: list_all2_conv_all_nth)
qed

text \<open>The messages of a transfer request.\<close>

lemma virus_transfer_shape:
  assumes "virus_execute ops h env info (BaseTransferNft recipient token) s = (Ok resp, t)"
    and cl: "\<And>bridge. BRIDGE_CONTRACT s = Some bridge \<Longrightarrow> clones_by ops env info bridge le fresh"
  shows "\<exists>bridge rcv ch tokens clone.
    BRIDGE_CONTRACT s = Some bridge \<and> ACCOMPLICE_SRC s = Some rcv \<and> CHANNEL_ID s = Some ch \<and>
    (case ACCOMPLICE_DST s of
       None \<Rightarrow> tokens = []
     | Some a \<Rightarrow> query_tokens h a (addr_str (env_contract env)) 6 = Ok tokens) \<and>
    length (messages resp) = max 10 (2 * length tokens) \<and>
    (\<forall>i < length tokens. \<exists>a ibc m. ACCOMPLICE_DST s = Some a \<and>
       accomplice_send h a bridge ibc (tokens ! i) s = (Ok m, s) \<and> messages resp ! Suc (2 * i) = submsg_new m) \<and>
    inj_on clone (clone_positions (length tokens) (length (messages resp))) \<and>
    (\<forall>j \<in> clone_positions (length tokens) (length (messages resp)). \<exists>ibc m.
       og_receiver ibc = rcv \<and> og_channel_id ibc = ch \<and>
       send_clone h env bridge ibc (clone j) = Ok m \<and> messages resp ! j = submsg_new m) \<and>
    (\<forall>j \<in> clone_positions (length tokens) (length (messages resp)). fresh (clone j) s t)"
proof -
  from assms(1) have "execute_transfer_nft ops h env info s = (Ok resp, t)"
    by (simp add: virus_execute_def prog_iffs)
  then obtain rcv ch bridge tstamp msgs s1 s2 mid out t1 tokens where
    cfg: "ACCOMPLICE_SRC s = Some rcv" "CHANNEL_ID s = Some ch" "BRIDGE_CONTRACT s = Some bridge" and
    tok: "case ACCOMPLICE_DST s of None \<Rightarrow> tokens = []
      | Some a \<Rightarrow> query_tokens h a (addr_str (env_contract env)) 6 = Ok tokens" and
    acc: "case ACCOMPLICE_DST s of None \<Rightarrow> msgs = [] \<and> s1 = s
      | Some a \<Rightarrow> traverse (accomplice_send h a bridge \<lparr>og_receiver = rcv, og_channel_id = ch,
          og_timeout = with_timestamp tstamp, og_memo = None\<rparr>) tokens s = (Ok msgs, s1)" and
    mid: "interleave ops h env info bridge \<lparr>og_receiver = rcv, og_channel_id = ch,
          og_timeout = with_timestamp t1, og_memo = None\<rparr> msgs s1 = (Ok mid, s2)" and
    pad: "pad_with_clones ops h env info bridge tstamp \<lparr>og_receiver = rcv, og_channel_id = ch,
          og_timeout = with_timestamp t1, og_memo = None\<rparr> mid s2 = (Ok out, t)" and
    resp: "messages resp = map submsg_new out"
    by (rule execute_transfer_nft_Ok)
  note sent = accomplice_messages [OF tok acc]
  note shape = alternate_and_pad [OF mid [unfolded sent(2)] pad cl [OF cfg(3)], unfolded sent(1)]
  let ?P = "clone_positions (length tokens) (length out)"
  obtain c where c: "\<forall>j\<in>?P. \<exists>ibc. og_receiver ibc = rcv \<and> og_channel_id ibc = ch \<and>
      send_clone h env bridge ibc (clone_id (c j) env (clone_index (length tokens) j)) = Ok (out ! j) \<and>
      fresh (clone_id (c j) env (clone_index (length tokens) j)) s t"
    using shape(3) by (metis IbcOutgoingMsg.select_convs(1,2))
  let ?clone = "\<lambda>j. clone_id (c j) env (clone_index (length tokens) j)"
  have inj: "inj_on ?clone ?P"
    using clone_index_inj [of "length tokens" "length out"] by (auto simp: inj_on_def dest: clone_id_inj)
  have len: "length out = max 10 (2 * length tokens)" using shape(1) by (simp add: min_length_def)
  have odd: "\<forall>i < length tokens. \<exists>a ibc m. ACCOMPLICE_DST s = Some a \<and>
       accomplice_send h a bridge ibc (tokens ! i) s = (Ok m, s) \<and> map submsg_new out ! Suc (2 * i) = submsg_new m"
    using sent(3) shape(2) len by (fastforce simp: max_def)
  have even: "\<forall>j\<in>?P. \<exists>ibc m. og_receiver ibc = rcv \<and> og_channel_id ibc = ch \<and>
       send_clone h env bridge ibc (?clone j) = Ok m \<and> map submsg_new out ! j = submsg_new m"
    using c by (fastforce simp: clone_positions_def)
  have fresh: "\<forall>j\<in>?P. fresh (?clone j) s t" using c by blast
  show ?thesis
    unfolding resp length_map using cfg tok len odd inj even fresh by blast
qed

text \<open>
  What \<^verbatim>\<open>cw721_base\<close> promises of its tokens, for a function \<open>own\<close> that reads the owner of a token off its
  storage: minting refuses an identifier that is taken and gives a new one to the owner of the
  message; counting the tokens and naming a minter touch no token.
\<close>

definition mint_laws :: "('b, 'e, 'x, 'o) base_ops \<Rightarrow> ('b \<Rightarrow> string \<Rightarrow> string option) \<Rightarrow> bool" where
  "mint_laws ops own \<longleftrightarrow>
     (\<forall>env info m b r b'. base_mint ops env info m b = (Ok r, b') \<longrightarrow>
        own b (mint_token_id m) = None \<and> own b' = (own b)(mint_token_id m \<mapsto> mint_owner m)) \<and>
     (\<forall>b n b'. token_count ops b = (Ok n, b') \<longrightarrow> own b' = own b) \<and>
     (\<forall>a b u b'. minter_save ops a b = (Ok u, b') \<longrightarrow> own b' = own b)"

lemma in_virus_base_Ok_iff [prog_iffs]:
  "in_virus_base m s = (Ok x, t) \<longleftrightarrow> (\<exists>b. m (virus_base s) = (Ok x, b) \<and> t = s\<lparr>virus_base := b\<rparr>)"
  by (auto simp: in_virus_base_def zoom_def split: prod.splits)

text \<open>The clone did not exist before, and is the bridge's afterwards.\<close>

definition cloned_to :: "('b \<Rightarrow> string \<Rightarrow> string option) \<Rightarrow> addr \<Rightarrow> string \<Rightarrow> 'b Virus \<Rightarrow> 'b Virus \<Rightarrow> bool" where
  "cloned_to own bridge tid s t \<longleftrightarrow>
     own (virus_base s) tid = None \<and> own (virus_base t) tid = Some (addr_str bridge)"

lemma mint_clone_mints:
  assumes "mint_laws ops own" and "mint_clone ops env info bridge i s = (Ok tid, t)"
  shows "own (virus_base s) tid = None"
    and "own (virus_base t) = (own (virus_base s))(tid \<mapsto> addr_str bridge)"
proof -
  obtain n b1 b2 r b3 where run: "token_count ops (virus_base s) = (Ok n, b1)" "minter_save ops (info_sender info) b1 = (Ok (), b2)"
    "base_mint ops env info \<lparr>mint_token_id = tid, mint_owner = addr_str bridge,
        mint_token_uri = Some (''https://virus.com/'' @ tid)\<rparr> b2 = (Ok r, b3)" "virus_base t = b3"
    using assms(2) by (auto simp: mint_clone_def Let_def prog_iffs)
  have "own b1 = own (virus_base s)" "own b2 = own b1" using assms(1) run(1,2) by (auto simp: mint_laws_def)
  moreover have "own b2 tid = None" "own b3 = (own b2)(tid \<mapsto> addr_str bridge)"
    using assms(1) run(3) by (fastforce simp: mint_laws_def)+
  ultimately show "own (virus_base s) tid = None" "own (virus_base t) = (own (virus_base s))(tid \<mapsto> addr_str bridge)"
    by (simp_all add: run(4))
qed

lemma clones_by_minting:
  fixes ops :: "('b, 'e, 'x, 'o) base_ops"
  assumes "mint_laws ops own"
  shows "clones_by ops env info bridge (\<lambda>s t. own (virus_base s) \<subseteq>\<^sub>m own (virus_base t)) (cloned_to own bridge)"
  unfolding clones_by_def
proof (intro conjI allI impI)
  fix i tid and s t :: "'b Virus" assume run: "mint_clone ops env info bridge i s = (Ok tid, t)"
  note m = mint_clone_mints [OF assms run]
  show "own (virus_base s) \<subseteq>\<^sub>m own (virus_base t)" using m by (auto simp: map_le_def)
  show "cloned_to own bridge tid s t" using m by (simp add: cloned_to_def)
next
  fix tid and s u v t :: "'b Virus"
  assume "own (virus_base s) \<subseteq>\<^sub>m own (virus_base u)" "cloned_to own bridge tid u v" "own (virus_base v) \<subseteq>\<^sub>m own (virus_base t)"
  then show "cloned_to own bridge tid s t" by (auto simp: cloned_to_def map_le_def dom_def)
qed (auto intro: map_le_trans)

section \<open>Properties\<close>

text \<open>C38: A transfer request to the virus that succeeds transfers nothing. It sends at least ten messages,
  or two per token the accomplice reports: alternating, a freshly minted clone handed to the bridge
  and one token of the accomplice sent to the bridge, then clones only. Every clone is addressed to
  the configured receiver and channel, and all clones of one request have distinct identifiers.\<close>

theorem virus_transfer_messages:
  assumes "virus_execute ops h env info (BaseTransferNft recipient token) s = (Ok resp, t)"
  shows "\<exists>bridge rcv ch tokens clone.
    BRIDGE_CONTRACT s = Some bridge \<and> ACCOMPLICE_SRC s = Some rcv \<and> CHANNEL_ID s = Some ch \<and>
    (case ACCOMPLICE_DST s of
       None \<Rightarrow> tokens = []
     | Some a \<Rightarrow> query_tokens h a (addr_str (env_contract env)) 6 = Ok tokens) \<and>
    length (messages resp) = max 10 (2 * length tokens) \<and>
    (\<forall>i < length tokens. \<exists>a ibc m. ACCOMPLICE_DST s = Some a \<and>
       accomplice_send h a bridge ibc (tokens ! i) s = (Ok m, s) \<and> messages resp ! Suc (2 * i) = submsg_new m) \<and>
    inj_on clone (clone_positions (length tokens) (length (messages resp))) \<and>
    (\<forall>j \<in> clone_positions (length tokens) (length (messages resp)). \<exists>ibc m.
       og_receiver ibc = rcv \<and> og_channel_id ibc = ch \<and>
       send_clone h env bridge ibc (clone j) = Ok m \<and> messages resp ! j = submsg_new m)"
  using virus_transfer_shape [OF assms clones_by_any] by blast

definition sample_virus_host :: virus_host where
  "sample_virus_host = \<lparr>vh_addr_validate = (\<lambda>s. Ok (Addr s)), query_tokens = (\<lambda>_ _ _. Ok [''7'']),
     to_binary_outgoing = (\<lambda>m. Ok (put_outgoing m)), vh_to_binary_cw721 = (\<lambda>m. Ok (code_cw721 m)),
     into_cosmos_msg = (\<lambda>m a. Ok (Wasm (WasmExecute (addr_str a) (code_execute (ReceiveNft m))))),
     plus_seconds = (\<lambda>t n. Ok (t + of_nat n * 1000000000))\<rparr>"

text \<open>The sample base contract lists its tokens with their owners and refuses to mint a taken identifier.\<close>

definition sample_virus_ops :: "((string \<times> string) list, StdError, ExtensionMsg, string) base_ops" where
  "sample_virus_ops = \<lparr>base_instantiate = (\<lambda>_ _ _. ret (response [] [])), base_execute = (\<lambda>_ _ _. ret (response [] [])),
     token_count = reads (\<lambda>ts. of_nat (length ts)), minter_save = (\<lambda>_. ret ()),
     base_mint = (\<lambda>_ _ m. bnd (reads (\<lambda>ts. map_of ts (mint_token_id m) \<noteq> None)) (\<lambda>taken.
       if taken then throw (GenericErr ''claimed'')
       else bnd (writes (\<lambda>ts. (mint_token_id m, mint_owner m) # ts)) (\<lambda>_. ret (response [] [])))),
     base_std = (\<lambda>e. e)\<rparr>"

lemma sample_mint_laws: "mint_laws sample_virus_ops map_of"
  by (auto simp: mint_laws_def sample_virus_ops_def prog_iffs split: if_splits)

definition sample_virus :: "(string \<times> string) list Virus" where
  "sample_virus = \<lparr>virus_base = [], ACCOMPLICE_SRC = Some ''remote'', ACCOMPLICE_DST = Some (Addr ''accomplice''),
     BRIDGE_CONTRACT = Some (Addr ''bridge''), CHANNEL_ID = Some ''channel-0'', virus_version = None\<rparr>"

text \<open>The running number of a clone is new as long as the clones so far have smaller ones.\<close>

definition numbered :: "Env \<Rightarrow> nat \<Rightarrow> (string \<times> string) list Virus \<Rightarrow> bool" where
  "numbered env n s \<longleftrightarrow> (\<forall>x \<in> set (virus_base s). \<exists>c i. fst x = clone_id c env i \<and> i < n)"

lemma numbered_mono: "numbered env n s \<Longrightarrow> n \<le> m \<Longrightarrow> numbered env m s"
  unfolding numbered_def by (meson less_le_trans)

lemma sample_mint:
  assumes "numbered env i s"
  shows "\<exists>t. mint_clone sample_virus_ops env info bridge i s = (Ok (clone_id (of_nat (length (virus_base s))) env i), t) \<and>
    numbered env (Suc i) t"
proof -
  have "map_of (virus_base s) (clone_id c env i) = None" for c
    unfolding map_of_eq_None_iff using assms by (force simp: numbered_def dest: clone_id_inj)
  then show ?thesis
    using assms
    by (simp add: mint_clone_def sample_virus_ops_def in_virus_base_def zoom_def prog_defs Let_def numbered_def)
      (metis less_Suc_eq lessI)
qed

lemma sample_pad:
  "numbered env (length msgs) s \<Longrightarrow>
   \<exists>out t. pad_with_clones sample_virus_ops sample_virus_host env info bridge tstamp ibc msgs s = (Ok out, t)"
proof (induction sample_virus_ops sample_virus_host env info bridge tstamp ibc msgs arbitrary: s
    rule: pad_with_clones.induct)
  case (1 env info bridge tstamp ibc msgs)
  obtain t where t: "mint_clone sample_virus_ops env info bridge (length msgs) s =
      (Ok (clone_id (of_nat (length (virus_base s))) env (length msgs)), t)" "numbered env (Suc (length msgs)) t"
    using sample_mint [OF "1.prems"] by blast
  with 1 show ?case
    by (subst pad_with_clones.simps) (auto simp: bnd_def t(1) lift_def ret_def send_clone_def sample_virus_host_def)
qed

lemma sample_virus_runs:
  "\<exists>resp t. virus_execute sample_virus_ops sample_virus_host env info (BaseTransferNft rc tk) sample_virus = (Ok resp, t)"
proof -
  have empty: "numbered env 0 sample_virus" by (simp add: numbered_def sample_virus_def)
  obtain t0 where t0: "mint_clone sample_virus_ops env info (Addr ''bridge'') 0 sample_virus =
      (Ok (clone_id (of_nat (length (virus_base sample_virus))) env 0), t0)" "numbered env (Suc 0) t0"
    using sample_mint [OF empty] by blast
  have mid: "\<exists>r. interleave sample_virus_ops sample_virus_host env info (Addr ''bridge'') ibc [m] sample_virus = (Ok [r, m], t0)"
    for ibc m
    by (simp add: interleave_def bnd_def t0(1) lift_def ret_def send_clone_def sample_virus_host_def)
  then obtain f where f: "\<And>ibc m. interleave sample_virus_ops sample_virus_host env info (Addr ''bridge'')
      ibc [m] sample_virus = (Ok [f ibc m, m], t0)"
    by metis
  have "\<exists>r. pad_with_clones sample_virus_ops sample_virus_host env info (Addr ''bridge'') ts ibc [x, y] t0 = (Ok (fst r), snd r)"
    for ts ibc x y
    using sample_pad [of env "[x, y]" t0] numbered_mono [OF t0(2), of "length [x, y]"] by simp
  then obtain g where g: "\<And>ts ibc x y. pad_with_clones sample_virus_ops sample_virus_host env info (Addr ''bridge'')
      ts ibc [x, y] t0 = (Ok (fst (g ts ibc x y)), snd (g ts ibc x y))"
    by metis
  have acc: "accomplice_send sample_virus_host (Addr ''accomplice'') (Addr ''bridge'') ibc tk s =
      (Ok (Wasm (WasmExecute ''accomplice'' (code_cw721 (SendNft ''bridge'' tk (put_outgoing ibc))))), s)" for ibc tk s
    by (simp add: accomplice_send_def bnd_def lift_def ret_def sample_virus_host_def)
  have host: "query_tokens sample_virus_host a b n = Ok [''7'']"
    "plus_seconds sample_virus_host t k = Ok (t + of_nat k * 1000000000)" for a b n t k
    by (simp_all add: sample_virus_host_def)
  have cfg: "ACCOMPLICE_SRC sample_virus = Some ''remote''" "ACCOMPLICE_DST sample_virus = Some (Addr ''accomplice'')"
    "BRIDGE_CONTRACT sample_virus = Some (Addr ''bridge'')" "CHANNEL_ID sample_virus = Some ''channel-0''"
    by (simp_all add: sample_virus_def)
  show ?thesis
    by (simp add: virus_execute_def execute_transfer_nft_def err_into_def bnd_def reads_def load_def lift_def ret_def
        host acc f g cfg Let_def)
qed

theorem virus_transfer_messages_witness:
  "\<exists>resp t. virus_execute sample_virus_ops sample_virus_host sample_env \<lparr>info_sender = Addr ''mallory''\<rparr>
     (BaseTransferNft ''bob'' ''1'') sample_virus = (Ok resp, t) \<and> length (messages resp) = 10"
proof -
  obtain resp t where run: "virus_execute sample_virus_ops sample_virus_host sample_env \<lparr>info_sender = Addr ''mallory''\<rparr>
     (BaseTransferNft ''bob'' ''1'') sample_virus = (Ok resp, t)"
    using sample_virus_runs by blast
  obtain tokens where "length (messages resp) = max 10 (2 * length tokens)"
    "query_tokens sample_virus_host (Addr ''accomplice'') ''bridge'' 6 = Ok tokens"
    using virus_transfer_messages [OF run] by (auto simp: sample_virus_def)
  with run show ?thesis by (auto simp: sample_virus_host_def)
qed

text \<open>The virus's settings are written as given: exactly the provided ones are replaced, addresses
  after validation; an invalid accomplice address makes the call fail. Until a receiver, a channel
  and a bridge are set, a transfer request fails and writes nothing.\<close>

theorem spike_protein_settings:
  "(virus_execute ops h env info (BaseExtension (UpdateSpikeProteins asrc dst ch br)) s = (Ok resp, t) \<longleftrightarrow>
      (\<exists>d b. map_transpose (vh_addr_validate h) dst = Ok d \<and> map_transpose (vh_addr_validate h) br = Ok b \<and>
         resp = response [] [] \<and>
         t = s\<lparr>ACCOMPLICE_SRC := (if asrc = None then ACCOMPLICE_SRC s else asrc),
               ACCOMPLICE_DST := (if d = None then ACCOMPLICE_DST s else d),
               CHANNEL_ID := (if ch = None then CHANNEL_ID s else ch),
               BRIDGE_CONTRACT := (if b = None then BRIDGE_CONTRACT s else b)\<rparr>)) \<and>
   (ACCOMPLICE_SRC s = None \<or> CHANNEL_ID s = None \<or> BRIDGE_CONTRACT s = None \<longrightarrow>
      (\<exists>ty. virus_execute ops h env info (BaseTransferNft rc tk) s = (Err (base_std ops (NotFound ty)), s)))"
proof
  show "virus_execute ops h env info (BaseExtension (UpdateSpikeProteins asrc dst ch br)) s = (Ok resp, t) \<longleftrightarrow>
      (\<exists>d b. map_transpose (vh_addr_validate h) dst = Ok d \<and> map_transpose (vh_addr_validate h) br = Ok b \<and>
         resp = response [] [] \<and>
         t = s\<lparr>ACCOMPLICE_SRC := (if asrc = None then ACCOMPLICE_SRC s else asrc),
               ACCOMPLICE_DST := (if d = None then ACCOMPLICE_DST s else d),
               CHANNEL_ID := (if ch = None then CHANNEL_ID s else ch),
               BRIDGE_CONTRACT := (if b = None then BRIDGE_CONTRACT s else b)\<rparr>)"
    by (cases asrc; cases dst; cases ch; cases br)
      (auto simp: virus_execute_def update_spike_proteins_def save_if_def prog_iffs map_ok_Ok_iff)
  show "ACCOMPLICE_SRC s = None \<or> CHANNEL_ID s = None \<or> BRIDGE_CONTRACT s = None \<longrightarrow>
      (\<exists>ty. virus_execute ops h env info (BaseTransferNft rc tk) s = (Err (base_std ops (NotFound ty)), s))"
    by (cases "ACCOMPLICE_SRC s"; cases "CHANNEL_ID s"; cases "BRIDGE_CONTRACT s")
      (auto simp: virus_execute_def execute_transfer_nft_def err_into_def bnd_def reads_def load_def)
qed

theorem spike_protein_settings_witness:
  "\<exists>ty. virus_execute sample_virus_ops sample_virus_host sample_env \<lparr>info_sender = Addr ''x''\<rparr>
     (BaseTransferNft ''bob'' ''1'') (sample_virus\<lparr>CHANNEL_ID := None\<rparr>) =
     (Err (NotFound ty), sample_virus\<lparr>CHANNEL_ID := None\<rparr>)"
  using spike_protein_settings
    [of sample_virus_ops sample_virus_host sample_env "\<lparr>info_sender = Addr ''x''\<rparr>" None None None None
      "sample_virus\<lparr>CHANNEL_ID := None\<rparr>" "response [] []" "sample_virus\<lparr>CHANNEL_ID := None\<rparr>"]
  by (simp add: sample_virus_ops_def)

end
