(* ===== verification/Bridge_Infection.thy ===== *)
theory Bridge_Infection
  imports Bridge_System Cw721_Virus
begin

text \<open>
  The bridge and the virus collection together. A packet with a token of the virus that times out
  makes the bridge hand the token back, and the virus answers that transfer with clones delivered to
  the bridge, each of which the bridge sends away in a packet of its own. Proved: one failed packet
  becomes at least five new ones, whatever else the bridge holds.
\<close>

section \<open>A delivery the bridge cannot refuse\<close>

text \<open>
  What the two contracts rely on of the chain and the crates between them: the virus has a valid
  address, packets can be encoded, what the virus encodes for the bridge the bridge decodes, and a
  receive message is wrapped as the bridge's own message. A query for a token is answered when the
  token exists, and may fail otherwise.
\<close>

definition infectable :: "host \<Rightarrow> virus_host \<Rightarrow> (ExecuteMsg \<Rightarrow> binary) \<Rightarrow> addr \<Rightarrow> bool" where
  "infectable h vh enc virus \<longleftrightarrow>
     host_ok h \<and> real_addr virus \<and> addr_validate h (addr_str virus) = Ok virus \<and>
     (\<forall>d. \<exists>b. to_binary_packet h d = Ok b) \<and>
     (\<forall>m b. to_binary_outgoing vh m = Ok b \<longrightarrow> from_binary_outgoing h b = Ok m) \<and>
     (\<forall>m c. into_cosmos_msg vh m c = Ok (Wasm (WasmExecute (addr_str c) (enc (ReceiveNft m)))))"

definition answers_for :: "host \<Rightarrow> addr \<Rightarrow> (string \<Rightarrow> string option) \<Rightarrow> bool" where
  "answers_for h virus owners \<longleftrightarrow> (\<forall>t. owners t \<noteq> None \<longrightarrow> (\<exists>i. query_nft_info h virus t = Ok i))"

definition ready :: "addr \<Rightarrow> ClassId \<Rightarrow> Bridge \<Rightarrow> bool" where
  "ready virus cid s \<longleftrightarrow>
     bridge_inv s \<and> paused (PO s) = Some False \<and> PROXY s = Some None \<and> NFT_CONTRACT_TO_CLASS_ID s virus = Some cid \<and>
     class_key_fits cid"

lemma deliver_one:
  assumes "infectable h vh enc virus" and "ready virus cid s"
    and "crm_sender m = addr_str virus" and "from_binary_outgoing h (crm_msg m) = Ok og"
    and "\<exists>i. query_nft_info h virus (crm_token_id m) = Ok i"
  shows "\<exists>resp bytes t. execute h env \<lparr>info_sender = virus\<rparr> (ReceiveNft m) s = (Ok resp, t) \<and>
    messages resp = [submsg_new (Ibc (SendPacket (og_channel_id og) bytes (og_timeout og)))] \<and>
    ready virus cid t \<and>
    OUTGOING_CLASS_TOKEN_TO_CHANNEL t = (OUTGOING_CLASS_TOKEN_TO_CHANNEL s)((cid, TokenId (crm_token_id m)) \<mapsto> og_channel_id og)"
proof -
  note inf = assms(1) [unfolded infectable_def]
  have reg: "bridge_inv s" "registry_inv s" "class_inv s" "NFT_CONTRACT_TO_CLASS_ID s virus = Some cid"
    "paused (PO s) = Some False" "PROXY s = Some None" "class_key_fits cid"
    using assms(2) by (auto simp: ready_def bridge_inv_def)
  then obtain cls where cls: "CLASS_ID_TO_CLASS s cid = Some cls" "cls_id cls = cid"
    by (fastforce simp: registry_inv_def class_inv_def)
  have known: "class_of_contract virus s = (Ok cls, s)" using reg(4) cls(1) by (simp add: class_of_contract_run)
  let ?tid = "TokenId (crm_token_id m)" and ?t = "outgoing_save (cid, TokenId (crm_token_id m)) (og_channel_id og) s"
  obtain uri where uri: "query_nft_info h virus (crm_token_id m) = Ok (UniversalNftInfoResponse uri ())"
    using assms(5) by auto
  obtain bytes where bytes: "to_binary_packet h (outgoing_packet cls ?tid uri (stored_data s cls ?tid) virus og) = Ok bytes"
    using inf by blast
  have run: "execute h env \<lparr>info_sender = virus\<rparr> (ReceiveNft m) s = (Ok (sent_response cls ?tid og bytes), ?t)"
    using inf assms(3,4) reg(5-7) known uri bytes cls(2)
    by (simp add: execute_Ok_iff execute_receive_nft_Ok_iff receive_nft_Ok_iff)
  have "bridge_step s (Sent (og_channel_id og) (cls_id cls, ?tid)) ?t"
    by (rule step_send [OF _ _ _ run known]) (use inf cls(2) in \<open>simp_all add: outgoing.look_save\<close>)
  then have "bridge_inv ?t" using reg(1) by (blast intro: step_inv step_refines_spec)
  with run reg show ?thesis
    by (intro exI [of _ "sent_response cls ?tid og bytes"] exI [of _ bytes] exI [of _ ?t])
      (auto simp: sent_response_def response_def ready_def store_eqs)
qed

lemma deliver_all:
  assumes "infectable h vh enc virus" and "ready virus cid s"
    and "\<forall>m \<in> set ms. crm_sender m = addr_str virus \<and>
      (\<exists>og. from_binary_outgoing h (crm_msg m) = Ok og \<and> og_channel_id og = ch) \<and>
      (\<exists>i. query_nft_info h virus (crm_token_id m) = Ok i)"
  shows "\<exists>rs t. traverse (\<lambda>m. execute h env \<lparr>info_sender = virus\<rparr> (ReceiveNft m)) ms s = (Ok rs, t) \<and>
    list_all2 (\<lambda>m r. \<exists>bytes tmo. messages r = [submsg_new (Ibc (SendPacket ch bytes tmo))]) ms rs \<and>
    OUTGOING_CLASS_TOKEN_TO_CHANNEL t =
      (\<lambda>k. if k \<in> (\<lambda>m. (cid, TokenId (crm_token_id m))) ` set ms then Some ch else OUTGOING_CLASS_TOKEN_TO_CHANNEL s k)"
  using assms(2,3)
proof (induction ms arbitrary: s)
  case Nil
  then show ?case by (simp add: ret_def)
next
  case (Cons m ms)
  then obtain og where og: "from_binary_outgoing h (crm_msg m) = Ok og" "og_channel_id og = ch" "crm_sender m = addr_str virus"
    and ans: "\<exists>i. query_nft_info h virus (crm_token_id m) = Ok i"
    by auto
  obtain r bytes s1 where one: "execute h env \<lparr>info_sender = virus\<rparr> (ReceiveNft m) s = (Ok r, s1)"
    "messages r = [submsg_new (Ibc (SendPacket ch bytes (og_timeout og)))]" "ready virus cid s1"
    "OUTGOING_CLASS_TOKEN_TO_CHANNEL s1 = (OUTGOING_CLASS_TOKEN_TO_CHANNEL s)((cid, TokenId (crm_token_id m)) \<mapsto> ch)"
    using deliver_one [OF assms(1) Cons.prems(1) og(3,1) ans] og(2) by blast
  obtain rs t where "traverse (\<lambda>m. execute h env \<lparr>info_sender = virus\<rparr> (ReceiveNft m)) ms s1 = (Ok rs, t)"
    "list_all2 (\<lambda>m r. \<exists>bytes tmo. messages r = [submsg_new (Ibc (SendPacket ch bytes tmo))]) ms rs"
    "OUTGOING_CLASS_TOKEN_TO_CHANNEL t =
      (\<lambda>k. if k \<in> (\<lambda>m. (cid, TokenId (crm_token_id m))) ` set ms then Some ch else OUTGOING_CLASS_TOKEN_TO_CHANNEL s1 k)"
    using Cons.IH [OF one(3)] Cons.prems(2) by auto
  with one show ?case by (auto simp: bnd_def ret_def fun_eq_iff)
qed

section \<open>The clones of a transfer request\<close>

lemma clone_positions_five:
  assumes "10 \<le> n"
  shows "5 \<le> card (clone_positions k n)"
proof -
  have "card {0, 2, 4, 6, 8 :: nat} \<le> card (clone_positions k n)"
    using assms by (intro card_mono) (auto simp: clone_positions_def)
  then show ?thesis by simp
qed

lemma clone_deliveries:
  assumes "infectable h vh enc virus" and "env_contract env = virus"
    and "virus_execute ops vh env info (BaseTransferNft rc tk) v = (Ok resp, v')" and "mint_laws ops own"
  obtains bridge ch ms where "BRIDGE_CONTRACT v = Some bridge" "CHANNEL_ID v = Some ch" "5 \<le> length ms"
    "distinct (map crm_token_id ms)"
    "\<forall>m \<in> set ms. submsg_new (Wasm (WasmExecute (addr_str bridge) (enc (ReceiveNft m)))) \<in> set (messages resp) \<and>
       crm_sender m = addr_str virus \<and> (\<exists>og. from_binary_outgoing h (crm_msg m) = Ok og \<and> og_channel_id og = ch) \<and>
       own (virus_base v) (crm_token_id m) = None \<and> own (virus_base v') (crm_token_id m) = Some (addr_str bridge)"
proof -
  note inf = assms(1) [unfolded infectable_def]
  obtain bridge where bridge: "BRIDGE_CONTRACT v = Some bridge"
    using virus_transfer_shape [OF assms(3) clones_by_any] by blast
  have "clones_by ops env info x (\<lambda>s t. own (virus_base s) \<subseteq>\<^sub>m own (virus_base t)) (cloned_to own bridge)"
    if "BRIDGE_CONTRACT v = Some x" for x
    using clones_by_minting [OF assms(4), of env info bridge] that bridge by simp
  from virus_transfer_shape [OF assms(3) this] obtain rcv ch and tokens :: "string list" and clone where
    cfg: "BRIDGE_CONTRACT v = Some bridge" "CHANNEL_ID v = Some ch" and
    len: "length (messages resp) = max 10 (2 * length tokens)" and
    inj: "inj_on clone (clone_positions (length tokens) (length (messages resp)))" and
    sent: "\<forall>j \<in> clone_positions (length tokens) (length (messages resp)). \<exists>ibc m.
       og_receiver ibc = rcv \<and> og_channel_id ibc = ch \<and> send_clone vh env bridge ibc (clone j) = Ok m \<and> messages resp ! j = submsg_new m" and
    fresh: "\<forall>j \<in> clone_positions (length tokens) (length (messages resp)). cloned_to own bridge (clone j) v v'"
    using bridge by auto
  let ?P = "clone_positions (length tokens) (length (messages resp))"
  let ?ok = "\<lambda>j m. submsg_new (Wasm (WasmExecute (addr_str bridge) (enc (ReceiveNft m)))) \<in> set (messages resp) \<and>
       crm_sender m = addr_str virus \<and> (\<exists>og. from_binary_outgoing h (crm_msg m) = Ok og \<and> og_channel_id og = ch) \<and>
       crm_token_id m = clone j"
  have "\<exists>m. ?ok j m" if "j \<in> ?P" for j
  proof -
    from bspec [OF sent that] obtain ibc c where c: "og_channel_id ibc = ch" "send_clone vh env bridge ibc (clone j) = Ok c"
      "messages resp ! j = submsg_new c" by (elim exE conjE)
    then obtain bytes where bytes: "to_binary_outgoing vh ibc = Ok bytes"
      by (auto simp: send_clone_def split: outcome.splits)
    let ?m = "\<lparr>crm_sender = addr_str virus, crm_token_id = clone j, crm_msg = bytes\<rparr>"
    have "c = Wasm (WasmExecute (addr_str bridge) (enc (ReceiveNft ?m)))"
      using c(2) bytes inf assms(2) by (simp add: send_clone_def)
    moreover have "messages resp ! j \<in> set (messages resp)" using that by (simp add: clone_positions_def)
    ultimately have "?ok j ?m" using c bytes inf by auto
    then show ?thesis by blast
  qed
  then obtain f where f: "\<forall>j \<in> ?P. ?ok j (f j)" by metis
  have fin: "finite ?P" by (simp add: clone_positions_def)
  let ?ms = "map f (sorted_list_of_set ?P)"
  have "distinct (map crm_token_id ?ms)"
    using inj f fin by (simp add: distinct_map inj_on_def)
  moreover have "5 \<le> length ?ms" using clone_positions_five [of "length (messages resp)"] len by simp
  ultimately show thesis using that [OF cfg, of ?ms] f fin fresh by (auto simp: cloned_to_def)
qed

section \<open>Properties\<close>

text \<open>C9: One failed packet of the virus becomes at least five. When a packet with a token of the virus
  collection, recorded as away, times out at an unpaused bridge without proxy, the bridge asks the virus to
  transfer the token back; if the virus, set up for that bridge, accepts, then among its answers are
  at least five deliveries of different fresh tokens to the bridge: tokens that did not exist before and
  that the virus has minted to the bridge. The bridge carries all the deliveries out one after the
  other, each becomes a packet of its own on the channel the virus has chosen, and each fresh token is recorded
  as away on it, so that its timeout starts the same again. The virus answers the bridge's query for
  tokens that exist after its call; nothing is assumed of other tokens.\<close>

theorem failed_packet_multiplies:
  assumes "infectable h vh enc virus" and "cw721_encoder h cenc" and "env_contract venv = virus"
    and "reachable b" and "paused (PO b) = Some False" and "PROXY b = Some None"
    and "from_binary_packet h (pkt_data p) = Ok d" and "token_ids d = [t]"
    and "CLASS_ID_TO_NFT_CONTRACT b (class_id d) = Some virus" and "addr_validate h (sender d) = Ok owner"
    and "virus_execute ops vh venv \<lparr>info_sender = env_contract env\<rparr>
      (BaseTransferNft (addr_str owner) (token_id_str t)) v = (Ok resp, v')"
    and "BRIDGE_CONTRACT v = Some (env_contract env)" and "CHANNEL_ID v = Some ch"
    and "OUTGOING_CLASS_TOKEN_TO_CHANNEL b (class_id d, t) \<noteq> None"
    and "mint_laws ops own" and "answers_for h virus (own (virus_base v'))"
  shows "\<exists>r b1 ms rs b2.
    ibc_packet_timeout h p b = (Ok r, b1) \<and> basic_messages r = [transfer_call cenc virus owner t] \<and>
    5 \<le> length ms \<and> distinct (map crm_token_id ms) \<and>
    (\<forall>m \<in> set ms. submsg_new (Wasm (WasmExecute (addr_str (env_contract env)) (enc (ReceiveNft m)))) \<in> set (messages resp) \<and>
       own (virus_base v) (crm_token_id m) = None \<and>
       own (virus_base v') (crm_token_id m) = Some (addr_str (env_contract env))) \<and>
    traverse (\<lambda>m. execute h env \<lparr>info_sender = virus\<rparr> (ReceiveNft m)) ms b1 = (Ok rs, b2) \<and>
    list_all2 (\<lambda>m r. \<exists>bytes tmo. messages r = [submsg_new (Ibc (SendPacket ch bytes tmo))]) ms rs \<and>
    (\<forall>m \<in> set ms. OUTGOING_CLASS_TOKEN_TO_CHANNEL b2 (class_id d, TokenId (crm_token_id m)) = Some ch)"
proof -
  have inv: "bridge_inv b" using assms(4) by (rule reachable_inv)
  then have fits: "class_key_fits (class_id d)" using assms(14) by (fastforce simp: bridge_inv_def token_inv_def)
  obtain r where r: "ibc_packet_timeout h p b = (Ok r, refunded d b)" "basic_messages r = [transfer_call cenc virus owner t]"
    using handle_packet_fail_run [OF assms(7,9,10,2) fits] assms(8) by (auto simp: ibc_packet_timeout_def)
  have "bridge_step b (Refunded (map (Pair (class_id d)) (token_ids d))) (refunded d b)"
    using step_refund_timeout [OF _ r(1) assms(7)] assms(1) by (simp add: infectable_def)
  then have "bridge_inv (refunded d b)" using inv by (blast intro: step_inv step_refines_spec)
  moreover have "NFT_CONTRACT_TO_CLASS_ID b virus = Some (class_id d)"
    using inv assms(9) by (simp add: bridge_inv_def registry_inv_def)
  ultimately have ready: "ready virus (class_id d) (refunded d b)"
    using assms(5,6) fits by (simp add: ready_def refunded_def)
  obtain bridge c ms where "BRIDGE_CONTRACT v = Some bridge" "CHANNEL_ID v = Some c" and len: "5 \<le> length ms"
    "distinct (map crm_token_id ms)" and
    sent: "\<forall>m \<in> set ms. submsg_new (Wasm (WasmExecute (addr_str bridge) (enc (ReceiveNft m)))) \<in> set (messages resp) \<and>
       crm_sender m = addr_str virus \<and> (\<exists>og. from_binary_outgoing h (crm_msg m) = Ok og \<and> og_channel_id og = c) \<and>
       own (virus_base v) (crm_token_id m) = None \<and> own (virus_base v') (crm_token_id m) = Some (addr_str bridge)"
    by (rule clone_deliveries [OF assms(1,3,11,15)])
  then have "bridge = env_contract env" "c = ch" using assms(12,13) by simp_all
  note sent = sent [unfolded this]
  have "\<forall>m \<in> set ms. crm_sender m = addr_str virus \<and> (\<exists>og. from_binary_outgoing h (crm_msg m) = Ok og \<and> og_channel_id og = ch) \<and>
      (\<exists>i. query_nft_info h virus (crm_token_id m) = Ok i)"
    using sent assms(16) by (auto simp: answers_for_def)
  from deliver_all [OF assms(1) ready this, of env] obtain rs b2 where
    "traverse (\<lambda>m. execute h env \<lparr>info_sender = virus\<rparr> (ReceiveNft m)) ms (refunded d b) = (Ok rs, b2)"
    "list_all2 (\<lambda>m r. \<exists>bytes tmo. messages r = [submsg_new (Ibc (SendPacket ch bytes tmo))]) ms rs"
    "\<forall>m \<in> set ms. OUTGOING_CLASS_TOKEN_TO_CHANNEL b2 (class_id d, TokenId (crm_token_id m)) = Some ch" by auto
  with r len sent show ?thesis by blast
qed

text \<open>A host that answers for the tokens in a list of owners only.\<close>

definition infected_host :: "(string \<times> string) list \<Rightarrow> host" where
  "infected_host ts = (packet_host (sample_data ''nft'' [''1'']))\<lparr>
     from_binary_outgoing := (\<lambda>b. Ok (get_outgoing b)),
     query_nft_info := (\<lambda>_ t. if map_of ts t = None then Err (NotFound ''token'') else Ok (UniversalNftInfoResponse None ()))\<rparr>"

lemma infected_host_ok:
  "infectable (infected_host ts) sample_virus_host code_execute (Addr ''nft'')"
  "answers_for (infected_host ts) (Addr ''nft'') (map_of ts)"
proof -
  have "host_ok (infected_host ts)" using sample_host_ok(3) [of "sample_data ''nft'' [''1'']"]
    by (simp add: host_ok_def infected_host_def execute_encoder_def cw721_encoder_def)
  then show "infectable (infected_host ts) sample_virus_host code_execute (Addr ''nft'')" unfolding infectable_def
    by (simp add: infected_host_def packet_host_def sample_virus_host_def get_outgoing_put real_addr_def slash_free_def)
  show "answers_for (infected_host ts) (Addr ''nft'') (map_of ts)"
    by (simp add: answers_for_def infected_host_def packet_host_def)
qed

theorem failed_packet_multiplies_witness:
  "\<exists>ts r b1 rs b2 ms. ibc_packet_timeout (infected_host ts) sample_packet sample_locked = (Ok r, b1) \<and> 5 \<le> length ms \<and>
     (\<forall>m \<in> set ms. map_of ts (crm_token_id m) = Some ''bridge'') \<and>
     traverse (\<lambda>m. execute (infected_host ts) sample_env \<lparr>info_sender = Addr ''nft''\<rparr> (ReceiveNft m)) ms b1 = (Ok rs, b2) \<and>
     (\<forall>m \<in> set ms. OUTGOING_CLASS_TOKEN_TO_CHANNEL b2 (ClassId ''nft'', TokenId (crm_token_id m)) = Some ''channel-0'')"
proof -
  let ?venv = "sample_env\<lparr>env_contract := Addr ''nft''\<rparr>" and ?d = "sample_data ''nft'' [''1'']"
  obtain resp v' where run: "virus_execute sample_virus_ops sample_virus_host ?venv \<lparr>info_sender = env_contract sample_env\<rparr>
      (BaseTransferNft (addr_str (Addr ''alice'')) (token_id_str (TokenId ''1''))) sample_virus = (Ok resp, v')"
    using sample_virus_runs by blast
  let ?h = "infected_host (virus_base v')"
  have enc: "cw721_encoder ?h code_cw721"
    by (simp add: cw721_encoder_def infected_host_def packet_host_def)
  have facts: "paused (PO sample_locked) = Some False" "PROXY sample_locked = Some None"
    "CLASS_ID_TO_NFT_CONTRACT sample_locked (class_id ?d) = Some (Addr ''nft'')" "token_ids ?d = [TokenId ''1'']"
    "from_binary_packet ?h (pkt_data sample_packet) = Ok ?d" "addr_validate ?h (sender ?d) = Ok (Addr ''alice'')"
    "OUTGOING_CLASS_TOKEN_TO_CHANNEL sample_locked (class_id ?d, TokenId ''1'') \<noteq> None"
    by (simp_all add: sample_locked_def with_class_def sample_init_def sample_data_def infected_host_def packet_host_def)
  have v: "BRIDGE_CONTRACT sample_virus = Some (env_contract sample_env)" "CHANNEL_ID sample_virus = Some ''channel-0''"
    by (simp_all add: sample_virus_def)
  have ids: "class_id ?d = ClassId ''nft''" "env_contract ?venv = Addr ''nft''" "addr_str (env_contract sample_env) = ''bridge''"
    by (simp_all add: sample_data_def)
  note all = failed_packet_multiplies [OF infected_host_ok(1) enc ids(2) sample_reachable(2) facts(1,2,5,4,3,6) run v
      facts(7) sample_mint_laws infected_host_ok(2), unfolded ids(1,3)]
  then show ?thesis by (elim exE conjE) (intro exI [of _ "virus_base v'"] exI conjI, assumption, assumption, blast, assumption, assumption)
qed

end
