(* ===== verification/Bridge_Tester.thy ===== *)
theory Bridge_Tester
  imports Bridge_Helpers
begin

text \<open>
  The contract \<^verbatim>\<open>contracts/cw-ics721-bridge-tester\<close>, a counterparty whose acknowledgements can be
  chosen, used to test the bridge. It has its own copy of the handshake check, which fulfils the
  same contract as the bridge's. Its two storage items \<^verbatim>\<open>ACK_MODE\<close> and \<^verbatim>\<open>LAST_ACK\<close> are declared
  with one storage key, so storage is modelled as a map from keys.
\<close>

section \<open>State and messages\<close>

datatype Ack = Result binary | Error string

datatype AckMode = AckModeError | AckModeSuccess

datatype TesterError =
    TesterStd StdError
  | TesterOrderedChannel
  | TesterInvalidVersion string string
  | TesterDebug string

datatype TesterExecuteMsg =
    TesterCloseChannel string
  | TesterSendPacket string IbcTimeout NonFungibleTokenPacketData
  | TesterSetAckMode AckMode

datatype TesterQueryMsg = TesterQueryAckMode | TesterQueryLastAck

record Tester =
  tester_version :: "(string \<times> string) option"
  tester_items :: "string \<rightharpoonup> AckMode"

definition ACK_MODE :: string where
  "ACK_MODE = ''ack_mode''"

definition LAST_ACK :: string where
  "LAST_ACK = ''ack_mode''"

definition item_save :: "string \<Rightarrow> AckMode \<Rightarrow> Tester \<Rightarrow> Tester" where
  "item_save k v = tester_items_update (\<lambda>m. m(k \<mapsto> v))"

interpretation tester_store: store_save tester_items item_save
  by unfold_locales (simp add: item_save_def)

section \<open>Operations\<close>

text \<open>The tester has an acknowledgement type of its own; its handlers use the one of the bridge.\<close>

definition make_ack_success :: "(Ack \<Rightarrow> (StdError, binary) outcome) \<Rightarrow> ('e, binary) outcome" where
  "make_ack_success enc = unwrap (enc (Result ''1''))"

definition make_ack_fail :: "(Ack \<Rightarrow> (StdError, binary) outcome) \<Rightarrow> string \<Rightarrow> ('e, binary) outcome" where
  "make_ack_fail enc err = unwrap (enc (Error err))"

definition tester_instantiate :: "AckMode \<Rightarrow> (Tester, TesterError, Response) prog" where
  "tester_instantiate mode =
     bnd (writes (tester_version_update (\<lambda>_. Some (''crates.io:cw-icw721-bridge-tester'', ''0.1.0'')))) (\<lambda>_.
     bnd (writes (item_save ACK_MODE mode)) (\<lambda>_.
     ret (response [] [(''method'', ''instantiate'')])))"

definition execute_send_packet ::
  "host \<Rightarrow> string \<Rightarrow> IbcTimeout \<Rightarrow> NonFungibleTokenPacketData \<Rightarrow> (Tester, TesterError, Response) prog" where
  "execute_send_packet h ch tmo d =
     bnd (lift (map_err TesterStd (to_binary_packet h d))) (\<lambda>bytes.
     ret (response [submsg_new (Ibc (SendPacket ch bytes tmo))] [(''method'', ''send_packet'')]))"

definition execute_close_channel :: "string \<Rightarrow> Response" where
  "execute_close_channel ch = response [submsg_new (Ibc (CloseChannel ch))] []"

definition execute_set_ack_mode :: "AckMode \<Rightarrow> (Tester, TesterError, Response) prog" where
  "execute_set_ack_mode mode =
     bnd (writes (item_save ACK_MODE mode)) (\<lambda>_.
     ret (response [] [(''method'', ''set_ack_mode'')]))"

definition tester_execute :: "host \<Rightarrow> TesterExecuteMsg \<Rightarrow> (Tester, TesterError, Response) prog" where
  "tester_execute h msg =
     (case msg of
        TesterSendPacket ch tmo d \<Rightarrow> execute_send_packet h ch tmo d
      | TesterCloseChannel ch \<Rightarrow> ret (execute_close_channel ch)
      | TesterSetAckMode mode \<Rightarrow> execute_set_ack_mode mode)"

text \<open>The JSON encoding of an \<^verbatim>\<open>AckMode\<close> is an argument.\<close>

definition tester_query ::
  "(AckMode \<Rightarrow> (StdError, binary) outcome) \<Rightarrow> TesterQueryMsg \<Rightarrow> (Tester, StdError, binary) prog" where
  "tester_query enc msg =
     (case msg of
        TesterQueryAckMode \<Rightarrow> bnd (load ''AckMode'' (\<lambda>s. tester_items s ACK_MODE)) (\<lambda>m. lift (enc m))
      | TesterQueryLastAck \<Rightarrow> bnd (load ''AckMode'' (\<lambda>s. tester_items s LAST_ACK)) (\<lambda>m. lift (enc m)))"

definition tester_IBC_VERSION :: string where
  "tester_IBC_VERSION = ''ics721-1''"

definition tester_validate_order_and_version ::
  "IbcChannel \<Rightarrow> string option \<Rightarrow> (TesterError, unit) outcome" where
  "tester_validate_order_and_version channel cv =
     (if order channel \<noteq> Unordered then Err TesterOrderedChannel
      else if version channel \<noteq> tester_IBC_VERSION
      then Err (TesterInvalidVersion (version channel) tester_IBC_VERSION)
      else
        case cv of
          Some v \<Rightarrow>
            if v \<noteq> tester_IBC_VERSION then Err (TesterInvalidVersion v tester_IBC_VERSION) else Ok ()
        | None \<Rightarrow> Ok ())"

definition tester_channel_open :: "IbcChannelOpenMsg \<Rightarrow> (Tester, TesterError, string option) prog" where
  "tester_channel_open msg =
     bnd (lift (tester_validate_order_and_version (open_channel msg) (open_counterparty_version msg))) (\<lambda>_.
     ret None)"

definition tester_channel_connect ::
  "IbcChannelConnectMsg \<Rightarrow> (Tester, TesterError, IbcBasicResponse) prog" where
  "tester_channel_connect msg =
     bnd (lift (tester_validate_order_and_version (connect_channel msg) (connect_counterparty_version msg))) (\<lambda>_.
     ret (basic_response [] [(''method'', ''ibc_channel_connect'')]))"

definition tester_channel_close :: "IbcChannelCloseMsg \<Rightarrow> (Tester, TesterError, IbcBasicResponse) prog" where
  "tester_channel_close msg = ret (basic_response [] [(''method'', ''ibc_channel_close'')])"

definition tester_packet_receive :: "host \<Rightarrow> (Tester, 'never, IbcReceiveResponse) prog" where
  "tester_packet_receive h s =
     bnd (lift (unwrap (fst (load ''AckMode'' (\<lambda>s. tester_items s ACK_MODE) s)))) (\<lambda>mode.
     case mode of
       AckModeError \<Rightarrow>
         bnd (lift (ack_fail h ''error'')) (\<lambda>ack. ret (set_ack ack (receive_response [] [])))
     | AckModeSuccess \<Rightarrow>
         bnd (lift (ack_success h)) (\<lambda>ack. ret (set_ack ack (receive_response [] [])))) s"

definition tester_packet_ack :: "host \<Rightarrow> IbcPacketAckMsg \<Rightarrow> (Tester, TesterError, IbcBasicResponse) prog" where
  "tester_packet_ack h ack =
     bnd (lift (try_get_ack_error h (ack_data ack))) (\<lambda>err.
     bnd (writes (item_save LAST_ACK (map_or AckModeSuccess (\<lambda>_. AckModeError) err))) (\<lambda>_.
     ret (basic_response [] [(''method'', ''ibc_packet_ack'')])))"

definition tester_packet_timeout :: "(Tester, TesterError, IbcBasicResponse) prog" where
  "tester_packet_timeout = ret (basic_response [] [(''method'', ''ibc_packet_timeout'')])"

section \<open>The handshake contract\<close>

interpretation tester_handshake:
  ics721_handshake tester_validate_order_and_version tester_IBC_VERSION TesterOrderedChannel TesterInvalidVersion
proof unfold_locales
  fix c cv
  show "tester_validate_order_and_version c cv = Ok () \<longleftrightarrow>
      order c = Unordered \<and> version c = tester_IBC_VERSION \<and> cv \<in> {None, Some tester_IBC_VERSION}"
    by (auto simp: tester_validate_order_and_version_def split: option.splits)
qed (auto simp: tester_validate_order_and_version_def)

lemma tester_packet_receive_run:
  assumes "tester_items s ACK_MODE = Some mode"
    and "to_binary_ack h (case mode of AckModeError \<Rightarrow> AckError ''error'' | AckModeSuccess \<Rightarrow> AckResult ''1'') = Ok b"
  shows "tester_packet_receive h s = (Ok (set_ack b (receive_response [] [])), s)"
  using assms
  by (cases mode) (simp_all add: tester_packet_receive_def load_def ack_fail_def ack_success_def prog_simps)

section \<open>Properties\<close>

text \<open>C35: The tester opens and connects exactly the channels the bridge does: its copy of the handshake
  check accepts a channel and counterparty version if and only if the bridge's check does.\<close>

theorem tester_handshake_agrees:
  "(is_ok (fst (tester_channel_open om s)) \<longleftrightarrow>
      validate_order_and_version (open_channel om) (open_counterparty_version om) = Ok ()) \<and>
   (is_ok (fst (tester_channel_connect cm s)) \<longleftrightarrow>
      validate_order_and_version (connect_channel cm) (connect_counterparty_version cm) = Ok ()) \<and>
   snd (tester_channel_open om s) = s \<and> snd (tester_channel_connect cm s) = s"
proof (intro conjI)
  have same: "tester_validate_order_and_version c v = Ok () \<longleftrightarrow> validate_order_and_version c v = Ok ()" for c v
    unfolding tester_handshake.validate_ok_iff bridge_handshake.validate_ok_iff
    by (simp add: tester_IBC_VERSION_def IBC_VERSION_def)
  show "is_ok (fst (tester_channel_open om s)) \<longleftrightarrow>
      validate_order_and_version (open_channel om) (open_counterparty_version om) = Ok ()"
    using tester_handshake.validate_total [of "open_channel om" "open_counterparty_version om"]
    unfolding same [symmetric] by (auto simp: tester_channel_open_def bnd_def lift_def ret_def)
  show "is_ok (fst (tester_channel_connect cm s)) \<longleftrightarrow>
      validate_order_and_version (connect_channel cm) (connect_counterparty_version cm) = Ok ()"
    using tester_handshake.validate_total [of "connect_channel cm" "connect_counterparty_version cm"]
    unfolding same [symmetric] by (auto simp: tester_channel_connect_def bnd_def lift_def ret_def)
qed (auto simp: tester_channel_open_def tester_channel_connect_def prog_defs split: outcome.splits)

text \<open>Once its mode is set, the tester answers every packet with an acknowledgement of that mode as the
  bridge reads it, emits no message and writes nothing.\<close>

theorem tester_answers_by_mode:
  assumes "ack_codec_ok h" and "tester_execute h (TesterSetAckMode mode) s0 = (Ok r, s)"
  shows "\<exists>resp. tester_packet_receive h s = (Ok resp :: (TesterError, IbcReceiveResponse) outcome, s) \<and>
    recv_messages resp = [] \<and>
    try_get_ack_error h (acknowledgement resp) =
      (Ok (case mode of AckModeError \<Rightarrow> Some ''error'' | AckModeSuccess \<Rightarrow> None) ::
        (ContractError, string option) outcome)"
proof -
  let ?a = "case mode of AckModeError \<Rightarrow> AckError ''error'' | AckModeSuccess \<Rightarrow> AckResult ''1''"
  obtain b where b: "to_binary_ack h ?a = Ok b" "from_binary_ack h b = Ok ?a"
    by (rule ack_codec_okE [OF assms(1)])
  have "s = item_save ACK_MODE mode s0"
    using assms(2) by (auto simp: tester_execute_def execute_set_ack_mode_def prog_iffs)
  then have "tester_items s ACK_MODE = Some mode" by (simp add: tester_store.look_save_same)
  from tester_packet_receive_run [OF this b(1)] b(2) show ?thesis
    by (cases mode) (auto simp: try_get_ack_error_def)
qed

theorem tester_answers_by_mode_witness:
  "\<exists>resp s. tester_packet_receive sample_host s = (Ok resp :: (TesterError, IbcReceiveResponse) outcome, s) \<and>
     recv_messages resp = []"
  using tester_answers_by_mode [OF sample_host_ack_codec, of AckModeError
      "\<lparr>tester_version = None, tester_items = Map.empty\<rparr>" "response [] [(''method'', ''set_ack_mode'')]"
      "item_save ACK_MODE AckModeError \<lparr>tester_version = None, tester_items = Map.empty\<rparr>"]
  by (auto simp: tester_execute_def execute_set_ack_mode_def prog_simps)

text \<open>C36: The mode and the last acknowledgement share a storage key. An acknowledgement that arrives
  overwrites the configured mode, so the next packet is answered like the acknowledgement last
  received, and the query for the last acknowledgement answers with the configured mode although
  none has been received.\<close>

theorem last_ack_overwrites_mode:
  assumes "tester_packet_ack h a s = (Ok r, t)"
    and "try_get_ack_error h (ack_data a) = (Ok err :: (TesterError, string option) outcome)"
  shows "tester_items t ACK_MODE = Some (if err = None then AckModeSuccess else AckModeError) \<and>
    tester_query enc TesterQueryLastAck u = tester_query enc TesterQueryAckMode u"
  using assms
  by (cases err)
    (auto simp: tester_packet_ack_def prog_iffs tester_store.look_save ACK_MODE_def LAST_ACK_def tester_query_def)

theorem last_ack_overwrites_mode_witness:
  "tester_items (item_save LAST_ACK AckModeError (item_save ACK_MODE AckModeSuccess
     \<lparr>tester_version = None, tester_items = Map.empty\<rparr>)) ACK_MODE = Some AckModeError"
proof -
  let ?s = "item_save ACK_MODE AckModeSuccess \<lparr>tester_version = None, tester_items = Map.empty\<rparr>"
  let ?a = "\<lparr>ack_data = ''Eno'', original_packet = sample_packet\<rparr>"
  have err: "try_get_ack_error sample_host (ack_data ?a) = (Ok (Some ''no'') :: (TesterError, string option) outcome)"
    by (simp add: try_get_ack_error_def sample_ack_codec)
  then have "tester_packet_ack sample_host ?a ?s =
      (Ok (basic_response [] [(''method'', ''ibc_packet_ack'')]), item_save LAST_ACK AckModeError ?s)"
    by (simp add: tester_packet_ack_def prog_simps)
  from last_ack_overwrites_mode [OF this err] show ?thesis by simp
qed

end
