(* ===== verification/Cw721_Tester.thy ===== *)
theory Cw721_Tester
  imports Cw721_Base Sample_Host
begin

text \<open>
  The contract \<^verbatim>\<open>contracts/cw721-tester\<close>: a collection that behaves as \<^verbatim>\<open>cw721_base\<close> except that one
  target address cannot transfer tokens away.
\<close>

record Cw721TesterInstantiateMsg =
  tim_name :: string
  tim_symbol :: string
  tim_minter :: string
  tim_target :: string

record 'b Cw721Tester =
  gas_base :: 'b
  TARGET :: "addr option"
  gas_version :: "(string \<times> string) option"

definition in_gas_base :: "('b, 'e, 'a) prog \<Rightarrow> ('b Cw721Tester, 'e, 'a) prog" where
  "in_gas_base = zoom gas_base (\<lambda>b. gas_base_update (\<lambda>_. b))"

definition gas_tester_instantiate ::
  "('b, 'e, 'x, 'o) base_ops \<Rightarrow> (string \<Rightarrow> (StdError, addr) outcome) \<Rightarrow> Env \<Rightarrow> MessageInfo \<Rightarrow>
     Cw721TesterInstantiateMsg \<Rightarrow> ('b Cw721Tester, 'e, Response) prog" where
  "gas_tester_instantiate ops av env info msg =
     bnd (in_gas_base (base_instantiate ops env info
       \<lparr>ci_name = tim_name msg, ci_symbol = tim_symbol msg, ci_minter = tim_minter msg\<rparr>)) (\<lambda>resp.
     bnd (lift (map_err (base_std ops) (av (tim_target msg)))) (\<lambda>target.
     bnd (writes (TARGET_update (\<lambda>_. Some target))) (\<lambda>_.
     bnd (writes (gas_version_update (\<lambda>_. Some (''crates.io:cw721-gas-tester'', ''0.0.1'')))) (\<lambda>_.
     ret resp))))"

text \<open>The target is loaded only for a transfer (\<^verbatim>\<open>&&\<close> is lazy).\<close>

definition gas_tester_execute ::
  "('b, 'e, 'x, 'o) base_ops \<Rightarrow> Env \<Rightarrow> MessageInfo \<Rightarrow> ('x, 'o) BaseExecuteMsg \<Rightarrow>
     ('b Cw721Tester, 'e, Response) prog" where
  "gas_tester_execute ops env info msg =
     bnd (case msg of
            BaseTransferNft _ _ \<Rightarrow>
              bnd (err_into (base_std ops) (load ''Addr'' TARGET)) (\<lambda>target. ret (info_sender info = target))
          | _ \<Rightarrow> ret False) (\<lambda>trapped.
     if trapped then lift (Panic ''gotem'')
     else in_gas_base (base_execute ops env info msg))"

definition gas_tester_query :: "(Env \<Rightarrow> 'q \<Rightarrow> ('b, StdError, binary) prog) \<Rightarrow> Env \<Rightarrow> 'q \<Rightarrow> ('b Cw721Tester, StdError, binary) prog" where
  "gas_tester_query base_query env msg = in_gas_base (base_query env msg)"

lemma in_gas_base_run: "m (gas_base s) = (r, b) \<Longrightarrow> in_gas_base m s = (r, s\<lparr>gas_base := b\<rparr>)"
  by (simp add: in_gas_base_def zoom_def)

section \<open>Properties\<close>

text \<open>C37: The gas tester is \<^verbatim>\<open>cw721_base\<close> with a black hole: once instantiated, a transfer by the target
  panics and changes nothing, and every other message (any message of another sender, any message
  of the target that is no transfer) runs exactly as in the base contract.\<close>

theorem gas_tester_black_hole:
  assumes "gas_tester_instantiate ops av env0 info0 im s0 = (Ok r, s)" and "av (tim_target im) = Ok target"
  shows "TARGET s = Some target \<and>
    (info_sender info = target \<longrightarrow>
       gas_tester_execute ops env info (BaseTransferNft recipient tid) s = (Panic ''gotem'', s)) \<and>
    (info_sender info \<noteq> target \<or> (\<nexists>rc t. msg = BaseTransferNft rc t) \<longrightarrow>
       gas_tester_execute ops env info msg s =
         (let (res, b) = base_execute ops env info msg (gas_base s) in (res, s\<lparr>gas_base := b\<rparr>)))"
proof -
  have target: "TARGET s = Some target"
    using assms by (auto simp: gas_tester_instantiate_def prog_iffs in_gas_base_def)
  then have load: "err_into (base_std ops) (load ''Addr'' TARGET) s = (Ok target, s)"
    by (simp add: err_into_def load_simps)
  show ?thesis
  proof (intro conjI impI)
    show "gas_tester_execute ops env info (BaseTransferNft recipient tid) s = (Panic ''gotem'', s)"
      if "info_sender info = target"
      using that by (simp add: gas_tester_execute_def bnd_def load ret_def lift_def)
    show "gas_tester_execute ops env info msg s =
         (let (res, b) = base_execute ops env info msg (gas_base s) in (res, s\<lparr>gas_base := b\<rparr>))"
      if "info_sender info \<noteq> target \<or> (\<nexists>rc t. msg = BaseTransferNft rc t)"
      using that
      by (cases msg) (auto simp: gas_tester_execute_def bnd_def load ret_def in_gas_base_def zoom_def)
  qed (rule target)
qed

definition sample_ops :: "(nat, StdError, string, string) base_ops" where
  "sample_ops = \<lparr>base_instantiate = (\<lambda>_ _ _. ret (response [] [])), base_execute = (\<lambda>_ _ _. ret (response [] [])),
     token_count = reads of_nat, minter_save = (\<lambda>_. ret ()),
     base_mint = (\<lambda>_ _ _. bnd (writes Suc) (\<lambda>_. ret (response [] []))), base_std = (\<lambda>e. e)\<rparr>"

theorem gas_tester_black_hole_witness:
  "gas_tester_execute sample_ops sample_env \<lparr>info_sender = Addr ''bridge''\<rparr> (BaseTransferNft ''bob'' ''1'')
     \<lparr>gas_base = 0, TARGET = Some (Addr ''bridge''), gas_version = Some (''crates.io:cw721-gas-tester'', ''0.0.1'')\<rparr> =
   (Panic ''gotem'',
     \<lparr>gas_base = 0, TARGET = Some (Addr ''bridge''), gas_version = Some (''crates.io:cw721-gas-tester'', ''0.0.1'')\<rparr>)"
proof -
  let ?im = "\<lparr>tim_name = ''n'', tim_symbol = ''s'', tim_minter = ''m'', tim_target = ''bridge''\<rparr>"
  let ?av = "\<lambda>s :: string. (Ok (Addr s) :: (StdError, addr) outcome)"
  let ?s0 = "\<lparr>gas_base = 0 :: nat, TARGET = None, gas_version = None\<rparr>"
  have inst: "gas_tester_instantiate sample_ops ?av sample_env \<lparr>info_sender = Addr ''x''\<rparr> ?im ?s0 =
      (Ok (response [] []), \<lparr>gas_base = 0, TARGET = Some (Addr ''bridge''),
         gas_version = Some (''crates.io:cw721-gas-tester'', ''0.0.1'')\<rparr>)"
    by (simp add: gas_tester_instantiate_def sample_ops_def prog_iffs in_gas_base_def zoom_def ret_def)
  show ?thesis
    using gas_tester_black_hole [OF inst, where target = "Addr ''bridge''" and
        info = "\<lparr>info_sender = Addr ''bridge''\<rparr>" and recipient = "''bob''" and tid = "''1''" and env = sample_env]
    by simp
qed

end
