(* ===== verification/Spec2Isabelle.thy ===== *)
theory Spec2Isabelle
  imports Storage_Keys Bridge_Journey Bridge_Infection Bridge_Tester Cw721_Tester
begin

text \<open>
  A verification development for the CosmWasm implementation of ICS-721, the IBC protocol for
  transferring NFTs between chains: the bridge contract \<^verbatim>\<open>contracts/cw-ics721-bridge\<close>, the packages it
  is built on (\<^verbatim>\<open>packages/cw-pause-once\<close>, \<^verbatim>\<open>packages/cw-cii\<close>, \<^verbatim>\<open>packages/zip-optional\<close>), and the three
  contracts its tests use as adversaries and counterparties (\<^verbatim>\<open>contracts/cw-ics721-bridge-tester\<close>,
  \<^verbatim>\<open>contracts/cw721-tester\<close>, \<^verbatim>\<open>contracts/cw721-virus\<close>).

  \<^bold>\<open>The program.\<close> A user delivers an NFT to the bridge (directly, or through a proxy when one is
  configured). \<^verbatim>\<open>receive_nft\<close> records it as away on a channel (\<^verbatim>\<open>OUTGOING_CLASS_TOKEN_TO_CHANNEL\<close>) and
  sends a packet. The bridge at the other end handles the packet in \<^verbatim>\<open>receive_ibc_packet\<close>: tokens that
  had left on this channel are redeemed, all others become vouchers of a class prefixed with the
  local port and channel (\<^verbatim>\<open>INCOMING_CLASS_TOKEN_TO_CHANNEL\<close>); the work is done in a submessage to
  the contract itself, whose outcome \<^verbatim>\<open>reply\<close> turns into the acknowledgement. The first bridge
  burns returned vouchers on a success acknowledgement and refunds the sender on an error or a
  timeout. A pauser may stop the contract once; a migration unpauses it.

  \<^bold>\<open>The theories.\<close>
  \<^item> \<^verbatim>\<open>Prelude\<close>: outcomes of Rust calls (value, error, panic), programs over storage, loops with early
    exit, the contract of storage maps (\<open>store_save\<close>, \<open>store_map\<close>), transition systems with
    invariants (\<open>inductive_invariant\<close>) and budgets (\<open>spending_budget\<close>), strings and decimals.
  \<^item> \<^verbatim>\<open>Cosmwasm\<close>: the message, response, packet and channel types of the crates.
  \<^item> \<^verbatim>\<open>Zip_Optional\<close>, \<^verbatim>\<open>Pause_Once\<close>, \<^verbatim>\<open>Contract_Info\<close>: the three packages.
  \<^item> \<^verbatim>\<open>Bridge_Types\<close>: identifiers, messages, errors and storage of the bridge (\<^verbatim>\<open>token_types.rs\<close>,
    \<^verbatim>\<open>msg.rs\<close>, \<^verbatim>\<open>error.rs\<close>, \<^verbatim>\<open>state.rs\<close>), the record \<open>host\<close> and accesses to pair-keyed maps; \<^verbatim>\<open>Sample_Codec\<close>:
    concrete encodings of messages, proved to be readable; \<^verbatim>\<open>Sample_Host\<close>: a concrete host.
  \<^item> \<^verbatim>\<open>Storage_Keys\<close>: the raw storage: namespaces (\<^verbatim>\<open>state.rs\<close>) and the storage-key implementations of
    the identifiers (\<^verbatim>\<open>token_types.rs\<close>), and that this layout implements the storage record.
  \<^item> \<^verbatim>\<open>Bridge_Helpers\<close> (\<^verbatim>\<open>ibc_helpers.rs\<close>), \<^verbatim>\<open>Bridge_Contract\<close> (\<^verbatim>\<open>contract.rs\<close>), \<^verbatim>\<open>Bridge_Receive\<close>
    (\<^verbatim>\<open>ibc_packet_receive.rs\<close>), \<^verbatim>\<open>Bridge_Ibc\<close> (\<^verbatim>\<open>ibc.rs\<close>): the handlers, one definition per function.
  \<^item> \<^verbatim>\<open>Bridge_System\<close>: the bridge as a transition system whose steps are successful entry-point
    calls, labelled with what the messages of the response ask for (the tokens listed in the
    callbacks of a receipt, the burn messages of an acknowledgement); an abstract specification that
    the code refines; invariants and ledger bounds.
  \<^item> \<^verbatim>\<open>Bridge_Transfer\<close>: two bridges at the ends of a channel.
  \<^item> \<^verbatim>\<open>Bridge_Chain\<close>: a bridge with the cw721 collections of its chain. \<open>dispatch\<close> runs the messages of a
    response depth first, with callbacks, collection calls, instantiations and their replies;
    \<open>packet_tx\<close>, \<open>ack_tx\<close>, \<open>timeout_tx\<close> and \<open>send_tx\<close> are whole transactions, with the rollback of a failed
    submessage. \<^verbatim>\<open>Sample_Chain\<close>: a concrete chain, and a transfer run on it.
  \<^item> \<^verbatim>\<open>Bridge_Link\<close>: two chains, the packets and acknowledgements between them and all that can happen
    (\<open>link_step\<close>); \<^verbatim>\<open>Bridge_Journey\<close>: the journey of one token over the link, step by step.
  \<^item> \<^verbatim>\<open>Bridge_Tester\<close>, \<^verbatim>\<open>Cw721_Base\<close>, \<^verbatim>\<open>Cw721_Tester\<close>, \<^verbatim>\<open>Cw721_Virus\<close>: the testing contracts;
    \<^verbatim>\<open>Bridge_Infection\<close>: the bridge and the virus collection calling each other.

  \<^bold>\<open>How the code is modelled.\<close> A handler is a program \<open>s \<Rightarrow> outcome \<times> s\<close> over its storage record; it
  returns the storage also when it fails, because the caller sees what was written before an early
  return, and only the chain rolls back a failed entry point. In \<^verbatim>\<open>Bridge_System\<close> a failed call is
  therefore no step. The \<^verbatim>\<open>?\<close> operator is \<open>bnd\<close> with \<open>err_into\<close> for the conversion of errors,
  \<^verbatim>\<open>try_fold\<close> and \<^verbatim>\<open>collect\<close> are \<open>try_fold\<close> and \<open>traverse\<close>. Numbers of 64 bits are words. The error
  type of \<^verbatim>\<open>ibc_packet_receive\<close>, an enum without values, is a type variable. Storage maps are keyed
  by values, which \<^verbatim>\<open>Storage_Keys\<close> justifies; the storage library panics on a pair whose first part,
  the class identifier, is longer than 0xFFFF bytes, and so does every access through \<open>at_pair\<close>. The
  properties of handlers that touch such a map say what holds for keys that fit (\<open>class_key_fits\<close>), and the
  receipt of a packet is described in both cases. The testing counterparty's storage is keyed by strings
  because two of its items share a key.

  \<^bold>\<open>Code outside the repository\<close> is a parameter: the fields of \<open>host\<close> (address validation, smart
  queries, JSON, base64, protobuf replies), of \<open>base_ops\<close> (the crate \<^verbatim>\<open>cw721_base\<close>) and of
  \<open>virus_host\<close>. The hypotheses on them are named: \<open>execute_encoder\<close>, \<open>cw721_encoder\<close> and
  \<open>ack_codec_ok\<close> (JSON encoding of these types does not fail; acknowledgements are decoded to what
  was encoded), \<open>packet_codec\<close> (packets likewise, between two chains), \<open>receive_host_ok\<close>,
  \<open>host_ok\<close> (addresses are non-empty and hold no slash), \<open>key_lib_ok\<close> (the storage library keeps the
  paths of different namespaces and keys apart), \<open>collections_ok\<close> (a collection moves or burns only
  tokens that exist, mints only identifiers that are free, and starts empty), \<open>chain_ok\<close> (encodings
  determine the message), \<open>chain_host\<close> (all calls of a chain use the same encodings), \<open>infectable\<close>
  (the bridge decodes what the virus encodes), \<open>mint_laws\<close> (minting refuses an identifier that is taken
  and gives a new one to the named owner) and \<open>answers_for\<close> (a collection answers queries for tokens that
  exist). On the link, holders never move what the
  bridge owns, and only the bridge mints in the collections it founded. Every property with hypotheses is followed
  by a theorem that applies it to a concrete host, state and message.

  \<^bold>\<open>What is proved.\<close>
  \<^item> The effect of every handler on storage and messages, on every branch: sending, receiving,
    acknowledging, refunding, callbacks, replies, handshake, instantiation, migration, access control.
  \<^item> In every history no token is released on a channel more often than it was sent there and no
    voucher burned more often than it was created, counted on the messages the bridge emits; the pauser pauses once per appointment.
  \<^item> In every reachable state: the class registries are inverse to each other, refunds and
    redemptions of tokens recorded as away cannot fail inside the bridge, packets sent are valid.
  \<^item> Over two bridges: a voucher carries class, token and metadata, and sending it back redeems
    exactly the original.
  \<^item> Over whole transactions: a packet either moves all its tokens to the receiver and is acknowledged
    as a success, or moves none and is acknowledged as a failure.
  \<^item> Over two chains, in every history: a token and its voucher are never both in circulation.
  \<^item> Over bridge and virus: one failed packet of the virus becomes at least five new ones, of tokens that did not exist before.
  \<^item> The raw storage: the layout implements the maps, and every cell keeps the type it was declared with.
  \<^item> Two behaviours that contradict the intent of the code are stated as theorems: a redemption whose
    callback fails is not restored, and a packet whose class identifier is too long for a storage key
    aborts its receipt instead of being acknowledged as a failure.
  \<^item> The packages against their contracts, and the testing contracts against what the tests expect.

  \<^bold>\<open>Loops.\<close> All loops of the sources run over lists and are structural, except the padding loop of
  the virus (measure: messages missing to the minimum length) and the draining of a zipped iterator,
  which has a fuel of one more than the number of identifiers and is proved to reach the end.

  \<^bold>\<open>The link.\<close> One channel joins the two chains; packets of other channels may arrive at either end, with
  any contents, but nothing is sent on other channels and deliveries do not come through a proxy. A
  packet is received or timed out at most once, and acknowledged at most once, as IBC guarantees.

  \<^bold>\<open>Not modelled:\<close> gas, the events of responses and attached funds (which the sources leave at their
  defaults), the byte format of JSON and of storage paths (parameters of the model), schema
  generation and crate roots (no program logic), the enum \<^verbatim>\<open>Never\<close> (it has no values), and the tests
  with their suites and binaries.
\<close>

end
